(* ===== verification/Prelude.thy ===== *)
theory Prelude
  imports Main "HOL-Library.Word" "HOL-Library.Sublist"
begin

text \<open>
  Shared base of the development: the machine integers, the sequencing of fallible
  operations over an explicit state, and the generic lemmas the component theories use.

  A fallible operation of the program that touches the outside world is a function
  \<open>'s \<Rightarrow> ('e + 'a) \<times> 's\<close>: it takes the state, and returns \<open>Inl\<close> the error or
  \<open>Inr\<close> the value, with the new state.  \<open>bind_io\<close> is the \<open>?\<close> operator of the source:
  the continuation runs only after success, and the state reached so far is kept on
  an early return.
\<close>

section \<open>Types\<close>

type_synonym u8 = "8 word"
type_synonym u16 = "16 word"
type_synonym bytes = "u8 list"
type_synonym ('s, 'e, 'a) io = "'s \<Rightarrow> ('e + 'a) \<times> 's"

named_theorems io_conv \<open>characterisations of when a sequenced operation succeeds or fails\<close>
named_theorems frame_intros \<open>composition rules for step-closed relations between states\<close>

section \<open>Sequencing\<close>

definition ret :: "'a \<Rightarrow> ('s, 'e, 'a) io" where
  "ret x = (\<lambda>s. (Inr x, s))"

definition raise :: "'e \<Rightarrow> ('s, 'e, 'a) io" where
  "raise e = (\<lambda>s. (Inl e, s))"

definition bind_io :: "('s, 'e, 'a) io \<Rightarrow> ('a \<Rightarrow> ('s, 'e, 'b) io) \<Rightarrow> ('s, 'e, 'b) io" where
  "bind_io m k = (\<lambda>s. case m s of (Inl e, s') \<Rightarrow> (Inl e, s') | (Inr x, s') \<Rightarrow> k x s')"

text \<open>A pure fallible computation, run at the current state (the \<open>?\<close> on a plain \<open>Result\<close>).\<close>

definition lift_sum :: "'e + 'a \<Rightarrow> ('s, 'e, 'a) io" where
  "lift_sum r = (\<lambda>s. (r, s))"

text \<open>A \<open>match\<close> on the result of a call: the continuation sees the error or the value.\<close>

definition match_io ::
  "('s, 'e, 'a) io \<Rightarrow> ('e \<Rightarrow> ('s, 'f, 'b) io) \<Rightarrow> ('a \<Rightarrow> ('s, 'f, 'b) io) \<Rightarrow> ('s, 'f, 'b) io"
where
  "match_io m on_err on_ok =
     (\<lambda>s. case m s of (Inl e, s') \<Rightarrow> on_err e s' | (Inr x, s') \<Rightarrow> on_ok x s')"

lemma match_io_ok [simp]: "m s = (Inr x, s') \<Longrightarrow> match_io m f g s = g x s'"
  by (simp add: match_io_def)

lemma match_io_err [simp]: "m s = (Inl e, s') \<Longrightarrow> match_io m f g s = f e s'"
  by (simp add: match_io_def)

lemma ret_apply [simp]: "ret x s = (Inr x, s)"
  by (simp add: ret_def)

lemma raise_apply [simp]: "raise e s = (Inl e, s)"
  by (simp add: raise_def)

lemma lift_sum_apply [simp]: "lift_sum r s = (r, s)"
  by (simp add: lift_sum_def)

lemma bind_io_cases:
  "bind_io m k s = (case fst (m s) of Inl e \<Rightarrow> (Inl e, snd (m s)) | Inr x \<Rightarrow> k x (snd (m s)))"
  by (simp add: bind_io_def split: prod.splits sum.splits)

lemma bind_io_ok [simp]: "m s = (Inr x, s') \<Longrightarrow> bind_io m k s = k x s'"
  by (simp add: bind_io_def)

lemma bind_io_err [simp]: "m s = (Inl e, s') \<Longrightarrow> bind_io m k s = (Inl e, s')"
  by (simp add: bind_io_def)

lemma bind_io_Inr [io_conv]:
  "bind_io m k s = (Inr y, t) \<longleftrightarrow> (\<exists>x s'. m s = (Inr x, s') \<and> k x s' = (Inr y, t))"
  by (auto simp: bind_io_def split: prod.splits sum.splits)

lemma bind_io_Inl [io_conv]:
  "bind_io m k s = (Inl e, t) \<longleftrightarrow>
     m s = (Inl e, t) \<or> (\<exists>x s'. m s = (Inr x, s') \<and> k x s' = (Inl e, t))"
  by (auto simp: bind_io_def split: prod.splits sum.splits)

lemma bind_io_assoc: "bind_io (bind_io m k) l = bind_io m (\<lambda>x. bind_io (k x) l)"
  by (auto simp: bind_io_def fun_eq_iff split: prod.splits sum.splits)

lemma ret_conv [io_conv]: "ret x s = (Inr y, t) \<longleftrightarrow> y = x \<and> t = s"
  by auto

lemma raise_conv [io_conv]: "raise e s = (Inl e', t) \<longleftrightarrow> e' = e \<and> t = s"
  by auto

section \<open>Relations kept by every step\<close>

text \<open>
  \<open>keeps R m\<close>: the state after \<open>m\<close> is related to the state before it, however \<open>m\<close> ends.
  For a reflexive and transitive \<open>R\<close> it composes along \<open>bind_io\<close>.
\<close>

definition keeps :: "('s \<Rightarrow> 's \<Rightarrow> bool) \<Rightarrow> ('s, 'e, 'a) io \<Rightarrow> bool" where
  "keeps R m \<longleftrightarrow> (\<forall>s. R s (snd (m s)))"

lemma keepsI: "(\<And>s r s'. m s = (r, s') \<Longrightarrow> R s s') \<Longrightarrow> keeps R m"
  by (metis keeps_def prod.collapse)

lemma keepsD: "keeps R m \<Longrightarrow> m s = (r, s') \<Longrightarrow> R s s'"
  by (metis keeps_def snd_conv)

lemma keeps_ret [frame_intros]: "reflp R \<Longrightarrow> keeps R (ret x)"
  by (simp add: keeps_def reflpD)

lemma keeps_raise [frame_intros]: "reflp R \<Longrightarrow> keeps R (raise e)"
  by (simp add: keeps_def reflpD)

lemma keeps_lift_sum [frame_intros]: "reflp R \<Longrightarrow> keeps R (lift_sum r)"
  by (simp add: keeps_def reflpD)

lemma keeps_bind [frame_intros]:
  assumes "transp R" "keeps R m" "\<And>x. keeps R (k x)"
  shows "keeps R (bind_io m k)"
proof (rule keepsI)
  fix s r s'
  assume run: "bind_io m k s = (r, s')"
  show "R s s'"
  proof (cases "m s")
    case (Pair q u)
    with assms(2) have "R s u" by (rule keepsD)
    with Pair run assms(1,3) show ?thesis
      by (cases q) (auto dest: keepsD transpD)
  qed
qed

lemma keeps_if [frame_intros]:
  "(b \<Longrightarrow> keeps R m) \<Longrightarrow> (\<not> b \<Longrightarrow> keeps R n) \<Longrightarrow> keeps R (if b then m else n)"
  by simp

lemma keeps_case_option [frame_intros]:
  "(x = None \<Longrightarrow> keeps R m) \<Longrightarrow> (\<And>y. x = Some y \<Longrightarrow> keeps R (f y)) \<Longrightarrow>
   keeps R (case x of None \<Rightarrow> m | Some y \<Rightarrow> f y)"
  by (cases x) simp_all

section \<open>Lists\<close>

lemma length_eq_2: "length xs = 2 \<longleftrightarrow> (\<exists>a b. xs = [a, b])"
  by (auto simp: numeral_2_eq_2 length_Suc_conv)

lemma length_eq_1: "length xs = 1 \<longleftrightarrow> (\<exists>a. xs = [a])"
  by (auto simp: length_Suc_conv)

lemma length_eq_4: "length xs = 4 \<longleftrightarrow> (\<exists>a b c d. xs = [a, b, c, d])"
  by (auto simp: eval_nat_numeral length_Suc_conv)

lemma append_eq_same_length:
  "length xs = length ys \<Longrightarrow> xs @ us = ys @ vs \<longleftrightarrow> xs = ys \<and> us = vs"
  by simp

lemma find_first_match:
  "List.find P xs = Some x \<longleftrightarrow> (\<exists>us vs. xs = us @ x # vs \<and> P x \<and> (\<forall>u \<in> set us. \<not> P u))"
proof (induction xs)
  case Nil
  then show ?case by simp
next
  case (Cons y ys)
  show ?case
  proof (cases "P y")
    case True
    then show ?thesis by (auto simp: Cons_eq_append_conv)
  next
    case False
    with Cons.IH show ?thesis by (auto simp: Cons_eq_append_conv) (metis set_ConsD)
  qed
qed

text \<open>
  A loop that applies a fallible step to every element and returns the first error: the
  \<open>for\<close> loops of the source with a \<open>?\<close> in the body that collect into a vector.
\<close>

fun traverse :: "('a \<Rightarrow> 'e + 'b) \<Rightarrow> 'a list \<Rightarrow> 'e + 'b list" where
  "traverse f [] = Inr []"
| "traverse f (x # xs) =
     (case f x of
        Inl e \<Rightarrow> Inl e
      | Inr y \<Rightarrow> (case traverse f xs of Inl e \<Rightarrow> Inl e | Inr ys \<Rightarrow> Inr (y # ys)))"

lemma traverse_Cons_Inr:
  "traverse f (x # xs) = Inr ys \<longleftrightarrow> (\<exists>z zs. ys = z # zs \<and> f x = Inr z \<and> traverse f xs = Inr zs)"
  by (auto split: sum.splits)

lemma traverse_Cons_Inl:
  "traverse f (x # xs) = Inl e \<longleftrightarrow> f x = Inl e \<or> (\<exists>y. f x = Inr y) \<and> traverse f xs = Inl e"
  by (auto split: sum.splits)

lemma traverse_Inr: "traverse f xs = Inr ys \<longleftrightarrow> map f xs = map Inr ys"
  by (induction xs arbitrary: ys)
    (auto simp: traverse_Cons_Inr Cons_eq_map_conv simp del: traverse.simps(2))

lemma traverse_Inl:
  "traverse f xs = Inl e \<longleftrightarrow>
     (\<exists>us x vs. xs = us @ x # vs \<and> f x = Inl e \<and> (\<forall>u \<in> set us. \<exists>y. f u = Inr y))"
proof (induction xs)
  case Nil
  then show ?case by simp
next
  case (Cons a xs)
  have split: "(\<exists>us x vs. a # xs = us @ x # vs \<and> Q us x) \<longleftrightarrow>
      Q [] a \<or> (\<exists>us x vs. xs = us @ x # vs \<and> Q (a # us) x)" for Q
    by (auto simp: Cons_eq_append_conv)
  show ?case
    unfolding traverse_Cons_Inl Cons.IH split by auto
qed

lemma traverse_length: "traverse f xs = Inr ys \<Longrightarrow> length ys = length xs"
  by (metis length_map traverse_Inr)

lemma traverse_map_id: "traverse f xs = traverse id (map f xs)"
  by (induction xs) (simp_all split: sum.splits)

lemma traverse_cong: "map f xs = map g ys \<Longrightarrow> traverse f xs = traverse g ys"
  by (metis traverse_map_id)

section \<open>Big-endian sixteen-bit integers\<close>

text \<open>\<open>u16::to_be_bytes\<close> and \<open>u16::from_be_bytes\<close>.\<close>

definition to_be_bytes :: "u16 \<Rightarrow> bytes" where
  "to_be_bytes p = [ucast (drop_bit 8 p), ucast p]"

definition from_be_bytes :: "u8 \<Rightarrow> u8 \<Rightarrow> u16" where
  "from_be_bytes hi lo = push_bit 8 (ucast hi) + ucast lo"

lemma unat_u8_less: "unat (b :: u8) < 256"
  using unsigned_less [of b, where 'a = nat] by simp

lemma unat_u16_less: "unat (p :: u16) < 65536"
  using unsigned_less [of p, where 'a = nat] by simp

lemma length_to_be_bytes [simp]: "length (to_be_bytes p) = 2"
  by (simp add: to_be_bytes_def)

lemma unat_from_be_bytes: "unat (from_be_bytes hi lo) = 256 * unat hi + unat lo"
proof -
  have h: "unat hi < 256" and l: "unat lo < 256"
    by (rule unat_u8_less)+
  have "unat (push_bit 8 (ucast hi :: u16)) = 256 * unat hi"
    using h by (simp add: push_bit_eq_mult unat_word_ariths unsigned_ucast_eq take_bit_eq_mod)
  moreover have "unat (ucast lo :: u16) = unat lo"
    using l by (simp add: unsigned_ucast_eq take_bit_eq_mod)
  ultimately show ?thesis
    using h l by (simp add: from_be_bytes_def unat_word_ariths)
qed

lemma from_to_be_bytes: "from_be_bytes (to_be_bytes p ! 0) (to_be_bytes p ! 1) = p"
proof -
  have p: "unat p < 65536" by (rule unat_u16_less)
  have hi: "unat (ucast (drop_bit 8 p) :: u8) = unat p div 256"
    using p by (simp add: unsigned_ucast_eq take_bit_eq_mod drop_bit_eq_div unat_div)
  have lo: "unat (ucast p :: u8) = unat p mod 256"
    by (simp add: unsigned_ucast_eq take_bit_eq_mod)
  have "unat (from_be_bytes (ucast (drop_bit 8 p)) (ucast p)) = unat p"
    by (simp add: unat_from_be_bytes hi lo)
  then show ?thesis by (simp add: to_be_bytes_def word_unat_eq_iff)
qed

lemma from_be_bytes_pair [simp]:
  "from_be_bytes (ucast (drop_bit 8 p)) (ucast p) = p"
  using from_to_be_bytes [of p] by (simp add: to_be_bytes_def)

end
