(* ===== verification/Rust_Text.thy ===== *)
theory Rust_Text
  imports Prelude
begin

text \<open>
  The parts of Rust's standard library for text that the program calls: \<open>as_bytes\<close>,
  \<open>String::from_utf8\<close>, \<open>from_utf8_lossy\<close>, \<open>find\<close> and \<open>rfind\<close> of a character.

  A \<open>String\<close> or \<open>str\<close> is a HOL \<open>string\<close>, one \<open>char\<close> per UTF-8 byte, so that \<open>length\<close> is
  Rust's \<open>len()\<close> and slicing by byte position is \<open>take\<close> and \<open>drop\<close>.  The validity that
  Rust's type guarantees is the predicate \<open>rust_string\<close>.
\<close>

section \<open>Bytes and characters\<close>

definition chr_u8 :: "u8 \<Rightarrow> char" where
  "chr_u8 b = char_of (unat b)"

definition as_bytes :: "string \<Rightarrow> bytes" where
  "as_bytes s = map of_char s"

definition of_bytes :: "bytes \<Rightarrow> string" where
  "of_bytes bs = map chr_u8 bs"

lemma unat_of_char: "unat (of_char c :: u8) = of_char c"
proof -
  have lt: "(of_char c :: nat) < 256"
    by (metis atLeastLessThan_iff range_eqI range_nat_of_char)
  have "(of_char c :: u8) = of_nat (of_char c)"
    by (simp add: of_nat_of_char)
  with lt show ?thesis by (simp add: unat_of_nat)
qed

lemma chr_u8_of_char [simp]: "chr_u8 (of_char c) = c"
  by (simp add: chr_u8_def unat_of_char)

lemma of_char_chr_u8 [simp]: "of_char (chr_u8 b) = b"
proof -
  have "unat b < 256" by (rule unat_u8_less)
  then have "unat (of_char (chr_u8 b) :: u8) = unat b"
    by (simp add: unat_of_char chr_u8_def)
  then show ?thesis by (simp add: word_unat_eq_iff)
qed

lemma of_bytes_as_bytes [simp]: "of_bytes (as_bytes s) = s"
  by (simp add: of_bytes_def as_bytes_def comp_def)

lemma as_bytes_of_bytes [simp]: "as_bytes (of_bytes bs) = bs"
  by (simp add: of_bytes_def as_bytes_def comp_def)

lemma as_bytes_Nil [simp]: "as_bytes [] = []"
  by (simp add: as_bytes_def)

lemma as_bytes_append [simp]: "as_bytes (s @ t) = as_bytes s @ as_bytes t"
  by (simp add: as_bytes_def)

lemma length_as_bytes [simp]: "length (as_bytes s) = length s"
  by (simp add: as_bytes_def)

lemma of_bytes_append [simp]: "of_bytes (a @ b) = of_bytes a @ of_bytes b"
  by (simp add: of_bytes_def)

lemma length_of_bytes [simp]: "length (of_bytes bs) = length bs"
  by (simp add: of_bytes_def)

lemma as_bytes_inject [simp]: "as_bytes s = as_bytes t \<longleftrightarrow> s = t"
  by (metis of_bytes_as_bytes)

lemma prefix_as_bytes: "prefix (as_bytes p) bs \<longleftrightarrow> prefix p (of_bytes bs)"
  by (metis as_bytes_append as_bytes_of_bytes of_bytes_append of_bytes_as_bytes prefix_def)

section \<open>UTF-8\<close>

text \<open>
  \<open>utf8_second b\<close>: for a lead byte of a multi-byte character, the number of bytes that
  follow and the range of the first of them (the table of \<open>core::str::from_utf8\<close>).
\<close>

definition utf8_second :: "u8 \<Rightarrow> (nat \<times> u8 \<times> u8) option" where
  "utf8_second b =
     (if 0xC2 \<le> b \<and> b \<le> 0xDF then Some (1, 0x80, 0xBF)
      else if b = 0xE0 then Some (2, 0xA0, 0xBF)
      else if b = 0xED then Some (2, 0x80, 0x9F)
      else if 0xE1 \<le> b \<and> b \<le> 0xEF then Some (2, 0x80, 0xBF)
      else if b = 0xF0 then Some (3, 0x90, 0xBF)
      else if 0xF1 \<le> b \<and> b \<le> 0xF3 then Some (3, 0x80, 0xBF)
      else if b = 0xF4 then Some (3, 0x80, 0x8F)
      else None)"

fun utf8_conts :: "nat \<Rightarrow> bytes \<Rightarrow> nat \<Rightarrow> nat \<times> bool" where
  "utf8_conts 0 bs k = (k, True)"
| "utf8_conts (Suc n) [] k = (k, False)"
| "utf8_conts (Suc n) (b # bs) k =
     (if 0x80 \<le> b \<and> b \<le> 0xBF then utf8_conts n bs (Suc k) else (k, False))"

text \<open>
  \<open>utf8_next bs\<close>: the length of the first character and \<open>True\<close>, or the length of the
  maximal invalid sequence at the front and \<open>False\<close>.
\<close>

fun utf8_next :: "bytes \<Rightarrow> nat \<times> bool" where
  "utf8_next [] = (0, True)"
| "utf8_next (b # bs) =
     (if b < 0x80 then (1, True)
      else case utf8_second b of
        None \<Rightarrow> (1, False)
      | Some (n, lo, hi) \<Rightarrow>
          (case bs of
             [] \<Rightarrow> (1, False)
           | c # cs \<Rightarrow> if lo \<le> c \<and> c \<le> hi then utf8_conts (n - 1) cs 2 else (1, False)))"

lemma utf8_conts_ge: "utf8_conts n bs k = (m, ok) \<Longrightarrow> k \<le> m"
  by (induction n bs k rule: utf8_conts.induct) (auto split: if_splits)

lemma utf8_next_pos: "utf8_next (b # bs) = (n, ok) \<Longrightarrow> 0 < n"
  by (auto split: if_splits option.splits list.splits dest!: utf8_conts_ge)

lemma utf8_next_fst_pos [simp]: "0 < fst (utf8_next (b # bs))"
  by (metis prod.collapse utf8_next_pos)

declare utf8_next.simps(2) [simp del]

function utf8_valid :: "bytes \<Rightarrow> bool" where
  "utf8_valid [] = True"
| "utf8_valid (b # bs) =
     (snd (utf8_next (b # bs)) \<and> utf8_valid (drop (fst (utf8_next (b # bs))) (b # bs)))"
  by pat_completeness auto
termination
  by (relation "measure length") auto

text \<open>\<open>String::from_utf8_lossy\<close>: each maximal invalid sequence becomes U+FFFD.\<close>

function utf8_lossy :: "bytes \<Rightarrow> string" where
  "utf8_lossy [] = []"
| "utf8_lossy (b # bs) =
     (let n = fst (utf8_next (b # bs)) in
      (if snd (utf8_next (b # bs)) then of_bytes (take n (b # bs)) else of_bytes [0xEF, 0xBF, 0xBD])
      @ utf8_lossy (drop n (b # bs)))"
  by pat_completeness auto
termination
  by (relation "measure length") auto

declare utf8_valid.simps(2) [simp del] utf8_lossy.simps(2) [simp del]

definition from_utf8 :: "bytes \<Rightarrow> string option" where
  "from_utf8 bs = (if utf8_valid bs then Some (of_bytes bs) else None)"

definition rust_string :: "string \<Rightarrow> bool" where
  "rust_string s \<longleftrightarrow> utf8_valid (as_bytes s)"

definition is_ascii :: "string \<Rightarrow> bool" where
  "is_ascii s \<longleftrightarrow> (\<forall>c \<in> set s. (of_char c :: nat) < 128)"

lemma from_utf8_as_bytes: "rust_string s \<Longrightarrow> from_utf8 (as_bytes s) = Some s"
  by (simp add: from_utf8_def rust_string_def)

lemma from_utf8_Some: "from_utf8 bs = Some s \<longleftrightarrow> utf8_valid bs \<and> bs = as_bytes s"
  by (auto simp: from_utf8_def)

lemma from_utf8_rust_string: "from_utf8 bs = Some s \<Longrightarrow> rust_string s"
  by (auto simp: from_utf8_Some rust_string_def)

lemma utf8_next_ascii: "b < 0x80 \<Longrightarrow> utf8_next (b # bs) = (1, True)"
  by (simp add: utf8_next.simps)

lemma utf8_valid_ascii_Cons: "b < 0x80 \<Longrightarrow> utf8_valid (b # bs) = utf8_valid bs"
  by (simp add: utf8_valid.simps utf8_next_ascii)

lemma utf8_lossy_ascii_Cons: "b < 0x80 \<Longrightarrow> utf8_lossy (b # bs) = chr_u8 b # utf8_lossy bs"
  by (simp add: utf8_lossy.simps utf8_next_ascii of_bytes_def)

lemma of_char_ascii: "(of_char c :: nat) < 128 \<Longrightarrow> (of_char c :: u8) < 0x80"
  by (simp add: word_less_nat_alt unat_of_char)

lemma is_ascii_Cons [simp]: "is_ascii (c # s) \<longleftrightarrow> (of_char c :: nat) < 128 \<and> is_ascii s"
  by (simp add: is_ascii_def)

lemma is_ascii_Nil [simp]: "is_ascii []"
  by (simp add: is_ascii_def)

lemma is_ascii_append [simp]: "is_ascii (s @ t) \<longleftrightarrow> is_ascii s \<and> is_ascii t"
  by (auto simp: is_ascii_def)

lemma utf8_valid_ascii: "is_ascii s \<Longrightarrow> utf8_valid (as_bytes s @ bs) = utf8_valid bs"
  by (induction s) (simp_all add: as_bytes_def utf8_valid_ascii_Cons of_char_ascii)

lemma rust_string_ascii: "is_ascii s \<Longrightarrow> rust_string s"
  using utf8_valid_ascii [of s "[]"] by (simp add: rust_string_def)

lemma utf8_lossy_ascii: "is_ascii s \<Longrightarrow> utf8_lossy (as_bytes s @ bs) = s @ utf8_lossy bs"
  by (induction s) (simp_all add: as_bytes_def utf8_lossy_ascii_Cons of_char_ascii)

text \<open>A character that is complete is read the same way whatever follows it.\<close>

lemma utf8_conts_append:
  "utf8_conts n bs k = (m, True) \<Longrightarrow> utf8_conts n (bs @ cs) k = (m, True)"
  by (induction n bs k rule: utf8_conts.induct) (auto split: if_splits)

lemma utf8_conts_le: "utf8_conts n bs k = (m, ok) \<Longrightarrow> m \<le> k + length bs"
  by (induction n bs k rule: utf8_conts.induct) (auto split: if_splits)

lemma utf8_next_append:
  "utf8_next (b # bs) = (m, True) \<Longrightarrow> utf8_next (b # bs @ cs) = (m, True)"
  by (auto simp: utf8_next.simps intro: utf8_conts_append split: if_splits option.splits list.splits)

lemma utf8_next_le: "utf8_next (b # bs) = (m, ok) \<Longrightarrow> m \<le> Suc (length bs)"
  by (auto simp: utf8_next.simps dest!: utf8_conts_le split: if_splits option.splits list.splits)

lemma utf8_valid_append: "utf8_valid a \<Longrightarrow> utf8_valid (a @ b) = utf8_valid b"
proof (induction a rule: utf8_valid.induct)
  case 1
  then show ?case by simp
next
  case (2 x xs)
  obtain n where n: "utf8_next (x # xs) = (n, True)"
    using "2.prems" by (cases "utf8_next (x # xs)") (auto simp: utf8_valid.simps)
  then have le: "n \<le> length (x # xs)"
    using utf8_next_le by fastforce
  have "utf8_valid ((x # xs) @ b) = utf8_valid (drop n ((x # xs) @ b))"
    using utf8_next_append [OF n, of b] by (simp add: utf8_valid.simps)
  also have "\<dots> = utf8_valid (drop n (x # xs) @ b)"
    using le by (simp only: drop_append) simp
  also have "\<dots> = utf8_valid b"
    using "2.IH" "2.prems" n by (simp add: utf8_valid.simps)
  finally show ?case .
qed

lemma rust_string_append: "rust_string s \<Longrightarrow> rust_string (s @ t) = rust_string t"
  by (simp add: rust_string_def utf8_valid_append)

lemma utf8_lossy_non_ascii_Cons:
  assumes "\<not> b < 0x80"
  shows "\<exists>c r. utf8_lossy (b # bs) = c # r \<and> 128 \<le> (of_char c :: nat)"
proof -
  have pos: "0 < fst (utf8_next (b # bs))" by simp
  have "128 \<le> unat b"
    using assms by (simp add: word_less_nat_alt)
  moreover have "unat b < 256" by (rule unat_u8_less)
  moreover obtain n where "fst (utf8_next (b # bs)) = Suc n"
    using pos by (cases "fst (utf8_next (b # bs))") simp_all
  ultimately show ?thesis
    by (auto simp: utf8_lossy.simps of_bytes_def chr_u8_def)
qed

text \<open>An ASCII prefix can be tested on the lossy text or on the bytes.\<close>

lemma prefix_utf8_lossy:
  "is_ascii p \<Longrightarrow> prefix p (utf8_lossy bs) \<longleftrightarrow> prefix (as_bytes p) bs"
proof (induction p arbitrary: bs)
  case Nil
  then show ?case by simp
next
  case (Cons c p)
  show ?case
  proof (cases bs)
    case Nil
    then show ?thesis by (simp add: as_bytes_def)
  next
    case (Cons b bs')
    show ?thesis
    proof (cases "b < 0x80")
      case True
      then show ?thesis
        using Cons.IH [of bs'] Cons.prems Cons
        by (auto simp: utf8_lossy_ascii_Cons as_bytes_def)
    next
      case False
      with Cons.prems Cons utf8_lossy_non_ascii_Cons [OF False, of bs'] show ?thesis
        by (auto simp: as_bytes_def dest: of_char_ascii)
    qed
  qed
qed

text \<open>The line end of HTTP.\<close>

definition crlf :: string where
  "crlf = [CHR 0x0D, CHR 0x0A]"

section \<open>Searching and slicing\<close>

text \<open>\<open>str::find\<close> and \<open>str::rfind\<close> of an ASCII character: the byte position.\<close>

fun find_char :: "char \<Rightarrow> string \<Rightarrow> nat option" where
  "find_char c [] = None"
| "find_char c (x # xs) = (if x = c then Some 0 else map_option Suc (find_char c xs))"

fun rfind_char :: "char \<Rightarrow> string \<Rightarrow> nat option" where
  "rfind_char c [] = None"
| "rfind_char c (x # xs) =
     (case rfind_char c xs of
        Some i \<Rightarrow> Some (Suc i)
      | None \<Rightarrow> if x = c then Some 0 else None)"

lemma find_char_None: "find_char c s = None \<longleftrightarrow> c \<notin> set s"
  by (induction s) auto

lemma rfind_char_None: "rfind_char c s = None \<longleftrightarrow> c \<notin> set s"
  by (induction s) (auto split: option.splits)

lemma find_char_append: "c \<notin> set a \<Longrightarrow> find_char c (a @ c # b) = Some (length a)"
  by (induction a) auto

lemma rfind_char_append: "c \<notin> set b \<Longrightarrow> rfind_char c (a @ c # b) = Some (length a)"
  by (induction a) (auto simp: rfind_char_None [THEN iffD2] split: option.splits)

lemma find_char_Some:
  "find_char c s = Some i \<Longrightarrow> s = take i s @ c # drop (Suc i) s \<and> c \<notin> set (take i s)"
  by (induction s arbitrary: i) (auto split: if_splits)

lemma rfind_char_Some:
  "rfind_char c s = Some i \<Longrightarrow> s = take i s @ c # drop (Suc i) s \<and> c \<notin> set (drop (Suc i) s)"
  by (induction s arbitrary: i) (auto simp: rfind_char_None split: if_splits option.splits)

end
