(* ===== verification/Rust_Fmt.thy ===== *)
theory Rust_Fmt
  imports Rust_Text
begin

text \<open>
  The formatting and parsing of Rust's standard library that the program relies on:
  decimal integers, \<open>str::trim\<close>, the first line of a text, letter case on ASCII.
\<close>

section \<open>Decimal integers\<close>

definition digit_char :: "nat \<Rightarrow> char" where
  "digit_char d = char_of (48 + d)"

definition digit_val :: "char \<Rightarrow> nat option" where
  "digit_val c = (let n = of_char c in if 48 \<le> n \<and> n \<le> 57 then Some (n - 48) else None)"

text \<open>\<open>Display\<close> of an unsigned integer.\<close>

fun dec :: "nat \<Rightarrow> string" where
  "dec n = (if n < 10 then [digit_char n] else dec (n div 10) @ [digit_char (n mod 10)])"

declare dec.simps [simp del]

text \<open>
  \<open>str::parse\<close> of an unsigned integer of at most \<open>bound\<close>: an optional \<open>+\<close>, then at least
  one digit, with the overflow checked at every digit.
\<close>

fun parse_digits :: "nat \<Rightarrow> nat \<Rightarrow> string \<Rightarrow> nat option" where
  "parse_digits bound acc [] = Some acc"
| "parse_digits bound acc (c # cs) =
     (case digit_val c of
        None \<Rightarrow> None
      | Some d \<Rightarrow> if acc * 10 + d \<le> bound then parse_digits bound (acc * 10 + d) cs else None)"

definition parse_unsigned :: "nat \<Rightarrow> string \<Rightarrow> nat option" where
  "parse_unsigned bound s =
     (case s of
        [] \<Rightarrow> None
      | c # cs \<Rightarrow>
          if c = CHR ''+'' then (if cs = [] then None else parse_digits bound 0 cs)
          else parse_digits bound 0 s)"

definition parse_u16 :: "string \<Rightarrow> u16 option" where
  "parse_u16 s = map_option of_nat (parse_unsigned 65535 s)"

definition show_u16 :: "u16 \<Rightarrow> string" where
  "show_u16 p = dec (unat p)"

lemma digit_val_char [simp]: "d < 10 \<Longrightarrow> digit_val (digit_char d) = Some d"
  by (simp add: digit_val_def digit_char_def Let_def)

lemma digit_char_ascii: "d < 10 \<Longrightarrow> (of_char (digit_char d) :: nat) < 128"
  by (simp add: digit_char_def)

lemma digit_char_not: "d < 10 \<Longrightarrow> digit_val c = None \<Longrightarrow> digit_char d \<noteq> c"
  by (metis digit_val_char option.distinct(1))

lemma set_dec: "c \<in> set (dec n) \<Longrightarrow> \<exists>d < 10. c = digit_char d"
proof (induction n rule: dec.induct)
  case (1 n)
  show ?case
  proof (cases "n < 10")
    case True
    then show ?thesis using "1.prems" by (auto simp: dec.simps [of n])
  next
    case False
    then have "c \<in> set (dec (n div 10)) \<or> c = digit_char (n mod 10)"
      using "1.prems" by (auto simp: dec.simps [of n])
    moreover have "n mod 10 < 10" by simp
    ultimately show ?thesis using "1.IH" False by blast
  qed
qed

lemma dec_nonempty [simp]: "dec n \<noteq> []"
  by (subst dec.simps) simp

lemma is_ascii_dec: "is_ascii (dec n)"
  by (auto simp: is_ascii_def dest!: set_dec digit_char_ascii)

lemma not_in_dec: "digit_val c = None \<Longrightarrow> c \<notin> set (dec n)"
  by (auto dest!: set_dec simp: digit_char_not)

lemma colon_not_in_dec [simp]: "CHR '':'' \<notin> set (dec n)"
  by (rule not_in_dec) (simp add: digit_val_def Let_def)

lemma dot_not_in_dec [simp]: "CHR ''.'' \<notin> set (dec n)"
  by (rule not_in_dec) (simp add: digit_val_def Let_def)

lemma plus_not_in_dec [simp]: "CHR ''+'' \<notin> set (dec n)"
  by (rule not_in_dec) (simp add: digit_val_def Let_def)

lemma parse_digits_append:
  "parse_digits bound acc (a @ b) =
     (case parse_digits bound acc a of None \<Rightarrow> None | Some acc' \<Rightarrow> parse_digits bound acc' b)"
  by (induction a arbitrary: acc) (auto split: option.splits)

lemma parse_digits_dec: "n \<le> bound \<Longrightarrow> parse_digits bound 0 (dec n) = Some n"
proof (induction n rule: dec.induct)
  case (1 n)
  show ?case
  proof (cases "n < 10")
    case True
    then show ?thesis using "1.prems" by (subst dec.simps) simp
  next
    case False
    then have "parse_digits bound 0 (dec (n div 10)) = Some (n div 10)"
      using "1.IH" "1.prems" by simp
    moreover have "n div 10 * 10 + n mod 10 = n" by simp
    ultimately show ?thesis
      using False "1.prems" by (subst dec.simps) (simp add: parse_digits_append)
  qed
qed

lemma parse_unsigned_dec: "n \<le> bound \<Longrightarrow> parse_unsigned bound (dec n) = Some n"
proof -
  assume le: "n \<le> bound"
  obtain c cs where d: "dec n = c # cs" by (cases "dec n") simp_all
  then have "c \<noteq> CHR ''+''" using plus_not_in_dec [of n] by auto
  with d parse_digits_dec [OF le] show ?thesis
    by (simp add: parse_unsigned_def del: parse_digits.simps)
qed

lemma parse_show_u16 [simp]: "parse_u16 (show_u16 p) = Some p"
proof -
  have "unat p \<le> 65535" using unat_u16_less [of p] by linarith
  then show ?thesis by (simp add: parse_u16_def show_u16_def parse_unsigned_dec)
qed

lemma colon_not_in_show_u16 [simp]: "CHR '':'' \<notin> set (show_u16 p)"
  by (simp add: show_u16_def)

lemma show_u16_inject: "show_u16 p = show_u16 q \<longleftrightarrow> p = q"
  by (metis option.inject parse_show_u16)

lemma is_ascii_show_u16 [simp]: "is_ascii (show_u16 p)"
  by (simp add: show_u16_def is_ascii_dec)

lemma parse_digits_bound:
  "parse_digits bound acc s = Some n \<Longrightarrow> acc \<le> bound \<Longrightarrow> n \<le> bound"
  by (induction s arbitrary: acc) (auto split: option.splits if_splits)

section \<open>Whitespace\<close>

text \<open>
  \<open>str::trim\<close> removes the characters with Unicode's White_Space property.  \<open>white_space\<close>
  lists their UTF-8 encodings: U+0009 to U+000D, U+0020, U+0085, U+00A0, U+1680,
  U+2000 to U+200A, U+2028, U+2029, U+202F, U+205F and U+3000.
\<close>

definition white_space :: "bytes list" where
  "white_space =
     [[0x09], [0x0A], [0x0B], [0x0C], [0x0D], [0x20], [0xC2, 0x85], [0xC2, 0xA0],
      [0xE1, 0x9A, 0x80],
      [0xE2, 0x80, 0x80], [0xE2, 0x80, 0x81], [0xE2, 0x80, 0x82], [0xE2, 0x80, 0x83],
      [0xE2, 0x80, 0x84], [0xE2, 0x80, 0x85], [0xE2, 0x80, 0x86], [0xE2, 0x80, 0x87],
      [0xE2, 0x80, 0x88], [0xE2, 0x80, 0x89], [0xE2, 0x80, 0x8A],
      [0xE2, 0x80, 0xA8], [0xE2, 0x80, 0xA9], [0xE2, 0x80, 0xAF], [0xE2, 0x81, 0x9F],
      [0xE3, 0x80, 0x80]]"

definition white_chars :: "string list" where
  "white_chars = map of_bytes white_space"

function trim_with :: "string list \<Rightarrow> string \<Rightarrow> string" where
  "trim_with ws s =
     (case List.find (\<lambda>w. w \<noteq> [] \<and> prefix w s) ws of
        None \<Rightarrow> s
      | Some w \<Rightarrow> trim_with ws (drop (length w) s))"
  by pat_completeness auto
termination
  by (relation "measure (\<lambda>(ws, s). length s)") (auto simp: find_Some_iff prefix_def)

declare trim_with.simps [simp del]

definition trim_start :: "string \<Rightarrow> string" where
  "trim_start s = trim_with white_chars s"

definition trim_end :: "string \<Rightarrow> string" where
  "trim_end s = rev (trim_with (map rev white_chars) (rev s))"

definition trim :: "string \<Rightarrow> string" where
  "trim s = trim_end (trim_start s)"

lemma trim_with_id: "(\<And>w. w \<in> set ws \<Longrightarrow> w \<noteq> [] \<Longrightarrow> \<not> prefix w s) \<Longrightarrow> trim_with ws s = s"
proof -
  assume "\<And>w. w \<in> set ws \<Longrightarrow> w \<noteq> [] \<Longrightarrow> \<not> prefix w s"
  then have "List.find (\<lambda>w. w \<noteq> [] \<and> prefix w s) ws = None"
    by (auto simp: find_None_iff)
  then show ?thesis by (simp add: trim_with.simps)
qed

section \<open>Lines and letter case\<close>

text \<open>\<open>s.lines().next()\<close>: up to the first line feed, with one carriage return before it dropped.\<close>

definition first_line :: "string \<Rightarrow> string option" where
  "first_line s =
     (if s = [] then None
      else case find_char (CHR 0x0A) s of
        None \<Rightarrow> Some s
      | Some i \<Rightarrow>
          (let line = take i s in
           Some (if line \<noteq> [] \<and> last line = CHR 0x0D then butlast line else line)))"

text \<open>
  Letter case on ASCII.  Rust's \<open>to_uppercase\<close> and \<open>to_lowercase\<close> are Unicode-aware; where the
  program calls them they are an argument of the model, and the law it needs is that they
  agree with these on ASCII text.
\<close>

definition ascii_upper :: "string \<Rightarrow> string" where
  "ascii_upper s = map (\<lambda>c. let n = of_char c :: nat in
     if 97 \<le> n \<and> n \<le> 122 then char_of (n - 32) else c) s"

definition ascii_lower :: "string \<Rightarrow> string" where
  "ascii_lower s = map (\<lambda>c. let n = of_char c :: nat in
     if 65 \<le> n \<and> n \<le> 90 then char_of (n + 32) else c) s"

definition agrees_on_ascii :: "(string \<Rightarrow> string) \<Rightarrow> (string \<Rightarrow> string) \<Rightarrow> bool" where
  "agrees_on_ascii f g \<longleftrightarrow> (\<forall>s. is_ascii s \<longrightarrow> f s = g s)"

lemma agrees_on_asciiD: "agrees_on_ascii f g \<Longrightarrow> is_ascii s \<Longrightarrow> f s = g s"
  by (simp add: agrees_on_ascii_def)

lemma agrees_on_ascii_refl [simp]: "agrees_on_ascii f f"
  by (simp add: agrees_on_ascii_def)

lemma ascii_upper_char:
  fixes c :: char
  defines "u \<equiv> (let n = of_char c :: nat in if 97 \<le> n \<and> n \<le> 122 then char_of (n - 32) else c)"
  shows "(of_char c :: nat) < 128 \<Longrightarrow> (of_char u :: nat) < 128"
    "(let n = of_char u :: nat in if 97 \<le> n \<and> n \<le> 122 then char_of (n - 32) else u) = u"
  by (auto simp: u_def Let_def of_char_mod_256)

lemma is_ascii_upper: "is_ascii s \<Longrightarrow> is_ascii (ascii_upper s)"
  by (auto simp: is_ascii_def ascii_upper_def intro: ascii_upper_char(1))

lemma ascii_upper_idem [simp]: "ascii_upper (ascii_upper s) = ascii_upper s"
  unfolding ascii_upper_def map_map comp_def ascii_upper_char(2) ..

end
