(* ===== verification/Errors.thy ===== *)
theory Errors
  imports Rust_Fmt
begin

text \<open>
  \<open>src/error.rs\<close>: the error type of the proxy and the text it is shown as, and the
  \<open>map_err\<close> adapters the handlers apply to the results of I/O.  An I/O or HTTP library
  error is represented by the text it displays.
\<close>

section \<open>ProxyError\<close>

datatype proxy_error =
    Io string
  | Hyper string
  | Config string
  | AclDenied string
  | AuthRequired
  | AuthFailed
  | Upstream string
  | Protocol string
  | Timeout
  | Socks5 string

type_synonym 'a proxy_result = "proxy_error + 'a"
type_synonym ('s, 'a) proxy_io = "('s, proxy_error, 'a) io"

text \<open>The \<open>#[error(...)]\<close> attributes.\<close>

fun display_error :: "proxy_error \<Rightarrow> string" where
  "display_error (Io e) = ''IO error: '' @ e"
| "display_error (Hyper e) = ''Hyper error: '' @ e"
| "display_error (Config e) = ''Config error: '' @ e"
| "display_error (AclDenied e) = ''ACL denied: '' @ e"
| "display_error AuthRequired = ''Auth required''"
| "display_error AuthFailed = ''Auth failed''"
| "display_error (Upstream e) = ''Upstream error: '' @ e"
| "display_error (Protocol e) = ''Protocol error: '' @ e"
| "display_error Timeout = ''Timeout''"
| "display_error (Socks5 e) = ''SOCKS5 error: '' @ e"

text \<open>The shown text starts differently for every kind of error, so it identifies the kind.\<close>

lemma display_error_nonempty: "display_error e \<noteq> []"
  by (cases e) simp_all

lemma display_error_inject: "display_error e = display_error f \<longleftrightarrow> e = f"
  by (cases e; cases f) simp_all

section \<open>Results\<close>

text \<open>\<open>r.map_err(f)\<close>.\<close>

definition map_err :: "('e \<Rightarrow> 'f) \<Rightarrow> 'e + 'a \<Rightarrow> 'f + 'a" where
  "map_err f r = (case r of Inl e \<Rightarrow> Inl (f e) | Inr x \<Rightarrow> Inr x)"

definition ok_or :: "'e \<Rightarrow> 'a option \<Rightarrow> 'e + 'a" where
  "ok_or e x = (case x of None \<Rightarrow> Inl e | Some y \<Rightarrow> Inr y)"

lemma map_err_simps [simp]: "map_err f (Inl e) = Inl (f e)" "map_err f (Inr x) = Inr x"
  by (simp_all add: map_err_def)

lemma map_err_Inr [simp]: "map_err f r = Inr x \<longleftrightarrow> r = Inr x"
  by (cases r) simp_all

lemma map_err_Inl [simp]: "map_err f r = Inl e \<longleftrightarrow> (\<exists>d. r = Inl d \<and> e = f d)"
  by (cases r) auto

lemma ok_or_simps [simp]: "ok_or e None = Inl e" "ok_or e (Some y) = Inr y"
  by (simp_all add: ok_or_def)

lemma ok_or_Inr [simp]: "ok_or e x = Inr y \<longleftrightarrow> x = Some y"
  by (cases x) simp_all

lemma ok_or_Inl [simp]: "ok_or e x = Inl f \<longleftrightarrow> x = None \<and> f = e"
  by (cases x) auto

end
