(* ===== verification/Rust_Net.thy ===== *)
theory Rust_Net
  imports Errors
begin

text \<open>
  \<open>std::net\<close>: IPv4 and IPv6 addresses with their textual forms, and socket addresses.
  \<open>Ipv4Addr\<close> and \<open>Ipv6Addr\<close> are their octets (\<open>octets()\<close>, \<open>from([u8; N])\<close>), lists of 4 and
  of 16 bytes.
\<close>

section \<open>IPv4\<close>

definition display_ipv4 :: "bytes \<Rightarrow> string" where
  "display_ipv4 ip =
     dec (unat (ip ! 0)) @ ''.'' @ dec (unat (ip ! 1)) @ ''.'' @
     dec (unat (ip ! 2)) @ ''.'' @ dec (unat (ip ! 3))"

text \<open>The pieces of a text between the occurrences of a separator.\<close>

fun split_on :: "char \<Rightarrow> string \<Rightarrow> string list" where
  "split_on c [] = [[]]"
| "split_on c (x # xs) =
     (if x = c then [] # split_on c xs
      else case split_on c xs of [] \<Rightarrow> [[x]] | p # ps \<Rightarrow> (x # p) # ps)"

text \<open>An octet: one to three digits, no leading zero, at most 255.\<close>

definition parse_octet :: "string \<Rightarrow> u8 option" where
  "parse_octet s =
     (if s = [] \<or> 3 < length s \<or> (1 < length s \<and> hd s = CHR ''0'') then None
      else map_option of_nat (parse_digits 255 0 s))"

definition parse_ipv4 :: "string \<Rightarrow> bytes option" where
  "parse_ipv4 s =
     (case map parse_octet (split_on (CHR ''.'') s) of
        [Some a, Some b, Some c, Some d] \<Rightarrow> Some [a, b, c, d]
      | _ \<Rightarrow> None)"

lemma split_on_nonempty [simp]: "split_on c s \<noteq> []"
  by (induction s) (auto split: list.splits)

lemma split_on_none: "c \<notin> set s \<Longrightarrow> split_on c s = [s]"
  by (induction s) auto

lemma split_on_append: "c \<notin> set a \<Longrightarrow> split_on c (a @ c # b) = a # split_on c b"
  by (induction a) auto

lemma length_dec_byte: "n < 256 \<Longrightarrow> length (dec n) \<le> 3"
  by (simp add: dec.simps [of n] dec.simps [of "n div 10"] dec.simps [of "n div 10 div 10"])

lemma dec_no_leading_zero: "1 < length (dec n) \<Longrightarrow> hd (dec n) \<noteq> CHR ''0''"
proof (induction n rule: dec.induct)
  case (1 n)
  then have ge: "\<not> n < 10" by (auto simp: dec.simps [of n])
  show ?case
  proof (cases "n div 10 < 10")
    case True
    with ge have "0 < n div 10" by simp
    with True have "digit_char (n div 10) \<noteq> digit_char 0"
      by (metis digit_val_char option.inject zero_less_numeral less_irrefl)
    moreover have "digit_char 0 = CHR ''0''"
      by (simp add: digit_char_def char_of_def bit_0)
    ultimately show ?thesis
      using ge True by (simp add: dec.simps [of n] dec.simps [of "n div 10"])
  next
    case False
    then have "1 < length (dec (n div 10))"
      by (simp add: dec.simps [of "n div 10"] Suc_lessI)
    with 1 ge show ?thesis by (simp add: dec.simps [of n])
  qed
qed

lemma parse_octet_dec: "parse_octet (dec (unat b)) = Some b"
proof -
  have "unat b < 256" by (rule unat_u8_less)
  then have "length (dec (unat b)) \<le> 3" "unat b \<le> 255"
    by (simp_all add: length_dec_byte)
  then show ?thesis
    using dec_no_leading_zero [of "unat b"] by (auto simp: parse_octet_def parse_digits_dec)
qed

lemma parse_display_ipv4:
  assumes "length ip = 4"
  shows "parse_ipv4 (display_ipv4 ip) = Some ip"
proof -
  obtain a b c d where ip: "ip = [a, b, c, d]"
    using assms by (auto simp: length_eq_4)
  show ?thesis
    by (simp add: ip parse_ipv4_def display_ipv4_def split_on_append split_on_none parse_octet_dec)
qed

lemma parse_ipv4_length: "parse_ipv4 s = Some ip \<Longrightarrow> length ip = 4"
  by (auto simp: parse_ipv4_def split: list.splits option.splits)

section \<open>IPv6\<close>

text \<open>The eight sixteen-bit segments of the sixteen octets, and back.\<close>

fun segments :: "bytes \<Rightarrow> u16 list" where
  "segments (hi # lo # bs) = from_be_bytes hi lo # segments bs"
| "segments _ = []"

definition octets_of_segments :: "u16 list \<Rightarrow> bytes" where
  "octets_of_segments ss = concat (map to_be_bytes ss)"

definition hex_char :: "nat \<Rightarrow> char" where
  "hex_char d = (if d < 10 then char_of (48 + d) else char_of (87 + d))"

text \<open>\<open>{:x}\<close>: lower-case hexadecimal without leading zeros.\<close>

fun hex :: "nat \<Rightarrow> string" where
  "hex n = (if n < 16 then [hex_char n] else hex (n div 16) @ [hex_char (n mod 16)])"

declare hex.simps [simp del]

definition join_hex :: "u16 list \<Rightarrow> string" where
  "join_hex ss = (case ss of [] \<Rightarrow> []
     | x # xs \<Rightarrow> hex (unat x) @ concat (map (\<lambda>y. '':'' @ hex (unat y)) xs))"

text \<open>The longest run of zero segments (the first of the longest), as start and length.\<close>

fun zero_run :: "u16 list \<Rightarrow> nat \<Rightarrow> nat \<times> nat \<Rightarrow> nat \<times> nat \<Rightarrow> nat \<times> nat" where
  "zero_run [] i cur best = best"
| "zero_run (x # xs) i (cs, cl) (bs, bl) =
     (if x = 0 then
        (let cur = (if cl = 0 then i else cs, Suc cl);
             best = (if Suc cl > bl then cur else (bs, bl))
         in zero_run xs (Suc i) cur best)
      else zero_run xs (Suc i) (0, 0) (bs, bl))"

definition display_ipv6 :: "bytes \<Rightarrow> string" where
  "display_ipv6 ip =
     (let ss = segments ip in
      if take 6 ss = [0, 0, 0, 0, 0, 0xFFFF] then ''::ffff:'' @ display_ipv4 (drop 12 ip)
      else let (start, len) = zero_run ss 0 (0, 0) (0, 0) in
        if 1 < len then join_hex (take start ss) @ ''::'' @ join_hex (drop (start + len) ss)
        else join_hex ss)"

definition hex_val :: "char \<Rightarrow> nat option" where
  "hex_val c = (let n = of_char c :: nat in
     if 48 \<le> n \<and> n \<le> 57 then Some (n - 48)
     else if 97 \<le> n \<and> n \<le> 102 then Some (n - 87)
     else if 65 \<le> n \<and> n \<le> 70 then Some (n - 55)
     else None)"

text \<open>A group: one to four hexadecimal digits.\<close>

fun parse_hex :: "nat \<Rightarrow> string \<Rightarrow> nat option" where
  "parse_hex acc [] = Some acc"
| "parse_hex acc (c # cs) =
     (case hex_val c of None \<Rightarrow> None | Some d \<Rightarrow> parse_hex (acc * 16 + d) cs)"

definition parse_group :: "string \<Rightarrow> u16 option" where
  "parse_group s =
     (if s = [] \<or> 4 < length s then None else map_option of_nat (parse_hex 0 s))"

text \<open>
  The pieces between colons of one side of the \<open>::\<close>; the last piece may be a dotted IPv4
  address, which stands for two groups.
\<close>

fun parse_groups :: "string list \<Rightarrow> u16 list option" where
  "parse_groups [] = Some []"
| "parse_groups [p] =
     (case parse_group p of
        Some g \<Rightarrow> Some [g]
      | None \<Rightarrow> map_option segments (parse_ipv4 p))"
| "parse_groups (p # ps) =
     (case (parse_group p, parse_groups ps) of
        (Some g, Some gs) \<Rightarrow> Some (g # gs)
      | _ \<Rightarrow> None)"

definition parse_side :: "string \<Rightarrow> u16 list option" where
  "parse_side s = (if s = [] then Some [] else parse_groups (split_on (CHR '':'') s))"

text \<open>The split at the first \<open>::\<close>.\<close>

fun split_double_colon :: "string \<Rightarrow> (string \<times> string) option" where
  "split_double_colon (a # b # s) =
     (if a = CHR '':'' \<and> b = CHR '':'' then Some ([], s)
      else map_option (\<lambda>(l, r). (a # l, r)) (split_double_colon (b # s)))"
| "split_double_colon _ = None"

definition no_dot :: "string \<Rightarrow> bool" where
  "no_dot s \<longleftrightarrow> CHR ''.'' \<notin> set s"

text \<open>
  Without \<open>::\<close> there are exactly eight groups; with it, at most seven, and an IPv4 tail is
  accepted on the right-hand side only.
\<close>

definition parse_ipv6 :: "string \<Rightarrow> bytes option" where
  "parse_ipv6 s =
     (case split_double_colon s of
        None \<Rightarrow>
          (case parse_side s of
             Some gs \<Rightarrow> if length gs = 8 then Some (octets_of_segments gs) else None
           | None \<Rightarrow> None)
      | Some (l, r) \<Rightarrow>
          (case (if no_dot l then parse_side l else None, parse_side r) of
             (Some gl, Some gr) \<Rightarrow>
               if length gl + length gr \<le> 7
               then Some (octets_of_segments (gl @ replicate (8 - length gl - length gr) 0 @ gr))
               else None
           | _ \<Rightarrow> None))"

lemma length_octets_of_segments [simp]: "length (octets_of_segments ss) = 2 * length ss"
  by (induction ss) (simp_all add: octets_of_segments_def)

lemma parse_ipv6_length: "parse_ipv6 s = Some ip \<Longrightarrow> length ip = 16"
  by (auto simp: parse_ipv6_def split: option.splits if_splits prod.splits)

section \<open>Addresses of sockets\<close>

datatype ip_addr = V4 bytes | V6 bytes

datatype socket_addr = SockV4 bytes u16 | SockV6 bytes u16

end
