(* ===== verification/Config_Model.thy ===== *)
theory Config_Model
  imports Rust_Net
begin

text \<open>
  \<open>src/config.rs\<close>, \<open>src/main.rs\<close> and \<open>src/logging.rs\<close>: the configuration types, loading and
  reloading the file, the command line and the logging set-up.  Reading a file and the
  YAML deserializer are arguments (\<open>read_file\<close>, \<open>parse_yaml\<close>), each returning an error text
  or its result.
\<close>

type_synonym u64 = "64 word"
type_synonym usize = "64 word"

section \<open>The configuration types\<close>

record user_credential =
  username :: string
  password :: string

datatype protocol_cfg = Protocol_Http | Protocol_Socks5

record tls_config =
  cert :: string
  key :: string

record listen_config =
  listen_addr :: string
  listen_protocol :: protocol_cfg
  listen_tls :: "tls_config option"

record server_config =
  listen :: "listen_config list"
  max_connections :: "usize option"
  tcp_keepalive :: "u64 option"
  connect_timeout :: "u64 option"
  read_timeout :: "u64 option"
  write_timeout :: "u64 option"

datatype acl_action_config = Cfg_Allow | Cfg_Deny | Cfg_Authenticate

record auth_config =
  auth_type :: string
  auth_cfg_users :: "user_credential list option"

record acl_rule_config =
  rule_action :: acl_action_config
  rule_src_ip :: "string list option"
  rule_dst_domain :: "string list option"
  rule_dst_port :: "string list option"
  rule_http_method :: "string list option"
  rule_auth :: "auth_config option"

record access_control_config =
  cfg_default_action :: acl_action_config
  cfg_rules :: "acl_rule_config list"

datatype upstream_config =
    Direct
  | Http string "user_credential option" "bool option"
  | Socks5_Proxy string "user_credential option" "bool option"
  | Chain "upstream_config list"

record logging_config =
  level :: string
  access_log :: "string option"
  log_format :: "string option"

record metrics_config =
  enabled :: bool
  metrics_listen :: string

record app_config =
  server :: server_config
  access_control :: access_control_config
  upstream :: upstream_config
  logging :: logging_config
  metrics :: "metrics_config option"

record cli_args =
  cli_config :: string
  cli_listen :: "string option"
  cli_log_level :: "string option"

section \<open>Loading\<close>

definition load_from_file ::
  "(string \<Rightarrow> string + string) \<Rightarrow> (string \<Rightarrow> string + app_config) \<Rightarrow> string \<Rightarrow> string + app_config"
where
  "load_from_file read_file parse_yaml path =
     (case read_file path of
        Inl e \<Rightarrow> Inl e
      | Inr content \<Rightarrow> parse_yaml content)"

definition reload ::
  "(string \<Rightarrow> string + string) \<Rightarrow> (string \<Rightarrow> string + app_config) \<Rightarrow> string \<Rightarrow> string + app_config"
where
  "reload read_file parse_yaml path = load_from_file read_file parse_yaml path"

lemma reload_eq: "reload rf py path = load_from_file rf py path"
  by (simp add: reload_def)

section \<open>Logging\<close>

text \<open>
  What \<open>init_logging\<close> installs: the level filter, the options it sets on the formatting
  layer (\<open>None\<close> where it leaves the library's default), and the note it logs.  \<open>env_filter\<close>
  is the outcome of \<open>EnvFilter::try_from_default_env\<close>.
\<close>

record log_setup =
  filter_directive :: string
  as_json :: bool
  with_target :: bool
  with_thread_ids :: bool
  with_file :: bool
  with_line_number :: "bool option"
  access_note :: "string option"

definition init_logging :: "string option \<Rightarrow> logging_config \<Rightarrow> log_setup" where
  "init_logging env_filter config =
     (let directive = (case env_filter of Some f \<Rightarrow> f | None \<Rightarrow> level config);
          fmt = (case log_format config of Some f \<Rightarrow> f | None \<Rightarrow> ''text'');
          note = map_option (\<lambda>p. ''Access log will be written to: '' @ p) (access_log config)
      in if fmt = ''json''
         then \<lparr>filter_directive = directive, as_json = True, with_target = True,
               with_thread_ids = True, with_file = True, with_line_number = Some True,
               access_note = note\<rparr>
         else \<lparr>filter_directive = directive, as_json = False, with_target = True,
               with_thread_ids = False, with_file = False, with_line_number = None,
               access_note = note\<rparr>)"

section \<open>Start-up\<close>

text \<open>
  \<open>main\<close>: load the configuration, override the log level, install logging, run the server
  with the loaded configuration.  The result is the error of the first failing step, or
  the log set-up and the arguments \<open>server::run\<close> is called with.
\<close>

definition main_start ::
  "(string \<Rightarrow> string + string) \<Rightarrow> (string \<Rightarrow> string + app_config) \<Rightarrow> string option \<Rightarrow> cli_args
   \<Rightarrow> string + (log_setup \<times> app_config \<times> string)"
where
  "main_start read_file parse_yaml env_filter args =
     (case load_from_file read_file parse_yaml (cli_config args) of
        Inl e \<Rightarrow> Inl e
      | Inr config \<Rightarrow>
          (let log_config = (case cli_log_level args of
                 Some l \<Rightarrow> (logging config)\<lparr>level := l\<rparr>
               | None \<Rightarrow> logging config)
           in Inr (init_logging env_filter log_config, config, cli_config args)))"

text \<open>The directory of the level: the environment wins, then the command line, then the file.\<close>

lemma main_start_level:
  assumes "main_start rf py env args = Inr (setup, config, path)"
  shows "filter_directive setup =
    (case env of Some f \<Rightarrow> f
     | None \<Rightarrow> (case cli_log_level args of Some l \<Rightarrow> l | None \<Rightarrow> level (logging config)))"
  using assms
  by (auto simp: main_start_def init_logging_def Let_def split: sum.splits option.splits if_splits)

lemma main_start_ignores_listen:
  "main_start rf py env (args\<lparr>cli_listen := l\<rparr>) = main_start rf py env args"
  by (simp add: main_start_def split: sum.split)

end
