(* ===== verification/Acl_Auth.thy ===== *)
theory Acl_Auth
  imports Config_Model
begin

text \<open>
  \<open>src/acl/auth.rs\<close>: checking a user name and password against the configured credentials,
  and parsing an HTTP Basic authorization value.  The base64 decoder and encoder of the
  \<open>base64\<close> crate are arguments; the laws the program relies on are the locale
  \<open>base64_codec\<close>.
\<close>

section \<open>Credentials\<close>

definition verify_credentials :: "string \<Rightarrow> string \<Rightarrow> user_credential list \<Rightarrow> bool" where
  "verify_credentials user pass users =
     list_ex (\<lambda>u. username u = user \<and> password u = pass) users"

lemma verify_credentials_iff:
  "verify_credentials user pass users \<longleftrightarrow>
     (\<exists>u \<in> set users. username u = user \<and> password u = pass)"
  by (simp add: verify_credentials_def list_ex_iff)

lemma verify_credentials_Nil [simp]: "\<not> verify_credentials user pass []"
  by (simp add: verify_credentials_def)

lemma verify_credentials_mono:
  "verify_credentials user pass us \<Longrightarrow> set us \<subseteq> set vs \<Longrightarrow> verify_credentials user pass vs"
  by (auto simp: verify_credentials_iff)

section \<open>Basic authorization\<close>

definition parse_basic_auth ::
  "(string \<Rightarrow> bytes option) \<Rightarrow> string \<Rightarrow> (string \<times> string) option"
where
  "parse_basic_auth b64_decode value =
     (let header_value = trim value in
      if \<not> prefix ''Basic '' header_value then None
      else
        (let base64_part = drop 6 header_value in
         case b64_decode base64_part of
           None \<Rightarrow> None
         | Some decoded \<Rightarrow>
             (case from_utf8 decoded of
                None \<Rightarrow> None
              | Some decoded_str \<Rightarrow>
                  (case find_char (CHR '':'') decoded_str of
                     Some colon_pos \<Rightarrow>
                       Some (take colon_pos decoded_str, drop (colon_pos + 1) decoded_str)
                   | None \<Rightarrow> None))))"

text \<open>The client side: the value the upstream connectors send.\<close>

definition basic_auth_value :: "(bytes \<Rightarrow> string) \<Rightarrow> string \<Rightarrow> string \<Rightarrow> string" where
  "basic_auth_value b64_encode user pass =
     ''Basic '' @ b64_encode (as_bytes (user @ '':'' @ pass))"

definition base64_chars :: "char set" where
  "base64_chars = set ''ABCDEFGHIJKLMNOPQRSTUVWXYZabcdefghijklmnopqrstuvwxyz0123456789+/=''"

lemma base64_char_bounds: "c \<in> base64_chars \<Longrightarrow> 32 < (of_char c :: nat) \<and> (of_char c :: nat) < 127"
  by (auto simp: base64_chars_def)

lemma base64_chars_ascii: "set s \<subseteq> base64_chars \<Longrightarrow> is_ascii s"
  by (force simp: is_ascii_def dest: base64_char_bounds)

text \<open>The first and the last byte of every white-space character are outside 33..126.\<close>

lemma white_chars_ends:
  assumes "w \<in> set white_chars"
  shows "w \<noteq> []" "\<not> (32 < (of_char (hd w) :: nat) \<and> (of_char (hd w) :: nat) < 127)"
    "\<not> (32 < (of_char (last w) :: nat) \<and> (of_char (last w) :: nat) < 127)"
  using assms by (auto simp: white_chars_def white_space_def of_bytes_def chr_u8_def)

lemma trim_id:
  assumes "s \<noteq> []"
    and "32 < (of_char (hd s) :: nat)" "(of_char (hd s) :: nat) < 127"
    and "32 < (of_char (last s) :: nat)" "(of_char (last s) :: nat) < 127"
  shows "trim s = s"
proof -
  have "trim_start s = s"
    unfolding trim_start_def
  proof (rule trim_with_id)
    fix w assume w: "w \<in> set white_chars" "w \<noteq> []"
    show "\<not> prefix w s"
    proof
      assume "prefix w s"
      then have "hd s = hd w" using w(2) by (auto simp: prefix_def)
      with white_chars_ends(2) [OF w(1)] assms show False by simp
    qed
  qed
  moreover have "trim_with (map rev white_chars) (rev s) = rev s"
  proof (rule trim_with_id)
    fix v assume v: "v \<in> set (map rev white_chars)" "v \<noteq> []"
    then obtain w where w: "w \<in> set white_chars" "v = rev w" "w \<noteq> []" by auto
    show "\<not> prefix v (rev s)"
    proof
      assume "prefix v (rev s)"
      then have "hd (rev s) = hd v" using v(2) by (auto simp: prefix_def)
      then have "last s = last w" using w assms(1) by (simp add: hd_rev)
      with white_chars_ends(3) [OF w(1)] assms show False by simp
    qed
  qed
  ultimately show ?thesis by (simp add: trim_def trim_end_def)
qed

text \<open>
  The interface to the base64 library: decoding inverts encoding, and the encoder's
  output is made of characters of the standard alphabet, and is empty for no bytes only.
\<close>

locale base64_codec =
  fixes b64_encode :: "bytes \<Rightarrow> string"
    and b64_decode :: "string \<Rightarrow> bytes option"
  assumes decode_encode: "b64_decode (b64_encode bs) = Some bs"
    and encode_chars: "set (b64_encode bs) \<subseteq> base64_chars"
    and encode_nonempty: "bs \<noteq> [] \<Longrightarrow> b64_encode bs \<noteq> []"
begin

lemma trim_basic: "bs \<noteq> [] \<Longrightarrow> trim (''Basic '' @ b64_encode bs) = ''Basic '' @ b64_encode bs"
proof -
  assume ne: "bs \<noteq> []"
  then have "last (''Basic '' @ b64_encode bs) = last (b64_encode bs)"
    by (simp add: encode_nonempty)
  moreover have "last (b64_encode bs) \<in> base64_chars"
    using encode_chars encode_nonempty [OF ne] last_in_set by blast
  ultimately show ?thesis
    by (intro trim_id) (simp_all add: base64_char_bounds)
qed

lemma basic_auth_roundtrip:
  assumes user: "rust_string user" "CHR '':'' \<notin> set user" and pass: "rust_string pass"
  shows "parse_basic_auth b64_decode (basic_auth_value b64_encode user pass) = Some (user, pass)"
proof -
  let ?cred = "user @ '':'' @ pass"
  have "rust_string ?cred"
    using user(1) pass rust_string_append [of user "'':'' @ pass"]
      rust_string_append [of "'':''" pass] rust_string_ascii [of "'':''"] by simp
  then have utf8: "from_utf8 (as_bytes ?cred) = Some ?cred"
    by (rule from_utf8_as_bytes)
  have "trim (basic_auth_value b64_encode user pass) = basic_auth_value b64_encode user pass"
    unfolding basic_auth_value_def by (rule trim_basic) (simp add: as_bytes_def)
  moreover have "find_char (CHR '':'') ?cred = Some (length user)"
    using find_char_append [OF user(2), of pass] by simp
  ultimately show ?thesis
    using utf8 by (simp add: parse_basic_auth_def Let_def basic_auth_value_def decode_encode del: as_bytes_append)
qed

end

text \<open>Whatever the decoder returns, a parsed user name holds no colon.\<close>

lemma parse_basic_auth_Some:
  assumes "parse_basic_auth decode value = Some (user, pass)"
  shows "CHR '':'' \<notin> set user"
    "decode (drop 6 (trim value)) = Some (as_bytes (user @ '':'' @ pass))"
    "prefix ''Basic '' (trim value)"
proof -
  from assms obtain d s i where
    pre: "prefix ''Basic '' (trim value)" and d: "decode (drop 6 (trim value)) = Some d"
    and s: "d = as_bytes s" and i: "find_char (CHR '':'') s = Some i"
    and parts: "user = take i s" "pass = drop (i + 1) s"
    by (auto simp: parse_basic_auth_def Let_def from_utf8_Some split: if_splits option.splits)
  from find_char_Some [OF i] parts have "s = user @ '':'' @ pass" and "CHR '':'' \<notin> set user"
    by simp_all
  with pre d s show "CHR '':'' \<notin> set user"
    "decode (drop 6 (trim value)) = Some (as_bytes (user @ '':'' @ pass))"
    "prefix ''Basic '' (trim value)" by simp_all
qed

end
