(* ===== verification/Acl_Domain.thy ===== *)
theory Acl_Domain
  imports Config_Model
begin

text \<open>
  \<open>src/acl/domain_filter.rs\<close>: a filter compiled from exact names, glob patterns and regular
  expressions.  The \<open>globset\<close> and \<open>regex\<close> crates are the record \<open>matchers\<close>; what they
  document of their sets (a set accepts a text when one of its members does) is the locale
  \<open>pattern_sets\<close>, and the filter's specification is proved inside it.
\<close>

record ('glob, 'gset, 'rset) matchers =
  glob_new :: "string \<Rightarrow> string + 'glob"
  globset_build :: "'glob list \<Rightarrow> string + 'gset"
  globset_is_match :: "'gset \<Rightarrow> string \<Rightarrow> bool"
  regexset_new :: "string list \<Rightarrow> string + 'rset"
  regexset_is_match :: "'rset \<Rightarrow> string \<Rightarrow> bool"

record ('gset, 'rset) domain_filter =
  glob_set :: "'gset option"
  regex_set :: "'rset option"
  exact_matches :: "string set"

section \<open>Building the filter\<close>

definition has_wildcard :: "string \<Rightarrow> bool" where
  "has_wildcard pattern \<longleftrightarrow> CHR ''*'' \<in> set pattern \<or> CHR ''?'' \<in> set pattern"

text \<open>The loop of \<open>DomainFilter::new\<close>: the globs, the regular expressions and the exact names.\<close>

fun scan_patterns ::
  "('glob, 'gset, 'rset) matchers \<Rightarrow> string list \<Rightarrow> 'glob list \<times> string list \<times> string set
   \<Rightarrow> string + ('glob list \<times> string list \<times> string set)"
where
  "scan_patterns M [] acc = Inr acc"
| "scan_patterns M (pattern # rest) (globs, regexes, exact) =
     (if prefix ''~'' pattern then scan_patterns M rest (globs, regexes @ [drop 1 pattern], exact)
      else if has_wildcard pattern then
        (case glob_new M pattern of
           Inl e \<Rightarrow> Inl (''Invalid glob pattern '' @ [CHR 0x27] @ pattern @ [CHR 0x27] @ '': '' @ e)
         | Inr glob \<Rightarrow> scan_patterns M rest (globs @ [glob], regexes, exact))
      else scan_patterns M rest (globs, regexes, insert pattern exact))"

text \<open>\<open>has_globs\<close> is true exactly when a glob was added, so it is the test \<open>globs \<noteq> []\<close>.\<close>

definition domain_filter_new ::
  "('glob, 'gset, 'rset) matchers \<Rightarrow> string list \<Rightarrow> string + ('gset, 'rset) domain_filter"
where
  "domain_filter_new M patterns =
     (case scan_patterns M patterns ([], [], {}) of
        Inl e \<Rightarrow> Inl e
      | Inr (globs, regexes, exact) \<Rightarrow>
          (case (if globs \<noteq> []
                 then (case globset_build M globs of
                         Inl e \<Rightarrow> Inl (''Failed to build glob set: '' @ e)
                       | Inr s \<Rightarrow> Inr (Some s))
                 else Inr None) of
             Inl e \<Rightarrow> Inl e
           | Inr gs \<Rightarrow>
               (case (if regexes \<noteq> []
                      then (case regexset_new M regexes of
                              Inl e \<Rightarrow> Inl (''Failed to build regex set: '' @ e)
                            | Inr s \<Rightarrow> Inr (Some s))
                      else Inr None) of
                  Inl e \<Rightarrow> Inl e
                | Inr rs \<Rightarrow> Inr \<lparr>glob_set = gs, regex_set = rs, exact_matches = exact\<rparr>)))"

section \<open>Using the filter\<close>

definition filter_matches ::
  "('glob, 'gset, 'rset) matchers \<Rightarrow> ('gset, 'rset) domain_filter \<Rightarrow> string \<Rightarrow> bool"
where
  "filter_matches M f domain =
     (if domain \<in> exact_matches f then True
      else if (case glob_set f of Some gs \<Rightarrow> globset_is_match M gs domain | None \<Rightarrow> False) then True
      else if (case regex_set f of Some rs \<Rightarrow> regexset_is_match M rs domain | None \<Rightarrow> False) then True
      else False)"

definition filter_is_empty :: "('gset, 'rset) domain_filter \<Rightarrow> bool" where
  "filter_is_empty f \<longleftrightarrow> exact_matches f = {} \<and> glob_set f = None \<and> regex_set f = None"

section \<open>What the loop collects\<close>

definition is_regex :: "string \<Rightarrow> bool" where
  "is_regex p \<longleftrightarrow> prefix ''~'' p"

definition is_glob :: "string \<Rightarrow> bool" where
  "is_glob p \<longleftrightarrow> \<not> is_regex p \<and> has_wildcard p"

definition is_exact :: "string \<Rightarrow> bool" where
  "is_exact p \<longleftrightarrow> \<not> is_regex p \<and> \<not> has_wildcard p"

lemmas pattern_kinds = is_regex_def is_glob_def is_exact_def

lemma scan_patterns_Inr:
  "scan_patterns M ps (gs, rs, es) = Inr (gs', rs', es') \<longleftrightarrow>
     (\<exists>globs. map (glob_new M) (filter is_glob ps) = map Inr globs \<and> gs' = gs @ globs) \<and>
     rs' = rs @ map (drop 1) (filter is_regex ps) \<and>
     es' = es \<union> set (filter is_exact ps)"
proof (induction ps arbitrary: gs rs es)
  case Nil
  then show ?case by auto
next
  case (Cons p ps)
  consider (regex) "is_regex p" | (glob) "is_glob p" | (exact) "is_exact p"
    by (auto simp: pattern_kinds)
  then show ?case
  proof cases
    case regex
    then show ?thesis using Cons.IH by (auto simp: pattern_kinds)
  next
    case glob
    then show ?thesis using Cons.IH
      by (cases "glob_new M p") (auto simp: pattern_kinds Cons_eq_map_conv)
  next
    case exact
    then show ?thesis using Cons.IH by (auto simp: pattern_kinds)
  qed
qed

lemma domain_filter_new_Inr:
  assumes "domain_filter_new M ps = Inr f"
  obtains globs where "map (glob_new M) (filter is_glob ps) = map Inr globs"
    and "exact_matches f = set (filter is_exact ps)"
    and "glob_set f = None \<and> globs = [] \<or>
         (\<exists>s. glob_set f = Some s \<and> globs \<noteq> [] \<and> globset_build M globs = Inr s)"
    and "regex_set f = None \<and> filter is_regex ps = [] \<or>
         (\<exists>s. regex_set f = Some s \<and> filter is_regex ps \<noteq> [] \<and>
              regexset_new M (map (drop 1) (filter is_regex ps)) = Inr s)"
proof -
  from assms obtain gs rs es where scan: "scan_patterns M ps ([], [], {}) = Inr (gs, rs, es)"
    by (auto simp: domain_filter_new_def split: sum.splits)
  with assms show thesis
    by (intro that [of gs]) (auto simp: domain_filter_new_def scan_patterns_Inr
        split: sum.splits if_splits)
qed

section \<open>The specification\<close>

text \<open>
  As the comment on \<open>DomainFilter::new\<close> has it: a pattern that starts with \<open>~\<close> is a regular
  expression, every other one is a glob.  \<open>glob_accepts\<close> and \<open>regex_accepts\<close> are the matching
  relations of one compiled glob and of one regular expression.
\<close>

definition pattern_accepts ::
  "('glob, 'gset, 'rset) matchers \<Rightarrow> ('glob \<Rightarrow> string \<Rightarrow> bool) \<Rightarrow> (string \<Rightarrow> string \<Rightarrow> bool)
   \<Rightarrow> string \<Rightarrow> string \<Rightarrow> bool"
where
  "pattern_accepts M glob_accepts regex_accepts p d \<longleftrightarrow>
     (if is_regex p then regex_accepts (drop 1 p) d else (\<exists>g. glob_new M p = Inr g \<and> glob_accepts g d))"

text \<open>
  The code differs from the comment for a pattern without \<open>*\<close> and \<open>?\<close> that has other characters
  with a meaning in a glob: a class, alternatives, an escape.
\<close>

definition literal_pattern :: "string \<Rightarrow> bool" where
  "literal_pattern p \<longleftrightarrow> set p \<inter> set (''*?[]{},!'' @ [CHR 0x5C]) = {}"

definition as_commented :: "string \<Rightarrow> bool" where
  "as_commented p \<longleftrightarrow> is_regex p \<or> has_wildcard p \<or> literal_pattern p"

text \<open>
  What the crates document: the compiled sets are unions of their members, and a glob without
  special characters matches itself.
\<close>

locale pattern_sets =
  fixes M :: "('glob, 'gset, 'rset) matchers"
    and glob_accepts :: "'glob \<Rightarrow> string \<Rightarrow> bool"
    and regex_accepts :: "string \<Rightarrow> string \<Rightarrow> bool"
  assumes globset: "globset_build M globs = Inr gs \<Longrightarrow>
      globset_is_match M gs d \<longleftrightarrow> (\<exists>g \<in> set globs. glob_accepts g d)"
    and regexset: "regexset_new M regexes = Inr rs \<Longrightarrow>
      regexset_is_match M rs d \<longleftrightarrow> (\<exists>r \<in> set regexes. regex_accepts r d)"
    and literal_glob: "literal_pattern p \<Longrightarrow> \<exists>g. glob_new M p = Inr g \<and> (\<forall>d. glob_accepts g d \<longleftrightarrow> d = p)"
begin

lemma globs_accept:
  assumes "map (glob_new M) (filter is_glob ps) = map Inr globs"
  shows "(\<exists>g \<in> set globs. glob_accepts g d) \<longleftrightarrow>
    (\<exists>p \<in> set ps. is_glob p \<and> (\<exists>g. glob_new M p = Inr g \<and> glob_accepts g d))"
proof -
  have "set (map (glob_new M) (filter is_glob ps)) = set (map Inr globs)"
    by (simp only: assms)
  then have eq: "glob_new M ` {p \<in> set ps. is_glob p} = Inr ` set globs"
    by simp
  show ?thesis
  proof
    assume "\<exists>g \<in> set globs. glob_accepts g d"
    then obtain g where "Inr g \<in> glob_new M ` {p \<in> set ps. is_glob p}" "glob_accepts g d"
      using eq by auto
    then show "\<exists>p \<in> set ps. is_glob p \<and> (\<exists>g. glob_new M p = Inr g \<and> glob_accepts g d)"
      by force
  next
    assume "\<exists>p \<in> set ps. is_glob p \<and> (\<exists>g. glob_new M p = Inr g \<and> glob_accepts g d)"
    then obtain p g where p: "p \<in> set ps" "is_glob p" "glob_new M p = Inr g" "glob_accepts g d"
      by auto
    then have "Inr g \<in> glob_new M ` {p \<in> set ps. is_glob p}"
      by force
    with eq p(4) show "\<exists>g \<in> set globs. glob_accepts g d" by auto
  qed
qed

lemma filter_matches_kinds:
  assumes "domain_filter_new M ps = Inr f"
  shows "filter_matches M f d \<longleftrightarrow> (\<exists>p \<in> set ps.
    if is_regex p then regex_accepts (drop 1 p) d
    else if has_wildcard p then (\<exists>g. glob_new M p = Inr g \<and> glob_accepts g d)
    else p = d)"
proof -
  obtain globs where g: "map (glob_new M) (filter is_glob ps) = map Inr globs"
    and e: "exact_matches f = set (filter is_exact ps)"
    and gs: "glob_set f = None \<and> globs = [] \<or>
         (\<exists>s. glob_set f = Some s \<and> globs \<noteq> [] \<and> globset_build M globs = Inr s)"
    and rs: "regex_set f = None \<and> filter is_regex ps = [] \<or>
         (\<exists>s. regex_set f = Some s \<and> filter is_regex ps \<noteq> [] \<and>
              regexset_new M (map (drop 1) (filter is_regex ps)) = Inr s)"
    using assms by (rule domain_filter_new_Inr)
  have "(case glob_set f of Some s \<Rightarrow> globset_is_match M s d | None \<Rightarrow> False) \<longleftrightarrow>
      (\<exists>g \<in> set globs. glob_accepts g d)"
    using gs by (auto simp: globset)
  moreover have "(case regex_set f of Some s \<Rightarrow> regexset_is_match M s d | None \<Rightarrow> False) \<longleftrightarrow>
      (\<exists>p \<in> set ps. is_regex p \<and> regex_accepts (drop 1 p) d)"
  proof (cases "regex_set f")
    case None
    with rs have "filter is_regex ps = []" by simp
    with None show ?thesis by (auto simp: filter_empty_conv)
  next
    case (Some s)
    with rs have "regexset_new M (map (drop 1) (filter is_regex ps)) = Inr s" by simp
    with Some show ?thesis by (auto simp: regexset)
  qed
  ultimately show ?thesis
    by (auto simp: filter_matches_def e globs_accept [OF g] is_exact_def is_glob_def)
qed

lemma filter_matches_iff:
  assumes "domain_filter_new M ps = Inr f" "\<forall>p \<in> set ps. as_commented p"
  shows "filter_matches M f d \<longleftrightarrow> (\<exists>p \<in> set ps. pattern_accepts M glob_accepts regex_accepts p d)"
proof -
  have "(if is_regex p then regex_accepts (drop 1 p) d
      else if has_wildcard p then (\<exists>g. glob_new M p = Inr g \<and> glob_accepts g d)
      else p = d) = pattern_accepts M glob_accepts regex_accepts p d" if "p \<in> set ps" for p
    using assms(2) that literal_glob [of p] by (auto simp: as_commented_def pattern_accepts_def)
  then show ?thesis unfolding filter_matches_kinds [OF assms(1)] by (intro bex_cong) simp_all
qed

lemma filter_is_empty_iff:
  assumes "domain_filter_new M ps = Inr f"
  shows "filter_is_empty f \<longleftrightarrow> ps = []"
  using assms
proof (rule domain_filter_new_Inr)
  fix globs
  assume g: "map (glob_new M) (filter is_glob ps) = map Inr globs"
    and e: "exact_matches f = set (filter is_exact ps)"
    and gs: "glob_set f = None \<and> globs = [] \<or>
         (\<exists>s. glob_set f = Some s \<and> globs \<noteq> [] \<and> globset_build M globs = Inr s)"
    and rs: "regex_set f = None \<and> filter is_regex ps = [] \<or>
         (\<exists>s. regex_set f = Some s \<and> filter is_regex ps \<noteq> [] \<and>
              regexset_new M (map (drop 1) (filter is_regex ps)) = Inr s)"
  have "glob_set f = None \<longleftrightarrow> filter is_glob ps = []"
    using g gs by auto
  moreover have "regex_set f = None \<longleftrightarrow> filter is_regex ps = []"
    using rs by auto
  ultimately have "filter_is_empty f \<longleftrightarrow>
      (\<forall>p \<in> set ps. \<not> is_exact p) \<and> (\<forall>p \<in> set ps. \<not> is_glob p) \<and> (\<forall>p \<in> set ps. \<not> is_regex p)"
    by (auto simp: filter_is_empty_def e filter_empty_conv)
  also have "\<dots> \<longleftrightarrow> ps = []"
    by (cases ps) (auto simp: pattern_kinds)
  finally show ?thesis .
qed

end

text \<open>What the code does with such a pattern: it is a name, and matches nothing but itself.\<close>

lemma exact_pattern_is_a_name:
  assumes "domain_filter_new M [p] = Inr f" "is_exact p"
  shows "filter_matches M f d \<longleftrightarrow> d = p"
  using assms(1)
proof (rule domain_filter_new_Inr)
  fix globs
  assume "exact_matches f = set (filter is_exact [p])"
    "glob_set f = None \<and> globs = [] \<or> (\<exists>s. glob_set f = Some s \<and> globs \<noteq> [] \<and> globset_build M globs = Inr s)"
    "regex_set f = None \<and> filter is_regex [p] = [] \<or>
         (\<exists>s. regex_set f = Some s \<and> filter is_regex [p] \<noteq> [] \<and>
              regexset_new M (map (drop 1) (filter is_regex [p])) = Inr s)"
    "map (glob_new M) (filter is_glob [p]) = map Inr globs"
  with assms(2) show ?thesis by (auto simp: filter_matches_def is_exact_def is_glob_def)
qed

lemma bracket_patterns_are_names:
  "domain_filter_new M [''[ab].com''] = Inr f \<Longrightarrow> filter_matches M f d \<longleftrightarrow> d = ''[ab].com''"
  "domain_filter_new M [''{a,b}.com''] = Inr f \<Longrightarrow> filter_matches M f d \<longleftrightarrow> d = ''{a,b}.com''"
  by (simp_all add: exact_pattern_is_a_name is_exact_def is_regex_def has_wildcard_def)

end
