(* ===== verification/Acl.thy ===== *)
theory Acl
  imports Acl_Auth Acl_Domain
begin

text \<open>
  \<open>src/acl/mod.rs\<close>, \<open>src/acl/rule.rs\<close> and \<open>src/acl/ip_filter.rs\<close>: the access controller.
  It is an ordered list of rules, each a conjunction of optional conditions, and a default
  action; the first matching rule decides.  The \<open>ipnet\<close> crate (parsing a network and
  membership) and \<open>str::to_uppercase\<close> are fields of the record \<open>acl_deps\<close>, with the pattern
  matchers.
\<close>

record ('net, 'glob, 'gset, 'rset) acl_deps =
  pats :: "('glob, 'gset, 'rset) matchers"
  parse_net :: "string \<Rightarrow> string + 'net"
  net_contains :: "'net \<Rightarrow> ip_addr \<Rightarrow> bool"
  to_uppercase :: "string \<Rightarrow> string"

section \<open>Rules\<close>

datatype acl_action = Allow | Deny | Authenticate

record ('net, 'gset, 'rset) acl_rule =
  action :: acl_action
  src_ip :: "'net list option"
  dst_domain :: "('gset, 'rset) domain_filter option"
  http_methods :: "string set option"
  auth_users :: "user_credential list option"

record ('net, 'gset, 'rset) access_controller =
  default_action :: acl_action
  rules :: "('net, 'gset, 'rset) acl_rule list"

section \<open>Building from the configuration\<close>

fun action_of :: "acl_action_config \<Rightarrow> acl_action" where
  "action_of Cfg_Allow = Allow"
| "action_of Cfg_Deny = Deny"
| "action_of Cfg_Authenticate = Authenticate"

definition parse_cidr :: "('net, 'glob, 'gset, 'rset) acl_deps \<Rightarrow> string \<Rightarrow> string + 'net" where
  "parse_cidr D ip_str =
     map_err (\<lambda>e. ''Invalid CIDR '' @ [CHR 0x27] @ ip_str @ [CHR 0x27] @ '': '' @ e)
       (parse_net D ip_str)"

text \<open>A fallible computation under an \<open>Option\<close>, as \<open>if let Some(x) = o { Some(f(x)?) }\<close>.\<close>

definition traverse_option :: "('a \<Rightarrow> 'e + 'b) \<Rightarrow> 'a option \<Rightarrow> 'e + 'b option" where
  "traverse_option f x =
     (case x of
        None \<Rightarrow> Inr None
      | Some y \<Rightarrow> (case f y of Inl e \<Rightarrow> Inl e | Inr z \<Rightarrow> Inr (Some z)))"

definition rule_of_config ::
  "('net, 'glob, 'gset, 'rset) acl_deps \<Rightarrow> acl_rule_config
   \<Rightarrow> string + ('net, 'gset, 'rset) acl_rule"
where
  "rule_of_config D cfg =
     (case traverse_option (traverse (parse_cidr D)) (rule_src_ip cfg) of
        Inl e \<Rightarrow> Inl e
      | Inr ips \<Rightarrow>
          (case traverse_option (domain_filter_new (pats D)) (rule_dst_domain cfg) of
             Inl e \<Rightarrow> Inl e
           | Inr dfs \<Rightarrow>
               Inr \<lparr>action = action_of (rule_action cfg), src_ip = ips, dst_domain = dfs,
                 http_methods = map_option (\<lambda>ms. to_uppercase D ` set ms) (rule_http_method cfg),
                 auth_users =
                   (case rule_auth cfg of
                      Some a \<Rightarrow> if auth_type a = ''basic'' then auth_cfg_users a else None
                    | None \<Rightarrow> None)\<rparr>))"

definition from_config ::
  "('net, 'glob, 'gset, 'rset) acl_deps \<Rightarrow> access_control_config
   \<Rightarrow> string + ('net, 'gset, 'rset) access_controller"
where
  "from_config D config =
     (case traverse (rule_of_config D) (cfg_rules config) of
        Inl e \<Rightarrow> Inl e
      | Inr rs \<Rightarrow> Inr \<lparr>default_action = action_of (cfg_default_action config), rules = rs\<rparr>)"

section \<open>Matching one rule\<close>

definition ip_matches ::
  "('net, 'glob, 'gset, 'rset) acl_deps \<Rightarrow> ip_addr \<Rightarrow> 'net list \<Rightarrow> bool"
where
  "ip_matches D addr networks = list_ex (\<lambda>net. net_contains D net addr) networks"

definition rule_matches_ip ::
  "('net, 'glob, 'gset, 'rset) acl_deps \<Rightarrow> ('net, 'gset, 'rset) acl_rule \<Rightarrow> ip_addr \<Rightarrow> bool"
where
  "rule_matches_ip D r ip =
     (case src_ip r of Some networks \<Rightarrow> ip_matches D ip networks | None \<Rightarrow> True)"

definition rule_matches_domain ::
  "('net, 'glob, 'gset, 'rset) acl_deps \<Rightarrow> ('net, 'gset, 'rset) acl_rule \<Rightarrow> string option \<Rightarrow> bool"
where
  "rule_matches_domain D r dst =
     (case (dst_domain r, dst) of
        (Some f, Some d) \<Rightarrow> filter_matches (pats D) f d
      | (Some _, None) \<Rightarrow> False
      | (None, _) \<Rightarrow> True)"

definition rule_matches_method ::
  "('net, 'glob, 'gset, 'rset) acl_deps \<Rightarrow> ('net, 'gset, 'rset) acl_rule \<Rightarrow> string option \<Rightarrow> bool"
where
  "rule_matches_method D r meth =
     (case (http_methods r, meth) of
        (Some ms, Some m) \<Rightarrow> to_uppercase D m \<in> ms
      | (Some _, None) \<Rightarrow> False
      | (None, _) \<Rightarrow> True)"

definition rule_matches_full ::
  "('net, 'glob, 'gset, 'rset) acl_deps \<Rightarrow> ('net, 'gset, 'rset) acl_rule
   \<Rightarrow> ip_addr \<Rightarrow> string option \<Rightarrow> string option \<Rightarrow> bool"
where
  "rule_matches_full D r ip dst meth =
     (if \<not> rule_matches_ip D r ip then False
      else if \<not> rule_matches_domain D r dst then False
      else if \<not> rule_matches_method D r meth then False
      else True)"

definition rule_matches ::
  "('net, 'glob, 'gset, 'rset) acl_deps \<Rightarrow> ('net, 'gset, 'rset) acl_rule
   \<Rightarrow> ip_addr \<Rightarrow> string option \<Rightarrow> bool"
where
  "rule_matches D r ip dst =
     (if \<not> rule_matches_ip D r ip then False
      else if \<not> rule_matches_domain D r dst then False
      else True)"

section \<open>Decisions\<close>

text \<open>The loop of \<open>check_request\<close>, returning the default action after the last rule.\<close>

fun check_rules ::
  "('net, 'glob, 'gset, 'rset) acl_deps \<Rightarrow> acl_action \<Rightarrow> ('net, 'gset, 'rset) acl_rule list
   \<Rightarrow> ip_addr \<Rightarrow> string option \<Rightarrow> string option \<Rightarrow> acl_action"
where
  "check_rules D dflt [] ip dst meth = dflt"
| "check_rules D dflt (r # rs) ip dst meth =
     (if rule_matches_full D r ip dst meth then action r else check_rules D dflt rs ip dst meth)"

definition check_request ::
  "('net, 'glob, 'gset, 'rset) acl_deps \<Rightarrow> ('net, 'gset, 'rset) access_controller
   \<Rightarrow> ip_addr \<Rightarrow> string option \<Rightarrow> string option \<Rightarrow> acl_action"
where
  "check_request D ac ip dst meth = check_rules D (default_action ac) (rules ac) ip dst meth"

definition check_access ::
  "('net, 'glob, 'gset, 'rset) acl_deps \<Rightarrow> ('net, 'gset, 'rset) access_controller
   \<Rightarrow> ip_addr \<Rightarrow> string option \<Rightarrow> acl_action"
where
  "check_access D ac ip dst = check_request D ac ip dst None"

definition check_ip ::
  "('net, 'glob, 'gset, 'rset) acl_deps \<Rightarrow> ('net, 'gset, 'rset) access_controller
   \<Rightarrow> ip_addr \<Rightarrow> acl_action"
where
  "check_ip D ac ip = check_access D ac ip None"

text \<open>The loop of \<open>get_auth_users_for_rule\<close>.\<close>

fun auth_users_rules ::
  "('net, 'glob, 'gset, 'rset) acl_deps \<Rightarrow> acl_action \<Rightarrow> ('net, 'gset, 'rset) acl_rule list
   \<Rightarrow> ip_addr \<Rightarrow> string option \<Rightarrow> user_credential list option"
where
  "auth_users_rules D dflt [] ip dst = (if dflt = Authenticate then Some [] else None)"
| "auth_users_rules D dflt (r # rs) ip dst =
     (if rule_matches D r ip dst then
        (if action r = Authenticate then auth_users r else None)
      else auth_users_rules D dflt rs ip dst)"

definition get_auth_users_for_rule ::
  "('net, 'glob, 'gset, 'rset) acl_deps \<Rightarrow> ('net, 'gset, 'rset) access_controller
   \<Rightarrow> ip_addr \<Rightarrow> string option \<Rightarrow> user_credential list option"
where
  "get_auth_users_for_rule D ac ip dst =
     auth_users_rules D (default_action ac) (rules ac) ip dst"

section \<open>First-match loops\<close>

text \<open>
  The contract shared by the loops over the rules: an empty list gives the default, and the
  first rule that applies decides.
\<close>

locale first_match =
  fixes applies :: "'r \<Rightarrow> bool"
    and scan :: "'r list \<Rightarrow> 'a"
    and hit :: "'r \<Rightarrow> 'a"
    and miss :: 'a
  assumes scan_Nil: "scan [] = miss"
    and scan_Cons: "scan (r # rs) = (if applies r then hit r else scan rs)"
begin

lemma scan_find: "scan rs = (case List.find applies rs of None \<Rightarrow> miss | Some r \<Rightarrow> hit r)"
  by (induction rs) (simp_all add: scan_Nil scan_Cons)

lemma scan_skip: "(\<forall>u \<in> set us. \<not> applies u) \<Longrightarrow> scan (us @ rs) = scan rs"
  by (induction us) (simp_all add: scan_Cons)

lemma scan_hit: "(\<forall>u \<in> set us. \<not> applies u) \<Longrightarrow> applies r \<Longrightarrow> scan (us @ r # rs) = hit r"
  by (simp add: scan_skip scan_Cons)

lemma scan_miss: "(\<forall>u \<in> set us. \<not> applies u) \<Longrightarrow> scan us = miss"
  using scan_skip [of us "[]"] by (simp add: scan_Nil)

text \<open>A rule after one that applies whenever it does never decides.\<close>

lemma scan_shadowed:
  assumes "applies s \<Longrightarrow> applies r"
  shows "scan (us @ r # vs @ s # ws) = scan (us @ r # vs @ ws)"
proof (induction us)
  case Nil
  have "scan (vs @ s # ws) = scan (vs @ ws)" if "\<not> applies s"
    using that by (induction vs) (simp_all add: scan_Cons)
  with assms show ?case by (auto simp: scan_Cons)
next
  case (Cons u us)
  then show ?case by (simp add: scan_Cons)
qed

lemma scan_cases:
  obtains (hit) us r vs where "rs = us @ r # vs" "\<forall>u \<in> set us. \<not> applies u" "applies r"
      "scan rs = hit r"
  | (miss) "\<forall>u \<in> set rs. \<not> applies u" "scan rs = miss"
proof (cases "\<exists>r \<in> set rs. applies r")
  case True
  then obtain us r vs where "rs = us @ r # vs" "applies r" "\<forall>u \<in> set us. \<not> applies u"
    using split_list_first_prop [of rs applies] by metis
  then show thesis using hit scan_hit by blast
next
  case False
  then show thesis using miss scan_miss by blast
qed

end

interpretation check: first_match
  "\<lambda>r. rule_matches_full D r ip dst meth" "\<lambda>rs. check_rules D dflt rs ip dst meth" action dflt
  for D dflt ip dst meth
  by unfold_locales simp_all

interpretation users: first_match
  "\<lambda>r. rule_matches D r ip dst" "\<lambda>rs. auth_users_rules D dflt rs ip dst"
  "\<lambda>r. if action r = Authenticate then auth_users r else None"
  "if dflt = Authenticate then Some [] else None"
  for D dflt ip dst
  by unfold_locales simp_all

section \<open>Facts about the conditions\<close>

lemma rule_matches_full_iff:
  "rule_matches_full D r ip dst meth \<longleftrightarrow>
     rule_matches_ip D r ip \<and> rule_matches_domain D r dst \<and> rule_matches_method D r meth"
  by (simp add: rule_matches_full_def)

lemma rule_matches_iff:
  "rule_matches D r ip dst \<longleftrightarrow> rule_matches_ip D r ip \<and> rule_matches_domain D r dst"
  by (simp add: rule_matches_def)

lemma rule_matches_full_imp: "rule_matches_full D r ip dst meth \<Longrightarrow> rule_matches D r ip dst"
  by (simp add: rule_matches_full_iff rule_matches_iff)

lemma rule_matches_no_method:
  "http_methods r = None \<Longrightarrow> rule_matches_full D r ip dst meth \<longleftrightarrow> rule_matches D r ip dst"
  by (simp add: rule_matches_full_iff rule_matches_iff rule_matches_method_def)

lemma ip_matches_iff: "ip_matches D ip nets \<longleftrightarrow> (\<exists>n \<in> set nets. net_contains D n ip)"
  by (simp add: ip_matches_def list_ex_iff)

text \<open>A rule without any condition matches every request.\<close>

lemma unconditional_matches:
  "src_ip r = None \<Longrightarrow> dst_domain r = None \<Longrightarrow> http_methods r = None \<Longrightarrow>
   rule_matches_full D r ip dst meth"
  by (simp add: rule_matches_full_iff rule_matches_ip_def rule_matches_domain_def
      rule_matches_method_def)

section \<open>Facts about building\<close>

lemma traverse_option_Inr:
  "traverse_option f x = Inr y \<longleftrightarrow>
     (x = None \<and> y = None) \<or> (\<exists>a b. x = Some a \<and> y = Some b \<and> f a = Inr b)"
  by (auto simp: traverse_option_def split: option.splits sum.splits)

lemma rule_of_config_Inr:
  assumes "rule_of_config D cfg = Inr r"
  shows "action r = action_of (rule_action cfg)"
    "src_ip r = None \<longleftrightarrow> rule_src_ip cfg = None"
    "dst_domain r = None \<longleftrightarrow> rule_dst_domain cfg = None"
    "http_methods r = map_option (\<lambda>ms. to_uppercase D ` set ms) (rule_http_method cfg)"
  using assms
  by (auto simp: rule_of_config_def traverse_option_Inr split: sum.splits)

lemma from_config_Inr:
  "from_config D config = Inr ac \<longleftrightarrow>
     default_action ac = action_of (cfg_default_action config) \<and>
     map (rule_of_config D) (cfg_rules config) = map Inr (rules ac)"
  by (cases "traverse (rule_of_config D) (cfg_rules config)"; cases ac)
    (auto simp: from_config_def traverse_Inr [symmetric])

lemma rule_of_config_dst_port:
  "rule_of_config D (cfg\<lparr>rule_dst_port := ports\<rparr>) = rule_of_config D cfg"
  by (simp add: rule_of_config_def split: sum.split)

end
