(* ===== verification/Acl_Ref.thy ===== *)
theory Acl_Ref
  imports Acl
begin

text \<open>
  A reference provider for the libraries the access controller is built on, so that its
  interfaces have an instance and concrete policies can be evaluated: networks in CIDR
  notation, globs of \<open>*\<close> and \<open>?\<close>, and regular expressions that are literal texts (an
  unanchored search, as \<open>RegexSet::is_match\<close> does).  Patterns outside this fragment are
  rejected with an error, as the libraries reject a malformed one.
\<close>

section \<open>Networks\<close>

datatype cidr = Cidr ip_addr nat

definition byte_bits :: "u8 \<Rightarrow> bool list" where
  "byte_bits b = map (\<lambda>i. bit b (7 - i)) [0..<8]"

definition addr_bits :: "bytes \<Rightarrow> bool list" where
  "addr_bits bs = concat (map byte_bits bs)"

fun cidr_contains :: "cidr \<Rightarrow> ip_addr \<Rightarrow> bool" where
  "cidr_contains (Cidr (V4 base) n) (V4 a) = (take n (addr_bits base) = take n (addr_bits a))"
| "cidr_contains (Cidr (V6 base) n) (V6 a) = (take n (addr_bits base) = take n (addr_bits a))"
| "cidr_contains _ _ = False"

definition cidr_parse :: "string \<Rightarrow> string + cidr" where
  "cidr_parse s =
     (case find_char (CHR ''/'') s of
        None \<Rightarrow> Inl ''invalid IP address syntax''
      | Some i \<Rightarrow>
          (case (parse_ipv4 (take i s), parse_unsigned 32 (drop (Suc i) s)) of
             (Some a, Some n) \<Rightarrow> Inr (Cidr (V4 a) n)
           | _ \<Rightarrow>
             (case (parse_ipv6 (take i s), parse_unsigned 128 (drop (Suc i) s)) of
                (Some a, Some n) \<Rightarrow> Inr (Cidr (V6 a) n)
              | _ \<Rightarrow> Inl ''invalid IP address syntax'')))"

section \<open>Patterns\<close>

fun glob_match :: "string \<Rightarrow> string \<Rightarrow> bool" where
  "glob_match [] s = (s = [])"
| "glob_match (p # ps) s =
     (if p = CHR ''*'' then
        glob_match ps s \<or> (case s of [] \<Rightarrow> False | c # cs \<Rightarrow> glob_match (p # ps) cs)
      else (case s of [] \<Rightarrow> False | c # cs \<Rightarrow> (p = CHR ''?'' \<or> p = c) \<and> glob_match ps cs))"

fun occurs :: "string \<Rightarrow> string \<Rightarrow> bool" where
  "occurs p [] = (p = [])"
| "occurs p (c # cs) = (prefix p (c # cs) \<or> occurs p cs)"

definition plain_glob :: "string \<Rightarrow> bool" where
  "plain_glob p \<longleftrightarrow> set p \<inter> set ''[]{}'' = {}"

definition literal_regex :: "string \<Rightarrow> bool" where
  "literal_regex r \<longleftrightarrow> set r \<inter> set ''[](){}*+?.|^$'' = {}"

definition ref_matchers :: "(string, string list, string list) matchers" where
  "ref_matchers =
     \<lparr>glob_new = (\<lambda>p. if plain_glob p then Inr p else Inl ''unclosed character class''),
      globset_build = Inr,
      globset_is_match = (\<lambda>gs d. list_ex (\<lambda>g. glob_match g d) gs),
      regexset_new = (\<lambda>rs. if list_all literal_regex rs then Inr rs else Inl ''regex parse error''),
      regexset_is_match = (\<lambda>rs d. list_ex (\<lambda>r. occurs r d) rs)\<rparr>"

definition ref_deps :: "(cidr, string, string list, string list) acl_deps" where
  "ref_deps =
     \<lparr>pats = ref_matchers, parse_net = cidr_parse, net_contains = cidr_contains,
      to_uppercase = ascii_upper\<rparr>"

lemma glob_match_literal: "CHR ''*'' \<notin> set p \<Longrightarrow> CHR ''?'' \<notin> set p \<Longrightarrow> glob_match p d \<longleftrightarrow> d = p"
proof (induction p arbitrary: d)
  case (Cons c p)
  then show ?case by (cases d) auto
qed simp

lemma literal_pattern_chars:
  assumes "literal_pattern p"
  shows "CHR ''*'' \<notin> set p" "CHR ''?'' \<notin> set p" "plain_glob p"
  using assms by (auto simp: literal_pattern_def plain_glob_def)

lemma ref_glob_new_literal:
  "literal_pattern p \<Longrightarrow> glob_new ref_matchers p = Inr p \<and> (\<forall>d. glob_match p d \<longleftrightarrow> d = p)"
  by (simp add: ref_matchers_def literal_pattern_chars glob_match_literal)

interpretation ref_patterns: pattern_sets ref_matchers glob_match occurs
proof
  show "\<exists>g. glob_new ref_matchers p = Inr g \<and> (\<forall>d. glob_match g d \<longleftrightarrow> d = p)" if "literal_pattern p" for p
    using ref_glob_new_literal [OF that] by blast
qed (auto simp: ref_matchers_def list_ex_iff split: if_splits)

lemmas ref_acl_eval =
  ref_deps_def ref_matchers_def from_config_def rule_of_config_def traverse_option_def
  parse_cidr_def cidr_parse_def map_err_def domain_filter_new_def has_wildcard_def plain_glob_def
  literal_regex_def check_request_def check_access_def check_ip_def get_auth_users_for_rule_def
  rule_matches_def rule_matches_full_def rule_matches_ip_def rule_matches_domain_def
  rule_matches_method_def ip_matches_def filter_matches_def

end
