(* ===== verification/Acl_Properties.thy ===== *)
theory Acl_Properties
  imports Acl_Ref
begin

text \<open>
  The properties of the access controller: the decision of a controller built from a
  configuration is the decision of the configuration read as an ordered policy; when
  building fails; which settings have no influence; and how \<open>get_auth_users_for_rule\<close>
  relates to the decision.
\<close>

section \<open>The policy of a configuration\<close>

text \<open>The reference semantics, on the configuration itself and without compiled sets.\<close>

definition config_rule_applies ::
  "('net, 'glob, 'gset, 'rset) acl_deps \<Rightarrow> ('glob \<Rightarrow> string \<Rightarrow> bool) \<Rightarrow> (string \<Rightarrow> string \<Rightarrow> bool)
   \<Rightarrow> acl_rule_config \<Rightarrow> ip_addr \<Rightarrow> string option \<Rightarrow> string option \<Rightarrow> bool"
where
  "config_rule_applies D G R cfg ip dst meth \<longleftrightarrow>
     (\<forall>nets. rule_src_ip cfg = Some nets \<longrightarrow>
        (\<exists>s \<in> set nets. \<exists>n. parse_net D s = Inr n \<and> net_contains D n ip)) \<and>
     (\<forall>ps. rule_dst_domain cfg = Some ps \<longrightarrow>
        (\<exists>d. dst = Some d \<and> (\<exists>p \<in> set ps. pattern_accepts (pats D) G R p d))) \<and>
     (\<forall>ms. rule_http_method cfg = Some ms \<longrightarrow>
        (\<exists>m. meth = Some m \<and> (\<exists>k \<in> set ms. to_uppercase D k = to_uppercase D m)))"

definition config_decision ::
  "('net, 'glob, 'gset, 'rset) acl_deps \<Rightarrow> ('glob \<Rightarrow> string \<Rightarrow> bool) \<Rightarrow> (string \<Rightarrow> string \<Rightarrow> bool)
   \<Rightarrow> access_control_config \<Rightarrow> ip_addr \<Rightarrow> string option \<Rightarrow> string option \<Rightarrow> acl_action"
where
  "config_decision D G R config ip dst meth =
     action_of (case List.find (\<lambda>r. config_rule_applies D G R r ip dst meth) (cfg_rules config) of
       Some r \<Rightarrow> rule_action r | None \<Rightarrow> cfg_default_action config)"

text \<open>Every domain pattern of the configuration is one that the code treats as its comment says.\<close>

definition patterns_as_commented :: "acl_rule_config list \<Rightarrow> bool" where
  "patterns_as_commented cfgs \<longleftrightarrow>
     (\<forall>cfg \<in> set cfgs. \<forall>ps. rule_dst_domain cfg = Some ps \<longrightarrow> (\<forall>p \<in> set ps. as_commented p))"

lemma parse_cidr_Inr: "parse_cidr D s = Inr n \<longleftrightarrow> parse_net D s = Inr n"
  by (simp add: parse_cidr_def map_err_def split: sum.split)

lemma traverse_parse_cidr:
  assumes "traverse (parse_cidr D) ss = Inr nets"
  shows "ip_matches D ip nets \<longleftrightarrow> (\<exists>s \<in> set ss. \<exists>n. parse_net D s = Inr n \<and> net_contains D n ip)"
  using assms
proof (induction ss arbitrary: nets)
  case Nil
  then show ?case by (simp add: ip_matches_iff)
next
  case (Cons s ss)
  then obtain n ns where "nets = n # ns" "parse_net D s = Inr n"
    "traverse (parse_cidr D) ss = Inr ns"
    unfolding traverse_Cons_Inr parse_cidr_Inr by auto
  with Cons.IH [of ns] show ?case by (auto simp: ip_matches_iff)
qed

lemma rule_of_config_applies:
  assumes "pattern_sets (pats D) G R" and "rule_of_config D cfg = Inr r"
    and "\<forall>ps. rule_dst_domain cfg = Some ps \<longrightarrow> (\<forall>p \<in> set ps. as_commented p)"
  shows "rule_matches_full D r ip dst meth \<longleftrightarrow> config_rule_applies D G R cfg ip dst meth"
proof -
  from assms(2) have ip: "traverse_option (traverse (parse_cidr D)) (rule_src_ip cfg) = Inr (src_ip r)"
    and df: "traverse_option (domain_filter_new (pats D)) (rule_dst_domain cfg) = Inr (dst_domain r)"
    by (auto simp: rule_of_config_def split: sum.splits)
  have "rule_matches_ip D r ip \<longleftrightarrow> (\<forall>nets. rule_src_ip cfg = Some nets \<longrightarrow>
        (\<exists>s \<in> set nets. \<exists>n. parse_net D s = Inr n \<and> net_contains D n ip))"
    using ip by (auto simp: traverse_option_Inr rule_matches_ip_def traverse_parse_cidr)
  moreover have "rule_matches_domain D r dst \<longleftrightarrow> (\<forall>ps. rule_dst_domain cfg = Some ps \<longrightarrow>
        (\<exists>d. dst = Some d \<and> (\<exists>p \<in> set ps. pattern_accepts (pats D) G R p d)))"
    using df pattern_sets.filter_matches_iff [OF assms(1)] assms(3)
    by (auto simp: traverse_option_Inr rule_matches_domain_def split: option.split)
  moreover have "rule_matches_method D r meth \<longleftrightarrow> (\<forall>ms. rule_http_method cfg = Some ms \<longrightarrow>
        (\<exists>m. meth = Some m \<and> (\<exists>k \<in> set ms. to_uppercase D k = to_uppercase D m)))"
    using rule_of_config_Inr(4) [OF assms(2)]
    by (auto simp: rule_matches_method_def image_iff split: option.split) metis+
  ultimately show ?thesis by (simp add: rule_matches_full_iff config_rule_applies_def)
qed

lemma check_rules_of_config:
  assumes "pattern_sets (pats D) G R" and "traverse (rule_of_config D) cfgs = Inr rs"
    and "patterns_as_commented cfgs"
  shows "check_rules D (action_of dflt) rs ip dst meth =
    action_of (case List.find (\<lambda>r. config_rule_applies D G R r ip dst meth) cfgs of
       Some r \<Rightarrow> rule_action r | None \<Rightarrow> dflt)"
  using assms(2,3)
proof (induction cfgs arbitrary: rs)
  case Nil
  then show ?case by simp
next
  case (Cons c cs)
  then obtain r rs' where "rs = r # rs'" "rule_of_config D c = Inr r"
    "traverse (rule_of_config D) cs = Inr rs'"
    by (auto simp: traverse_Cons_Inr simp del: traverse.simps)
  moreover from Cons.prems(2) have "patterns_as_commented cs"
    "\<forall>ps. rule_dst_domain c = Some ps \<longrightarrow> (\<forall>p \<in> set ps. as_commented p)"
    by (simp_all add: patterns_as_commented_def)
  ultimately show ?case using Cons.IH rule_of_config_applies [OF assms(1)] rule_of_config_Inr(1) [of D c r]
    by (simp split: option.split)
qed
text \<open>Without method conditions both loops stop at the same rule.\<close>

lemma auth_users_rules_no_methods:
  assumes "\<forall>r \<in> set rs. http_methods r = None"
  shows "auth_users_rules D dflt rs ip dst =
    (if check_rules D dflt rs ip dst meth = Authenticate
     then (case List.find (\<lambda>r. rule_matches D r ip dst) rs of Some r \<Rightarrow> auth_users r | None \<Rightarrow> Some [])
     else None)"
  using assms by (induction rs) (auto simp: rule_matches_no_method)

lemma rule_of_config_unconditional:
  assumes "rule_of_config D cfg = Inr r"
    and "rule_src_ip cfg = None" "rule_dst_domain cfg = None" "rule_http_method cfg = None"
  shows "rule_matches_full D r ip dst meth"
  using rule_of_config_Inr(2-4) [OF assms(1)] assms(2-4) by (intro unconditional_matches) simp_all

lemma to_uppercase_method:
  assumes "agrees_on_ascii (to_uppercase D) ascii_upper" "is_ascii m"
  shows "rule_matches_full D r ip dst (Some (ascii_upper m)) = rule_matches_full D r ip dst (Some m)"
proof -
  have "to_uppercase D (ascii_upper m) = to_uppercase D m"
    using assms by (simp add: agrees_on_asciiD is_ascii_upper ascii_upper_idem)
  then show ?thesis by (simp add: rule_matches_full_iff rule_matches_method_def split: option.split)
qed

lemma check_rules_cong:
  "(\<And>r. r \<in> set rs \<Longrightarrow> rule_matches_full D r ip dst m = rule_matches_full D r ip dst n) \<Longrightarrow>
   check_rules D dflt rs ip dst m = check_rules D dflt rs ip dst n"
  by (induction rs) auto

section \<open>A sample policy\<close>

text \<open>
  A denied network, a permitted domain for some methods, a domain that asks for credentials, and
  a default.
\<close>

definition sample_rule :: acl_rule_config where
  "sample_rule = \<lparr>rule_action = Cfg_Deny, rule_src_ip = None, rule_dst_domain = None,
     rule_dst_port = None, rule_http_method = None, rule_auth = None\<rparr>"

definition sample_users :: "user_credential list" where
  "sample_users = [\<lparr>username = ''alice'', password = ''secret''\<rparr>]"

definition sample_config :: access_control_config where
  "sample_config =
     \<lparr>cfg_default_action = Cfg_Deny,
      cfg_rules =
        [sample_rule\<lparr>rule_src_ip := Some [''10.0.0.0/8'']\<rparr>,
         sample_rule\<lparr>rule_action := Cfg_Allow, rule_dst_domain := Some [''*.example.com'', ''~wiki''],
           rule_http_method := Some [''get'', ''HEAD'']\<rparr>,
         sample_rule\<lparr>rule_action := Cfg_Authenticate, rule_dst_domain := Some [''intra''],
           rule_auth := Some \<lparr>auth_type = ''basic'', auth_cfg_users = Some sample_users\<rparr>\<rparr>]\<rparr>"

definition sample_controller :: "(cidr, string list, string list) access_controller" where
  "sample_controller = projr (from_config ref_deps sample_config)"

definition sample_ip :: ip_addr where
  "sample_ip = V4 [192, 168, 1, 7]"

lemma sample_controller: "from_config ref_deps sample_config = Inr sample_controller"
proof -
  have "\<not> isl (from_config ref_deps sample_config)" by code_simp
  then show ?thesis by (simp add: sample_controller_def)
qed

lemma ref_patterns_deps: "pattern_sets (pats ref_deps) glob_match occurs"
  using ref_patterns.pattern_sets_axioms by (simp add: ref_deps_def)

section \<open>Properties\<close>

text \<open>
  C1: A controller that is built from a configuration takes the decision of the configuration
  read as an ordered policy: the first rule whose source networks, domain patterns and methods
  all accept the request gives the action, and without one the default action does.  A domain
  pattern is read as the comment in the code says: a regular expression if it starts with \<open>~\<close>,
  else a glob, and names are globs that match themselves.  The patterns without \<open>*\<close> and \<open>?\<close> are
  to have no other special character of a glob either: those the code takes for names, which
  the comment does not say.  \<open>pattern_sets\<close> is the documented behaviour of \<open>globset\<close> and \<open>regex\<close>.
\<close>

theorem acl_decision:
  assumes "pattern_sets (pats D) G R" and "from_config D config = Inr ac"
    and "patterns_as_commented (cfg_rules config)"
  shows "check_request D ac ip dst meth = config_decision D G R config ip dst meth"
proof -
  from assms(2) have "traverse (rule_of_config D) (cfg_rules config) = Inr (rules ac)"
    and "default_action ac = action_of (cfg_default_action config)"
    by (auto simp: from_config_def split: sum.splits)
  with assms(3) show ?thesis
    by (simp add: check_request_def config_decision_def check_rules_of_config [OF assms(1)])
qed

theorem acl_decision_witness:
  "check_request ref_deps sample_controller sample_ip (Some ''www.example.com'') (Some ''GET'')
     = config_decision ref_deps glob_match occurs sample_config sample_ip (Some ''www.example.com'') (Some ''GET'')
   \<and> check_request ref_deps sample_controller sample_ip (Some ''www.example.com'') (Some ''GET'') = Allow"
proof
  show "check_request ref_deps sample_controller sample_ip (Some ''www.example.com'') (Some ''GET'')
     = config_decision ref_deps glob_match occurs sample_config sample_ip (Some ''www.example.com'') (Some ''GET'')"
    by (rule acl_decision [OF ref_patterns_deps sample_controller])
      (simp add: patterns_as_commented_def sample_config_def sample_rule_def as_commented_def
        literal_pattern_def is_regex_def has_wildcard_def)
  show "check_request ref_deps sample_controller sample_ip (Some ''www.example.com'') (Some ''GET'') = Allow"
    by code_simp
qed

text \<open>
  Building a controller fails exactly when some rule of the configuration does, and the
  error is that of the first such rule in order.
\<close>

lemma acl_build_error:
  "from_config D config = Inl e \<longleftrightarrow>
     (\<exists>us r vs. cfg_rules config = us @ r # vs \<and> rule_of_config D r = Inl e \<and>
        (\<forall>u \<in> set us. \<exists>s. rule_of_config D u = Inr s))"
  unfolding traverse_Inl [symmetric] by (simp add: from_config_def split: sum.split)

lemma acl_build_error_witness:
  "from_config ref_deps (sample_config\<lparr>cfg_rules := [sample_rule, sample_rule\<lparr>rule_src_ip := Some [''10.0.0'']\<rparr>]\<rparr>)
     = Inl (''Invalid CIDR '' @ [CHR 0x27] @ ''10.0.0'' @ [CHR 0x27] @ '': invalid IP address syntax'')"
proof -
  let ?bad = "sample_rule\<lparr>rule_src_ip := Some [''10.0.0'']\<rparr>"
  have 1: "\<not> isl (rule_of_config ref_deps sample_rule)" by code_simp
  have 2: "rule_of_config ref_deps ?bad =
      Inl (''Invalid CIDR '' @ [CHR 0x27] @ ''10.0.0'' @ [CHR 0x27] @ '': invalid IP address syntax'')"
    by code_simp
  show ?thesis
    unfolding acl_build_error
    by (rule exI [of _ "[sample_rule]"], rule exI [of _ ?bad], rule exI [of _ "[]"])
      (use 1 2 in \<open>auto simp: isl_def split: sum.splits\<close>, metis isl_def sum.exhaust)
qed

text \<open>
  The \<open>dst_port\<close> conditions of a configuration have no influence on the controller: any
  change of them, in any rule, builds the same one.
\<close>

lemma acl_ignores_dst_port:
  "from_config D (config\<lparr>cfg_rules := map (\<lambda>r. r\<lparr>rule_dst_port := ports r\<rparr>) (cfg_rules config)\<rparr>)
     = from_config D config"
proof -
  have "traverse (rule_of_config D) (map (\<lambda>r. r\<lparr>rule_dst_port := ports r\<rparr>) (cfg_rules config)) =
      traverse (rule_of_config D) (cfg_rules config)"
    by (rule traverse_cong) (simp add: rule_of_config_dst_port)
  then show ?thesis by (simp add: from_config_def split: sum.split)
qed

text \<open>
  A rule that has port conditions only matches every request: no rule after it, and not the
  default action, ever decides.
\<close>

lemma acl_port_only_rule_is_final:
  assumes "from_config D config = Inr ac" and "cfg_rules config = us @ r # vs"
    and "rule_src_ip r = None" "rule_dst_domain r = None" "rule_http_method r = None"
  shows "\<exists>ac'. from_config D (config\<lparr>cfg_rules := us @ [r], cfg_default_action := any\<rparr>) = Inr ac' \<and>
    (\<forall>ip dst meth. check_request D ac ip dst meth = check_request D ac' ip dst meth)"
proof -
  from assms(1,2) have "map (rule_of_config D) (us @ r # vs) = map Inr (rules ac)"
    by (simp add: from_config_Inr)
  then obtain us1 r1 vs1 where 1: "rules ac = us1 @ r1 # vs1" "map (rule_of_config D) us = map Inr us1"
    "rule_of_config D r = Inr r1"
    by (auto simp: append_eq_map_conv Cons_eq_map_conv map_eq_append_conv map_eq_Cons_conv)
  let ?ac = "\<lparr>default_action = action_of any, rules = us1 @ [r1]\<rparr>"
  have "from_config D (config\<lparr>cfg_rules := us @ [r], cfg_default_action := any\<rparr>) = Inr ?ac"
    using 1 by (simp add: from_config_Inr)
  moreover have "rule_matches_full D r1 ip dst meth" for ip dst meth
    using 1(3) assms(3-5) by (rule rule_of_config_unconditional)
  then have "check_rules D d (us1 @ r1 # ws) ip dst meth = check_rules D d' (us1 @ [r1]) ip dst meth"
    for d d' ws ip dst meth by (induction us1) simp_all
  then have "\<forall>ip dst meth. check_request D ac ip dst meth = check_request D ?ac ip dst meth"
    by (simp add: check_request_def 1)
  ultimately show ?thesis by blast
qed

text \<open>A rule with a list of ports and nothing else, before another one.\<close>

definition port_rule :: acl_rule_config where
  "port_rule = sample_rule\<lparr>rule_dst_port := Some [''22'', ''3389'', ''5900'']\<rparr>"

definition port_config :: access_control_config where
  "port_config = sample_config\<lparr>cfg_default_action := Cfg_Allow,
     cfg_rules := cfg_rules sample_config @ [port_rule, sample_rule\<lparr>rule_action := Cfg_Allow\<rparr>]\<rparr>"

lemma acl_port_only_rule_is_final_witness:
  "\<exists>ac ac'. from_config ref_deps port_config = Inr ac \<and>
     from_config ref_deps (port_config\<lparr>cfg_rules := cfg_rules sample_config @ [port_rule],
       cfg_default_action := Cfg_Allow\<rparr>) = Inr ac' \<and>
     check_request ref_deps ac sample_ip (Some ''a.org'') (Some ''GET'') = Deny \<and>
     check_request ref_deps ac' sample_ip (Some ''a.org'') (Some ''GET'') = Deny"
proof -
  have "\<not> isl (from_config ref_deps port_config)" by code_simp
  then obtain ac where ac: "from_config ref_deps port_config = Inr ac"
    by (cases "from_config ref_deps port_config") auto
  have "check_request ref_deps (projr (from_config ref_deps port_config)) sample_ip
      (Some ''a.org'') (Some ''GET'') = Deny" by code_simp
  then have deny: "check_request ref_deps ac sample_ip (Some ''a.org'') (Some ''GET'') = Deny"
    by (simp add: ac)
  have rules: "cfg_rules port_config = cfg_rules sample_config @ port_rule # [sample_rule\<lparr>rule_action := Cfg_Allow\<rparr>]"
    by (simp add: port_config_def)
  have "rule_src_ip port_rule = None" "rule_dst_domain port_rule = None" "rule_http_method port_rule = None"
    by (simp_all add: port_rule_def sample_rule_def)
  from acl_port_only_rule_is_final [OF ac rules this, of Cfg_Allow] ac deny show ?thesis by metis
qed

text \<open>
  When no rule has a method condition, the credentials that
  \<open>get_auth_users_for_rule\<close> returns are those of the rule that decides: it returns some list
  only if the decision is to authenticate, and then the list of the first matching rule (the
  empty list if the default action decides).
\<close>

lemma acl_auth_users:
  assumes "\<forall>r \<in> set (rules ac). http_methods r = None"
  shows "get_auth_users_for_rule D ac ip dst =
    (if check_request D ac ip dst meth = Authenticate
     then (case List.find (\<lambda>r. rule_matches_full D r ip dst meth) (rules ac) of
             Some r \<Rightarrow> auth_users r | None \<Rightarrow> Some [])
     else None)"
proof -
  have "List.find (\<lambda>r. rule_matches D r ip dst) (rules ac) =
      List.find (\<lambda>r. rule_matches_full D r ip dst meth) (rules ac)"
    using assms by (intro find_cong) (simp_all add: rule_matches_no_method)
  then show ?thesis
    using auth_users_rules_no_methods [OF assms, of D "default_action ac" ip dst meth]
    by (simp add: get_auth_users_for_rule_def check_request_def)
qed

lemma acl_auth_users_witness:
  "get_auth_users_for_rule ref_deps (sample_controller\<lparr>rules := drop 2 (rules sample_controller)\<rparr>)
     sample_ip (Some ''intra'') = Some sample_users"
proof -
  let ?ac = "sample_controller\<lparr>rules := drop 2 (rules sample_controller)\<rparr>"
  have m: "\<forall>r \<in> set (rules ?ac). http_methods r = None" by code_simp
  have "check_request ref_deps ?ac sample_ip (Some ''intra'') None = Authenticate" by code_simp
  moreover have "(case List.find (\<lambda>r. rule_matches_full ref_deps r sample_ip (Some ''intra'') None) (rules ?ac) of
             Some r \<Rightarrow> auth_users r | None \<Rightarrow> Some []) = Some sample_users" by code_simp
  ultimately show ?thesis
    by (simp only: acl_auth_users [OF m, of ref_deps sample_ip "Some ''intra''" None] simp_thms if_True)
qed

text \<open>
  C21: \<open>get_auth_users_for_rule\<close> does not look at methods, the decision does.  In every controller,
  the first rule whose source and destination accept a request settles the credentials, while
  the decision passes it over if its methods exclude the request's.  So if the decision is then
  to authenticate, by a later rule, the credentials that are returned are those of the first,
  which does not apply to the request, or none if the first does not authenticate; whatever
  the rule that decides says, and so wrong whenever it says something else.
\<close>

theorem acl_auth_users_wrong_rule:
  assumes "rules ac = us @ q # vs" "\<forall>u \<in> set us. \<not> rule_matches D u ip dst" "rule_matches D q ip dst"
    and "\<not> rule_matches_method D q meth" "check_request D ac ip dst meth = Authenticate"
    and "List.find (\<lambda>r. rule_matches_full D r ip dst meth) (rules ac) = Some r"
  shows "r \<in> set vs \<and> action r = Authenticate \<and> \<not> rule_matches_full D q ip dst meth \<and>
    get_auth_users_for_rule D ac ip dst = (if action q = Authenticate then auth_users q else None) \<and>
    ((if action q = Authenticate then auth_users q else None) \<noteq> auth_users r \<longrightarrow>
      get_auth_users_for_rule D ac ip dst \<noteq> auth_users r) \<and>
    (\<forall>vs'. get_auth_users_for_rule D (ac\<lparr>rules := us @ q # vs'\<rparr>) ip dst = get_auth_users_for_rule D ac ip dst)"
proof -
  have skip: "\<not> rule_matches_full D u ip dst meth" if "u \<in> set (us @ [q])" for u
    using that assms(2,4) by (auto simp: rule_matches_full_def rule_matches_def split: if_splits)
  have "List.find (\<lambda>r. rule_matches_full D r ip dst meth) ((us @ [q]) @ vs) =
      List.find (\<lambda>r. rule_matches_full D r ip dst meth) vs"
    using skip by (induction us) auto
  with assms(1,6) have found: "List.find (\<lambda>r. rule_matches_full D r ip dst meth) vs = Some r" by simp
  have "check_rules D (default_action ac) ((us @ [q]) @ vs) ip dst meth =
      check_rules D (default_action ac) vs ip dst meth"
    using skip by (induction us) auto
  moreover have "check_rules D d vs ip dst meth = action r" for d
    using found by (induction vs) (auto split: if_splits)
  ultimately have "action r = Authenticate" using assms(1,5) by (simp add: check_request_def)
  moreover have "r \<in> set vs" using found by (auto simp: find_Some_iff)
  moreover have get: "auth_users_rules D d (us @ q # ws) ip dst =
      (if action q = Authenticate then auth_users q else None)" for d ws
    using assms(2,3) by (induction us) simp_all
  ultimately show ?thesis
    using assms(1) skip by (simp add: get_auth_users_for_rule_def)
qed

text \<open>
  A rule for CONNECT with its users before a rule for every method with others, and the
  same with a first rule that denies.
\<close>

definition two_rules :: "acl_action_config \<Rightarrow> access_control_config" where
  "two_rules a = sample_config\<lparr>cfg_rules :=
     [sample_rule\<lparr>rule_action := a, rule_http_method := Some [''CONNECT''],
        rule_auth := Some \<lparr>auth_type = ''basic'', auth_cfg_users = Some []\<rparr>\<rparr>,
      sample_rule\<lparr>rule_action := Cfg_Authenticate,
        rule_auth := Some \<lparr>auth_type = ''basic'', auth_cfg_users = Some sample_users\<rparr>\<rparr>]\<rparr>"

definition two_rules_controller :: "acl_action_config \<Rightarrow> (cidr, string list, string list) access_controller" where
  "two_rules_controller a = projr (from_config ref_deps (two_rules a))"

theorem acl_auth_users_wrong_rule_witness:
  "check_request ref_deps (two_rules_controller Cfg_Authenticate) sample_ip None (Some ''GET'') = Authenticate \<and>
   auth_users (rules (two_rules_controller Cfg_Authenticate) ! 1) = Some sample_users \<and>
   get_auth_users_for_rule ref_deps (two_rules_controller Cfg_Authenticate) sample_ip None = Some [] \<and>
   check_request ref_deps (two_rules_controller Cfg_Deny) sample_ip None (Some ''GET'') = Authenticate \<and>
   get_auth_users_for_rule ref_deps (two_rules_controller Cfg_Deny) sample_ip None = None"
proof -
  let ?f = "\<lambda>a. rules (two_rules_controller a)"
  have two: "?f a = [] @ ?f a ! 0 # [?f a ! 1]" if "a \<in> {Cfg_Authenticate, Cfg_Deny}" for a
  proof -
    have "length (?f Cfg_Authenticate) = 2" "length (?f Cfg_Deny) = 2" by code_simp+
    then have "length (?f a) = 2" using that by auto
    then show ?thesis by (auto simp: length_eq_2)
  qed
  have m: "rule_matches ref_deps (?f Cfg_Authenticate ! 0) sample_ip None"
    "rule_matches ref_deps (?f Cfg_Deny ! 0) sample_ip None" by code_simp+
  have n: "\<not> rule_matches_method ref_deps (?f Cfg_Authenticate ! 0) (Some ''GET'')"
    "\<not> rule_matches_method ref_deps (?f Cfg_Deny ! 0) (Some ''GET'')" by code_simp+
  have c: "check_request ref_deps (two_rules_controller Cfg_Authenticate) sample_ip None (Some ''GET'') = Authenticate"
    "check_request ref_deps (two_rules_controller Cfg_Deny) sample_ip None (Some ''GET'') = Authenticate" by code_simp+
  have r: "List.find (\<lambda>r. rule_matches_full ref_deps r sample_ip None (Some ''GET'')) (?f a) = Some (?f a ! 1)"
    if "a \<in> {Cfg_Authenticate, Cfg_Deny}" for a
  proof -
    have "\<not> rule_matches_full ref_deps (?f a ! 0) sample_ip None (Some ''GET'')"
      using n that by (auto simp: rule_matches_full_def)
    moreover have "rule_matches_full ref_deps (?f Cfg_Authenticate ! 1) sample_ip None (Some ''GET'')"
      "rule_matches_full ref_deps (?f Cfg_Deny ! 1) sample_ip None (Some ''GET'')" by code_simp+
    ultimately show ?thesis using that by (subst two [OF that]) auto
  qed
  have u: "action (?f Cfg_Authenticate ! 0) = Authenticate" "auth_users (?f Cfg_Authenticate ! 0) = Some []"
    "action (?f Cfg_Deny ! 0) = Deny" "auth_users (?f Cfg_Authenticate ! 1) = Some sample_users" by code_simp+
  from acl_auth_users_wrong_rule [OF two _ m(1) n(1) c(1) r] acl_auth_users_wrong_rule [OF two _ m(2) n(2) c(2) r]
  show ?thesis using c u by simp
qed

text \<open>
  Methods are compared without regard to letter case: for an ASCII method name, the
  decision is that of its upper-case form.  The hypothesis is Rust's documented behaviour of
  \<open>to_uppercase\<close> on ASCII.
\<close>

lemma acl_method_case:
  assumes "agrees_on_ascii (to_uppercase D) ascii_upper" and "is_ascii m"
  shows "check_request D ac ip dst (Some (ascii_upper m)) = check_request D ac ip dst (Some m)"
  unfolding check_request_def
  by (rule check_rules_cong) (rule to_uppercase_method [OF assms])

lemma acl_method_case_witness:
  "check_request ref_deps sample_controller sample_ip (Some ''www.example.com'') (Some (ascii_upper ''Head''))
     = check_request ref_deps sample_controller sample_ip (Some ''www.example.com'') (Some ''Head'')"
  by (rule acl_method_case) (simp_all add: ref_deps_def is_ascii_def)

end
