(* ===== verification/Acl_Example.thy ===== *)
theory Acl_Example
  imports Acl_Properties
begin

text \<open>
  The access control of the repository's example configuration, \<open>config.example.yaml\<close>, and what
  the controller makes of it.
\<close>

section \<open>The example configuration\<close>

definition local_networks :: "string list" where
  "local_networks = [''192.168.0.0/16'', ''10.0.0.0/8'', ''172.16.0.0/12'', ''127.0.0.1/32'']"

definition blank_rule :: "acl_action_config \<Rightarrow> acl_rule_config" where
  "blank_rule a = \<lparr>rule_action = a, rule_src_ip = None, rule_dst_domain = None, rule_dst_port = None,
     rule_http_method = None, rule_auth = None\<rparr>"

definition example_users :: "user_credential list" where
  "example_users = [\<lparr>username = ''admin'', password = ''secret123''\<rparr>, \<lparr>username = ''user'', password = ''password''\<rparr>]"

definition example_access_control :: access_control_config where
  "example_access_control =
     \<lparr>cfg_default_action = Cfg_Deny,
      cfg_rules =
        [(blank_rule Cfg_Allow)\<lparr>rule_src_ip := Some local_networks\<rparr>,
         (blank_rule Cfg_Deny)\<lparr>rule_dst_domain := Some [''*.blocked.com'', ''malware.example.org'']\<rparr>,
         (blank_rule Cfg_Deny)\<lparr>rule_dst_port := Some [''22'', ''3389'']\<rparr>,
         (blank_rule Cfg_Authenticate)\<lparr>rule_src_ip := Some [''0.0.0.0/0''],
           rule_auth := Some \<lparr>auth_type = ''basic'', auth_cfg_users = Some example_users\<rparr>\<rparr>,
         (blank_rule Cfg_Deny)\<lparr>rule_http_method := Some [''DELETE'', ''PUT'']\<rparr>]\<rparr>"

definition from_local :: "('net, 'glob, 'gset, 'rset) acl_deps \<Rightarrow> ip_addr \<Rightarrow> bool" where
  "from_local D ip \<longleftrightarrow>
     list_ex (\<lambda>s. case parse_net D s of Inl e \<Rightarrow> False | Inr n \<Rightarrow> net_contains D n ip) local_networks"

lemma from_local_iff:
  "from_local D ip \<longleftrightarrow> (\<exists>s \<in> set local_networks. \<exists>n. parse_net D s = Inr n \<and> net_contains D n ip)"
proof -
  have "(case parse_net D s of Inl e \<Rightarrow> False | Inr n \<Rightarrow> net_contains D n ip) \<longleftrightarrow>
      (\<exists>n. parse_net D s = Inr n \<and> net_contains D n ip)" for s
    by (cases "parse_net D s") simp_all
  then show ?thesis by (simp add: from_local_def list_ex_iff)
qed

text \<open>The first rule of a controller that is built from it decides for the local networks only.\<close>

lemma local_rule:
  assumes "rule_of_config D ((blank_rule Cfg_Allow)\<lparr>rule_src_ip := Some local_networks\<rparr>) = Inr r"
  shows "rule_matches D r ip dst \<longleftrightarrow> from_local D ip"
    and "rule_matches_full D r ip dst meth \<longleftrightarrow> from_local D ip" and "action r = Allow"
proof -
  from assms obtain nets where r: "src_ip r = Some nets" "traverse (parse_cidr D) local_networks = Inr nets"
      "dst_domain r = None" "http_methods r = None" "action r = Allow"
    by (auto simp: rule_of_config_def blank_rule_def traverse_option_Inr simp del: traverse.simps split: sum.splits)
  then show "rule_matches D r ip dst \<longleftrightarrow> from_local D ip" "action r = Allow"
    by (simp_all add: rule_matches_iff rule_matches_ip_def rule_matches_domain_def
        traverse_parse_cidr from_local_iff)
  then show "rule_matches_full D r ip dst meth \<longleftrightarrow> from_local D ip"
    by (simp add: rule_matches_no_method [OF r(4)])
qed

text \<open>
  C22: With the repository's example configuration, of which the comments say that it blocks two
  domains and two ports, asks everybody else for credentials and forbids two methods, a
  controller allows every request from a local network and denies every other one, to whatever
  domain and with whatever method; nobody is ever asked for credentials, and
  \<open>get_auth_users_for_rule\<close> never returns any.  The cause is the third rule: it has only ports,
  which are not read, so it denies everything that reaches it.
\<close>

theorem acl_example_config:
  assumes "from_config D example_access_control = Inr ac"
  shows "check_request D ac ip dst meth = (if from_local D ip then Allow else Deny) \<and>
    get_auth_users_for_rule D ac ip dst = None"
proof -
  from assms obtain r1 r2 r3 r4 r5 where rs: "rules ac = [r1, r2, r3, r4, r5]"
    and 1: "rule_of_config D ((blank_rule Cfg_Allow)\<lparr>rule_src_ip := Some local_networks\<rparr>) = Inr r1"
    and 2: "rule_of_config D ((blank_rule Cfg_Deny)\<lparr>rule_dst_domain := Some [''*.blocked.com'', ''malware.example.org'']\<rparr>) = Inr r2"
    and 3: "rule_of_config D ((blank_rule Cfg_Deny)\<lparr>rule_dst_port := Some [''22'', ''3389'']\<rparr>) = Inr r3"
    by (auto simp: from_config_Inr example_access_control_def Cons_eq_map_conv)
  have deny: "action r2 = Deny" "action r3 = Deny"
    using rule_of_config_Inr(1) [OF 2] rule_of_config_Inr(1) [OF 3] by (simp_all add: blank_rule_def)
  have all: "rule_matches_full D r3 ip dst m" for m
    by (rule rule_of_config_unconditional [OF 3]) (simp_all add: blank_rule_def)
  show ?thesis
    using local_rule [OF 1] deny all rule_matches_full_imp [OF all] by (simp add: check_request_def get_auth_users_for_rule_def rs)
qed

theorem acl_example_config_witness:
  "\<exists>ac. from_config ref_deps example_access_control = Inr ac \<and>
     check_request ref_deps ac (V4 [8, 8, 8, 8]) (Some ''example.org'') (Some ''GET'') = Deny \<and>
     check_request ref_deps ac (V4 [10, 1, 2, 3]) (Some ''malware.example.org'') (Some ''DELETE'') = Allow"
proof -
  have "\<not> isl (from_config ref_deps example_access_control)" by code_simp
  then obtain ac where ac: "from_config ref_deps example_access_control = Inr ac"
    by (cases "from_config ref_deps example_access_control") auto
  have "\<not> from_local ref_deps (V4 [8, 8, 8, 8])" "from_local ref_deps (V4 [10, 1, 2, 3])" by code_simp+
  with acl_example_config [OF ac] ac show ?thesis by simp
qed

end
