(* ===== verification/Stream_IO.thy ===== *)
theory Stream_IO
  imports Errors
begin

text \<open>
  The byte stream the handlers run on.  \<open>TcpStream\<close>, its TLS wrapper and the timer are
  tokio's, so the operations the program calls are the fields of a record \<open>stream_ops\<close> over
  a stream state \<open>'s\<close>, and every handler takes the record as an argument.  The contract the
  handlers rely on is the locale \<open>byte_stream\<close> (safety: what a successful or failed call has
  done) with its extension \<open>live_stream\<close> (when a call succeeds).

  The laws use two views of a stream that the program cannot see: \<open>pending\<close>, the bytes the
  peer will still deliver, and \<open>sent\<close>, the bytes written to it so far.
\<close>

section \<open>The operations\<close>

text \<open>
  \<open>read_exact n\<close>; \<open>timeout(t, read_exact n)\<close>, with \<open>None\<close> for an elapsed timer; \<open>read\<close> into a
  buffer of \<open>n\<close> bytes, which returns between 1 and \<open>n\<close> bytes, or none at the end of the
  stream; \<open>write_all\<close>.  An I/O error is its text.
\<close>

record 's stream_ops =
  read_exact :: "nat \<Rightarrow> 's \<Rightarrow> (string + bytes) \<times> 's"
  timeout_read_exact :: "nat \<Rightarrow> nat \<Rightarrow> 's \<Rightarrow> (string + bytes) option \<times> 's"
  read_some :: "nat \<Rightarrow> 's \<Rightarrow> (string + bytes) \<times> 's"
  write_all :: "bytes \<Rightarrow> 's \<Rightarrow> (string + unit) \<times> 's"

text \<open>The calls as the handlers make them, with \<open>map_err(ProxyError::Io)\<close>.\<close>

definition io_read_exact :: "'s stream_ops \<Rightarrow> nat \<Rightarrow> ('s, bytes) proxy_io" where
  "io_read_exact S n = (\<lambda>s. case read_exact S n s of (r, s') \<Rightarrow> (map_err Io r, s'))"

definition io_read :: "'s stream_ops \<Rightarrow> nat \<Rightarrow> ('s, bytes) proxy_io" where
  "io_read S n = (\<lambda>s. case read_some S n s of (r, s') \<Rightarrow> (map_err Io r, s'))"

definition io_write_all :: "'s stream_ops \<Rightarrow> bytes \<Rightarrow> ('s, unit) proxy_io" where
  "io_write_all S bs = (\<lambda>s. case write_all S bs s of (r, s') \<Rightarrow> (map_err Io r, s'))"

text \<open>
  \<open>timeout(..., stream.read_exact(..)).await.map_err(|_| Timeout)?.map_err(Io)?\<close>.
\<close>

definition io_timed_read :: "'s stream_ops \<Rightarrow> nat \<Rightarrow> nat \<Rightarrow> ('s, bytes) proxy_io" where
  "io_timed_read S t n =
     (\<lambda>s. case timeout_read_exact S t n s of
        (None, s') \<Rightarrow> (Inl Timeout, s')
      | (Some r, s') \<Rightarrow> (map_err Io r, s'))"

section \<open>The contract\<close>

locale byte_stream =
  fixes S :: "'s stream_ops"
    and pending :: "'s \<Rightarrow> bytes"
    and sent :: "'s \<Rightarrow> bytes"
  assumes read_exact_ok: "read_exact S n s = (Inr bs, s') \<Longrightarrow>
      length bs = n \<and> pending s = bs @ pending s' \<and> sent s' = sent s"
    and read_exact_err: "read_exact S n s = (Inl e, s') \<Longrightarrow> sent s' = sent s"
    and timed_ok: "timeout_read_exact S t n s = (Some (Inr bs), s') \<Longrightarrow>
      length bs = n \<and> pending s = bs @ pending s' \<and> sent s' = sent s"
    and timed_err: "timeout_read_exact S t n s = (Some (Inl e), s') \<Longrightarrow> sent s' = sent s"
    and timed_elapsed: "timeout_read_exact S t n s = (None, s') \<Longrightarrow> sent s' = sent s"
    and read_some_ok: "read_some S n s = (Inr bs, s') \<Longrightarrow>
      length bs \<le> n \<and> pending s = bs @ pending s' \<and> sent s' = sent s"
    and read_some_err: "read_some S n s = (Inl e, s') \<Longrightarrow> sent s' = sent s"
    and write_ok: "write_all S bs s = (Inr u, s') \<Longrightarrow>
      sent s' = sent s @ bs \<and> pending s' = pending s"
    and write_err: "write_all S bs s = (Inl e, s') \<Longrightarrow>
      \<exists>w. strict_prefix w bs \<and> sent s' = sent s @ w"
begin

lemma io_read_exact_Inr:
  "io_read_exact S n s = (Inr bs, s') \<Longrightarrow>
     length bs = n \<and> pending s = bs @ pending s' \<and> sent s' = sent s"
  by (auto simp: io_read_exact_def split: prod.splits dest: read_exact_ok)

lemma io_timed_read_Inr:
  "io_timed_read S t n s = (Inr bs, s') \<Longrightarrow>
     length bs = n \<and> pending s = bs @ pending s' \<and> sent s' = sent s"
  by (auto simp: io_timed_read_def split: prod.splits option.splits dest: timed_ok)

lemma io_read_Inr:
  "io_read S n s = (Inr bs, s') \<Longrightarrow>
     length bs \<le> n \<and> pending s = bs @ pending s' \<and> sent s' = sent s"
  by (auto simp: io_read_def split: prod.splits dest: read_some_ok)

lemma io_write_Inr:
  "io_write_all S bs s = (Inr u, s') \<Longrightarrow> sent s' = sent s @ bs \<and> pending s' = pending s"
  by (auto simp: io_write_all_def split: prod.splits dest: write_ok)

lemma io_read_exact_sent: "io_read_exact S n s = (r, s') \<Longrightarrow> sent s' = sent s"
  by (cases "read_exact S n s"; cases "fst (read_exact S n s)")
    (auto simp: io_read_exact_def dest: read_exact_ok read_exact_err)

lemma io_timed_read_sent: "io_timed_read S t n s = (r, s') \<Longrightarrow> sent s' = sent s"
  by (auto simp: io_timed_read_def split: prod.splits option.splits sum.splits
      dest: timed_elapsed)
    (metis sum.exhaust timed_err timed_ok)

lemma io_read_sent: "io_read S n s = (r, s') \<Longrightarrow> sent s' = sent s"
  by (cases "read_some S n s"; cases "fst (read_some S n s)")
    (auto simp: io_read_def dest: read_some_ok read_some_err)

lemma io_write_Inl:
  "io_write_all S bs s = (Inl e, s') \<Longrightarrow>
     (\<exists>x. e = Io x) \<and> (\<exists>w. strict_prefix w bs \<and> sent s' = sent s @ w)"
  by (auto simp: io_write_all_def split: prod.splits dest: write_err)

text \<open>No operation takes back what was sent.\<close>

definition grows :: "'s \<Rightarrow> 's \<Rightarrow> bool" where
  "grows s s' \<longleftrightarrow> prefix (sent s) (sent s')"

lemma grows_refl: "reflp grows"
  by (simp add: grows_def reflpI)

lemma grows_trans: "transp grows"
  by (auto simp: grows_def intro: transpI prefix_order.trans)

lemma keeps_timed_read [frame_intros]: "keeps grows (io_timed_read S t n)"
  by (rule keepsI) (auto simp: grows_def dest: io_timed_read_sent)

lemma keeps_read_exact [frame_intros]: "keeps grows (io_read_exact S n)"
  by (rule keepsI) (auto simp: grows_def dest: io_read_exact_sent)

lemma keeps_read [frame_intros]: "keeps grows (io_read S n)"
  by (rule keepsI) (auto simp: grows_def dest: io_read_sent)

lemma keeps_write [frame_intros]: "keeps grows (io_write_all S bs)"
proof (rule keepsI)
  fix s r s' assume run: "io_write_all S bs s = (r, s')"
  show "grows s s'"
    using run by (cases r) (auto simp: grows_def dest: io_write_Inl io_write_Inr)
qed

lemmas stream_frame = frame_intros grows_refl grows_trans

end

text \<open>
  Progress: on a healthy stream a read of bytes the peer delivers in time succeeds, and so
  does a write; both leave it healthy.
\<close>

locale live_stream = byte_stream S pending sent
  for S :: "'s stream_ops" and pending :: "'s \<Rightarrow> bytes" and sent :: "'s \<Rightarrow> bytes" +
  fixes healthy :: "'s \<Rightarrow> bool"
  assumes timed_live: "healthy s \<Longrightarrow> n \<le> length (pending s) \<Longrightarrow>
      \<exists>s'. timeout_read_exact S t n s = (Some (Inr (take n (pending s))), s') \<and> healthy s'"
    and read_exact_live: "healthy s \<Longrightarrow> n \<le> length (pending s) \<Longrightarrow>
      \<exists>s'. read_exact S n s = (Inr (take n (pending s)), s') \<and> healthy s'"
    and write_live: "healthy s \<Longrightarrow> \<exists>s'. write_all S bs s = (Inr (), s') \<and> healthy s'"
begin

lemma io_timed_live:
  assumes "healthy s" "pending s = bs @ rest" "length bs = n"
  obtains s' where "io_timed_read S t n s = (Inr bs, s')" "healthy s'" "pending s' = rest"
    "sent s' = sent s"
proof -
  from timed_live [of s n t] assms obtain s'
    where s': "timeout_read_exact S t n s = (Some (Inr bs), s')" "healthy s'" by auto
  from timed_ok [OF s'(1)] assms have "pending s' = rest" "sent s' = sent s" by auto
  with s' show thesis by (intro that [of s']) (simp_all add: io_timed_read_def)
qed

lemma io_read_exact_live:
  assumes "healthy s" "pending s = bs @ rest" "length bs = n"
  obtains s' where "io_read_exact S n s = (Inr bs, s')" "healthy s'" "pending s' = rest"
    "sent s' = sent s"
proof -
  from read_exact_live [of s n] assms obtain s'
    where s': "read_exact S n s = (Inr bs, s')" "healthy s'" by auto
  from read_exact_ok [OF s'(1)] assms have "pending s' = rest" "sent s' = sent s" by auto
  with s' show thesis by (intro that [of s']) (simp_all add: io_read_exact_def)
qed

lemma io_write_live:
  assumes "healthy s"
  obtains s' where "io_write_all S bs s = (Inr (), s')" "healthy s'" "pending s' = pending s"
    "sent s' = sent s @ bs"
proof -
  from write_live [OF assms, of bs] obtain s'
    where s': "write_all S bs s = (Inr (), s')" "healthy s'" by auto
  from write_ok [OF s'(1)] s' show thesis by (intro that [of s']) (simp_all add: io_write_all_def)
qed

end

text \<open>
  Time: a read under a timer spends at most the timer's duration waiting for the peer, and
  writing is not waiting for the peer's bytes.
\<close>

locale timed_stream = byte_stream S pending sent
  for S :: "'s stream_ops" and pending :: "'s \<Rightarrow> bytes" and sent :: "'s \<Rightarrow> bytes" +
  fixes waited :: "'s \<Rightarrow> nat"
  assumes timed_wait: "timeout_read_exact S t n s = (r, s') \<Longrightarrow> waited s' \<le> waited s + t"
    and write_wait: "write_all S bs s = (q, s') \<Longrightarrow> waited s' = waited s"
begin

lemma io_timed_wait: "io_timed_read S t n s = (r, s') \<Longrightarrow> waited s' \<le> waited s + t"
  by (auto simp: io_timed_read_def split: prod.splits option.splits dest: timed_wait)

lemma io_write_wait: "io_write_all S bs s = (r, s') \<Longrightarrow> waited s' = waited s"
  by (auto simp: io_write_all_def split: prod.splits dest: write_wait)

end

end
