(* ===== verification/Scripted_Stream.thy ===== *)
theory Scripted_Stream
  imports Stream_IO
begin

text \<open>
  A connection to an arbitrary peer, as the environment of the handlers.  The peer is a
  script: bytes, silences of a number of milliseconds, and faults of the connection; the end
  of the script is the end of the stream.  The writing side accepts everything, or breaks
  after a given number of bytes.  The three interfaces of \<open>Stream_IO\<close> are interpreted on it,
  and every property of a handler that is stated on \<open>conn\<close> holds for all scripts.
\<close>

datatype rx = Byte u8 | Wait nat | Fault string

record conn =
  rx_script :: "rx list"
  tx_bytes :: bytes
  tx_limit :: "nat option"
  wait_time :: nat

section \<open>Reading\<close>

text \<open>
  \<open>recv b n evs w\<close>: read \<open>n\<close> bytes with \<open>b\<close> milliseconds left on the timer (\<open>None\<close> for no
  timer) and \<open>w\<close> waited so far.  The result, the rest of the script, and the time waited.
\<close>

fun recv :: "nat option \<Rightarrow> nat \<Rightarrow> rx list \<Rightarrow> nat \<Rightarrow> (string + bytes) option \<times> rx list \<times> nat" where
  "recv b 0 evs w = (Some (Inr []), evs, w)"
| "recv b (Suc n) [] w = (Some (Inl ''early eof''), [], w)"
| "recv b (Suc n) (Byte x # evs) w =
     (case recv b n evs w of
        (Some (Inr bs), rest) \<Rightarrow> (Some (Inr (x # bs)), rest)
      | (Some (Inl e), rest) \<Rightarrow> (Some (Inl e), rest)
      | (None, rest) \<Rightarrow> (None, rest))"
| "recv b (Suc n) (Wait d # evs) w =
     (case b of
        None \<Rightarrow> recv None (Suc n) evs (w + d)
      | Some t \<Rightarrow>
          if d \<le> t then recv (Some (t - d)) (Suc n) evs (w + d)
          else (None, Wait (d - t) # evs, w + t))"
| "recv b (Suc n) (Fault e # evs) w = (Some (Inl e), evs, w)"

text \<open>At most \<open>n\<close> bytes that are there: the peer's next segment, or part of it.\<close>

fun take_bytes :: "nat \<Rightarrow> rx list \<Rightarrow> bytes \<times> rx list" where
  "take_bytes (Suc n) (Byte x # evs) = (let (bs, rest) = take_bytes n evs in (x # bs, rest))"
| "take_bytes _ evs = ([], evs)"

fun recv_some :: "nat \<Rightarrow> rx list \<Rightarrow> nat \<Rightarrow> (string + bytes) \<times> rx list \<times> nat" where
  "recv_some 0 evs w = (Inr [], evs, w)"
| "recv_some n [] w = (Inr [], [], w)"
| "recv_some n (Wait d # evs) w = recv_some n evs (w + d)"
| "recv_some n (Fault e # evs) w = (Inl e, evs, w)"
| "recv_some n (Byte x # evs) w =
     (let (bs, rest) = take_bytes n (Byte x # evs) in (Inr bs, rest, w))"

definition conn_read_exact :: "nat \<Rightarrow> conn \<Rightarrow> (string + bytes) \<times> conn" where
  "conn_read_exact n c =
     (case recv None n (rx_script c) (wait_time c) of
        (Some r, evs, w) \<Rightarrow> (r, c\<lparr>rx_script := evs, wait_time := w\<rparr>)
      | (None, evs, w) \<Rightarrow> (Inl ''unreachable'', c\<lparr>rx_script := evs, wait_time := w\<rparr>))"

definition conn_timeout_read_exact :: "nat \<Rightarrow> nat \<Rightarrow> conn \<Rightarrow> (string + bytes) option \<times> conn" where
  "conn_timeout_read_exact t n c =
     (case recv (Some t) n (rx_script c) (wait_time c) of
        (r, evs, w) \<Rightarrow> (r, c\<lparr>rx_script := evs, wait_time := w\<rparr>))"

definition conn_read_some :: "nat \<Rightarrow> conn \<Rightarrow> (string + bytes) \<times> conn" where
  "conn_read_some n c =
     (case recv_some n (rx_script c) (wait_time c) of
        (r, evs, w) \<Rightarrow> (r, c\<lparr>rx_script := evs, wait_time := w\<rparr>))"

section \<open>Writing\<close>

definition conn_write_all :: "bytes \<Rightarrow> conn \<Rightarrow> (string + unit) \<times> conn" where
  "conn_write_all bs c =
     (case tx_limit c of
        None \<Rightarrow> (Inr (), c\<lparr>tx_bytes := tx_bytes c @ bs\<rparr>)
      | Some k \<Rightarrow>
          if length bs \<le> k
          then (Inr (), c\<lparr>tx_bytes := tx_bytes c @ bs, tx_limit := Some (k - length bs)\<rparr>)
          else (Inl ''Broken pipe'', c\<lparr>tx_bytes := tx_bytes c @ take k bs, tx_limit := Some 0\<rparr>))"

definition conn_ops :: "conn stream_ops" where
  "conn_ops =
     \<lparr>read_exact = conn_read_exact, timeout_read_exact = conn_timeout_read_exact,
      read_some = conn_read_some, write_all = conn_write_all\<rparr>"

section \<open>The interfaces\<close>

text \<open>The bytes delivered before the next fault.\<close>

fun script_bytes :: "rx list \<Rightarrow> bytes" where
  "script_bytes [] = []"
| "script_bytes (Byte x # evs) = x # script_bytes evs"
| "script_bytes (Wait d # evs) = script_bytes evs"
| "script_bytes (Fault e # evs) = []"

definition conn_pending :: "conn \<Rightarrow> bytes" where
  "conn_pending c = script_bytes (rx_script c)"

definition conn_healthy :: "conn \<Rightarrow> bool" where
  "conn_healthy c \<longleftrightarrow> tx_limit c = None \<and> list_all (\<lambda>e. case e of Byte _ \<Rightarrow> True | _ \<Rightarrow> False) (rx_script c)"

text \<open>A peer that sends \<open>bs\<close> at once and then closes.\<close>

definition peer_sends :: "bytes \<Rightarrow> conn" where
  "peer_sends bs = \<lparr>rx_script = map Byte bs, tx_bytes = [], tx_limit = None, wait_time = 0\<rparr>"

lemma recv_ok:
  "recv b n evs w = (Some (Inr bs), evs', w') \<Longrightarrow>
     length bs = n \<and> script_bytes evs = bs @ script_bytes evs'"
  by (induction b n evs w arbitrary: bs rule: recv.induct)
    (auto split: prod.splits option.splits sum.splits if_splits)

lemma recv_wait: "recv (Some t) n evs w = (r, evs', w') \<Longrightarrow> w' \<le> w + t"
proof (induction "Some t" n evs w arbitrary: t r rule: recv.induct)
  case (4 n d evs w)
  then show ?case by (fastforce split: if_splits)
qed (auto split: prod.splits option.splits sum.splits if_splits)

lemma recv_untimed: "fst (recv None n evs w) \<noteq> None"
  by (induction "None :: nat option" n evs w rule: recv.induct)
    (auto split: prod.splits option.splits sum.splits)

lemma take_bytes_ok:
  "take_bytes n evs = (bs, evs') \<Longrightarrow> length bs \<le> n \<and> script_bytes evs = bs @ script_bytes evs'"
  by (induction n evs arbitrary: bs rule: take_bytes.induct) (auto split: prod.splits)

lemma recv_some_ok:
  "recv_some n evs w = (Inr bs, evs', w') \<Longrightarrow>
     length bs \<le> n \<and> script_bytes evs = bs @ script_bytes evs'"
proof (induction n evs w rule: recv_some.induct)
  case (5 n x evs w)
  then show ?case
    using take_bytes_ok [of "Suc n" "Byte x # evs"] by (auto split: prod.splits)
qed auto

lemma script_bytes_map_Byte [simp]: "script_bytes (map Byte bs) = bs"
  by (induction bs) simp_all

lemma only_bytes_iff:
  "list_all (\<lambda>e. case e of Byte _ \<Rightarrow> True | _ \<Rightarrow> False) evs \<longleftrightarrow> (\<exists>bs. evs = map Byte bs)"
proof (induction evs)
  case Nil
  then show ?case by simp
next
  case (Cons e evs)
  then show ?case by (cases e) (auto simp: Cons_eq_map_conv)
qed

lemma recv_map_Byte:
  "n \<le> length bs \<Longrightarrow> recv b n (map Byte bs) w = (Some (Inr (take n bs)), map Byte (drop n bs), w)"
proof (induction n arbitrary: bs)
  case 0
  then show ?case by simp
next
  case (Suc n)
  then show ?case by (cases bs) auto
qed

interpretation cs: byte_stream conn_ops conn_pending tx_bytes
proof
  fix n t :: nat and s s' :: conn and bs and e :: string and u
  show "read_exact conn_ops n s = (Inr bs, s') \<Longrightarrow>
      length bs = n \<and> conn_pending s = bs @ conn_pending s' \<and> tx_bytes s' = tx_bytes s"
    by (auto simp: conn_ops_def conn_read_exact_def conn_pending_def dest: recv_ok
        split: prod.splits option.splits)
  show "read_exact conn_ops n s = (Inl e, s') \<Longrightarrow> tx_bytes s' = tx_bytes s"
    by (auto simp: conn_ops_def conn_read_exact_def split: prod.splits option.splits)
  show "timeout_read_exact conn_ops t n s = (Some (Inr bs), s') \<Longrightarrow>
      length bs = n \<and> conn_pending s = bs @ conn_pending s' \<and> tx_bytes s' = tx_bytes s"
    by (auto simp: conn_ops_def conn_timeout_read_exact_def conn_pending_def dest: recv_ok
        split: prod.splits)
  show "timeout_read_exact conn_ops t n s = (Some (Inl e), s') \<Longrightarrow> tx_bytes s' = tx_bytes s"
    by (auto simp: conn_ops_def conn_timeout_read_exact_def split: prod.splits)
  show "timeout_read_exact conn_ops t n s = (None, s') \<Longrightarrow> tx_bytes s' = tx_bytes s"
    by (auto simp: conn_ops_def conn_timeout_read_exact_def split: prod.splits)
  show "read_some conn_ops n s = (Inr bs, s') \<Longrightarrow>
      length bs \<le> n \<and> conn_pending s = bs @ conn_pending s' \<and> tx_bytes s' = tx_bytes s"
    by (auto simp: conn_ops_def conn_read_some_def conn_pending_def dest: recv_some_ok
        split: prod.splits)
  show "read_some conn_ops n s = (Inl e, s') \<Longrightarrow> tx_bytes s' = tx_bytes s"
    by (auto simp: conn_ops_def conn_read_some_def split: prod.splits)
  show "write_all conn_ops bs s = (Inr u, s') \<Longrightarrow>
      tx_bytes s' = tx_bytes s @ bs \<and> conn_pending s' = conn_pending s"
    by (auto simp: conn_ops_def conn_write_all_def conn_pending_def
        split: option.splits if_splits)
  show "write_all conn_ops bs s = (Inl e, s') \<Longrightarrow>
      \<exists>w. strict_prefix w bs \<and> tx_bytes s' = tx_bytes s @ w"
    by (auto simp: conn_ops_def conn_write_all_def strict_prefix_def take_is_prefix take_all_iff
        intro!: exI [of _ "take k bs" for k] split: option.splits if_splits)
qed

interpretation cl: live_stream conn_ops conn_pending tx_bytes conn_healthy
proof
  fix n t :: nat and s :: conn and bs
  assume h: "conn_healthy s"
  then obtain ps where ps: "rx_script s = map Byte ps" and lim: "tx_limit s = None"
    by (auto simp: conn_healthy_def only_bytes_iff)
  have healthy: "conn_healthy (s\<lparr>rx_script := map Byte qs\<rparr>)" for qs
    using lim by (simp add: conn_healthy_def only_bytes_iff) blast
  show "\<exists>s'. timeout_read_exact conn_ops t n s = (Some (Inr (take n (conn_pending s))), s')
      \<and> conn_healthy s'" if "n \<le> length (conn_pending s)"
    using that healthy
    by (simp add: conn_ops_def conn_timeout_read_exact_def conn_pending_def ps recv_map_Byte)
  show "\<exists>s'. read_exact conn_ops n s = (Inr (take n (conn_pending s)), s') \<and> conn_healthy s'"
    if "n \<le> length (conn_pending s)"
    using that healthy
    by (simp add: conn_ops_def conn_read_exact_def conn_pending_def ps recv_map_Byte)
  show "\<exists>s'. write_all conn_ops bs s = (Inr (), s') \<and> conn_healthy s'"
    using h lim by (simp add: conn_ops_def conn_write_all_def conn_healthy_def)
qed

interpretation ct: timed_stream conn_ops conn_pending tx_bytes wait_time
  by unfold_locales
    (auto simp: conn_ops_def conn_timeout_read_exact_def conn_write_all_def dest: recv_wait
      split: prod.splits option.splits if_splits)

lemma peer_sends_simps [simp]:
  "conn_pending (peer_sends bs) = bs" "tx_bytes (peer_sends bs) = []"
  "wait_time (peer_sends bs) = 0" "conn_healthy (peer_sends bs)"
  by (simp_all add: peer_sends_def conn_pending_def conn_healthy_def only_bytes_iff) blast

lemmas conn_eval =
  conn_ops_def conn_read_exact_def conn_timeout_read_exact_def conn_read_some_def
  conn_write_all_def io_read_exact_def io_timed_read_def io_read_def io_write_all_def
  peer_sends_def map_err_def bind_io_def

end
