(* ===== verification/Socks_Wire.thy ===== *)
theory Socks_Wire
  imports Errors
begin

text \<open>
  The data of \<open>src/protocol/socks5/handshake.rs\<close> and the byte layouts of RFC 1928 and
  RFC 1929 it exchanges.  The layouts are the specification side: what a client sends.
\<close>

section \<open>Requests\<close>

datatype socks_command = Connect | Bind | UdpAssociate

datatype target_addr = Ipv4 bytes u16 | Domain string u16 | Ipv6 bytes u16

record socks_request =
  command :: socks_command
  target :: target_addr

text \<open>
  What Rust's types guarantee of a \<open>TargetAddr\<close> (\<open>[u8; 4]\<close>, \<open>String\<close>, \<open>[u8; 16]\<close>), and the
  length a one-byte length field can carry.
\<close>

fun wf_target :: "target_addr \<Rightarrow> bool" where
  "wf_target (Ipv4 ip p) = (length ip = 4)"
| "wf_target (Domain d p) = rust_string d"
| "wf_target (Ipv6 ip p) = (length ip = 16)"

fun short_target :: "target_addr \<Rightarrow> bool" where
  "short_target (Domain d p) = (length d < 256)"
| "short_target _ = True"

section \<open>Layouts\<close>

definition len_byte :: "nat \<Rightarrow> u8" where
  "len_byte n = of_nat n"

text \<open>ATYP, address, port.\<close>

fun target_wire :: "target_addr \<Rightarrow> bytes" where
  "target_wire (Ipv4 ip p) = 0x01 # ip @ to_be_bytes p"
| "target_wire (Domain d p) = 0x03 # len_byte (length d) # as_bytes d @ to_be_bytes p"
| "target_wire (Ipv6 ip p) = 0x04 # ip @ to_be_bytes p"

fun command_byte :: "socks_command \<Rightarrow> u8" where
  "command_byte Connect = 0x01"
| "command_byte Bind = 0x02"
| "command_byte UdpAssociate = 0x03"

definition request_wire :: "u8 \<Rightarrow> socks_request \<Rightarrow> bytes" where
  "request_wire rsv r = [0x05, command_byte (command r), rsv] @ target_wire (target r)"

definition methods_wire :: "bytes \<Rightarrow> bytes" where
  "methods_wire ms = [0x05, len_byte (length ms)] @ ms"

definition auth_wire :: "string \<Rightarrow> string \<Rightarrow> bytes" where
  "auth_wire user pass =
     [0x01, len_byte (length user)] @ as_bytes user @ [len_byte (length pass)] @ as_bytes pass"

lemma unat_len_byte: "n < 256 \<Longrightarrow> unat (len_byte n) = n"
  by (simp add: len_byte_def unat_of_nat)

lemma len_byte_unat [simp]: "len_byte (unat b) = b"
  by (simp add: len_byte_def)

lemma len_byte_mod: "unat (len_byte n) = n mod 256"
  by (simp add: len_byte_def unat_of_nat)

lemma to_be_from_be: "to_be_bytes (from_be_bytes a b) = [a, b]"
proof -
  have a: "unat a < 256" and b: "unat b < 256" by (rule unat_u8_less)+
  have "unat (ucast (drop_bit 8 (from_be_bytes a b)) :: u8) = unat a"
    using a b by (simp add: unsigned_ucast_eq take_bit_eq_mod drop_bit_eq_div unat_div
        unat_from_be_bytes)
  moreover have "unat (ucast (from_be_bytes a b) :: u8) = unat b"
    using b by (simp add: unsigned_ucast_eq take_bit_eq_mod unat_from_be_bytes)
  ultimately show ?thesis by (simp add: to_be_bytes_def word_unat_eq_iff)
qed

lemma port_bytes:
  "length pb = 2 \<Longrightarrow> to_be_bytes (from_be_bytes (pb ! 0) (pb ! 1)) = pb"
  by (auto simp: length_eq_2 to_be_from_be)

end
