(* ===== verification/Socks_Handshake.thy ===== *)
theory Socks_Handshake
  imports Scripted_Stream Acl_Auth Socks_Wire
begin

text \<open>
  \<open>src/protocol/socks5/handshake.rs\<close>: the server side of the SOCKS5 handshake.  Each
  function is the sequence of calls the source makes on the stream; every read is under the
  timer \<open>HANDSHAKE_TIMEOUT\<close>.
\<close>

section \<open>The handshake\<close>

text \<open>Thirty seconds, in milliseconds.\<close>

definition handshake_timeout :: nat where
  "handshake_timeout = 30000"

definition timed_read :: "'s stream_ops \<Rightarrow> nat \<Rightarrow> ('s, bytes) proxy_io" where
  "timed_read S n = io_timed_read S handshake_timeout n"

definition select_method :: "user_credential list option \<Rightarrow> bytes \<Rightarrow> u8" where
  "select_method users methods =
     (case users of
        Some _ \<Rightarrow> if 0x02 \<in> set methods then 0x02 else 0xFF
      | None \<Rightarrow> if 0x00 \<in> set methods then 0x00 else 0xFF)"

definition negotiate_method ::
  "'s stream_ops \<Rightarrow> user_credential list option \<Rightarrow> ('s, u8) proxy_io"
where
  "negotiate_method S users =
     bind_io (timed_read S 2) (\<lambda>header.
     if header ! 0 \<noteq> 0x05 then raise (Socks5 ''Invalid SOCKS version'')
     else
       bind_io (timed_read S (unat (header ! 1))) (\<lambda>methods.
       let selected = select_method users methods in
       bind_io (io_write_all S [0x05, selected]) (\<lambda>_.
       if selected = 0xFF then raise (Socks5 ''No acceptable authentication method'')
       else ret selected)))"

definition authenticate_user ::
  "'s stream_ops \<Rightarrow> user_credential list \<Rightarrow> ('s, unit) proxy_io"
where
  "authenticate_user S users =
     bind_io (timed_read S 1) (\<lambda>ver.
     if ver ! 0 \<noteq> 0x01 then raise (Socks5 ''Invalid auth version'')
     else
       bind_io (timed_read S 1) (\<lambda>ulen.
       bind_io (timed_read S (unat (ulen ! 0))) (\<lambda>username.
       bind_io (timed_read S 1) (\<lambda>plen.
       bind_io (timed_read S (unat (plen ! 0))) (\<lambda>password.
       bind_io (lift_sum (ok_or (Socks5 ''Invalid username encoding'') (from_utf8 username)))
         (\<lambda>username_str.
       bind_io (lift_sum (ok_or (Socks5 ''Invalid password encoding'') (from_utf8 password)))
         (\<lambda>password_str.
       let authenticated = verify_credentials username_str password_str users;
           status = (if authenticated then 0x00 else 0x01)
       in bind_io (io_write_all S [0x01, status]) (\<lambda>_.
          if \<not> authenticated then raise (Socks5 ''Authentication failed'') else ret ()))))))))"

text \<open>The command and the address of a request.\<close>

definition read_command :: "u8 \<Rightarrow> proxy_error + socks_command" where
  "read_command b =
     (if b = 0x01 then Inr Connect
      else if b = 0x02 then Inr Bind
      else if b = 0x03 then Inr UdpAssociate
      else Inl (Socks5 (''Unknown command: '' @ dec (unat b))))"

definition read_port :: "'s stream_ops \<Rightarrow> ('s, u16) proxy_io" where
  "read_port S =
     bind_io (timed_read S 2) (\<lambda>port_buf. ret (from_be_bytes (port_buf ! 0) (port_buf ! 1)))"

definition read_target :: "'s stream_ops \<Rightarrow> u8 \<Rightarrow> ('s, target_addr) proxy_io" where
  "read_target S atyp =
     (if atyp = 0x01 then
        bind_io (timed_read S 4) (\<lambda>addr.
        bind_io (read_port S) (\<lambda>port. ret (Ipv4 addr port)))
      else if atyp = 0x03 then
        bind_io (timed_read S 1) (\<lambda>len.
        bind_io (timed_read S (unat (len ! 0))) (\<lambda>domain.
        bind_io (read_port S) (\<lambda>port.
        bind_io (lift_sum (ok_or (Socks5 ''Invalid domain encoding'') (from_utf8 domain)))
          (\<lambda>domain_str. ret (Domain domain_str port)))))
      else if atyp = 0x04 then
        bind_io (timed_read S 16) (\<lambda>addr.
        bind_io (read_port S) (\<lambda>port. ret (Ipv6 addr port)))
      else raise (Socks5 (''Unknown address type: '' @ dec (unat atyp))))"

definition read_request :: "'s stream_ops \<Rightarrow> ('s, socks_request) proxy_io" where
  "read_request S =
     bind_io (timed_read S 4) (\<lambda>header.
     if header ! 0 \<noteq> 0x05 then raise (Socks5 ''Invalid SOCKS version in request'')
     else
       bind_io (lift_sum (read_command (header ! 1))) (\<lambda>command.
       bind_io (read_target S (header ! 3)) (\<lambda>target.
       ret \<lparr>command = command, target = target\<rparr>)))"

definition send_reply :: "'s stream_ops \<Rightarrow> u8 \<Rightarrow> socks_request \<Rightarrow> ('s, unit) proxy_io" where
  "send_reply S rep request =
     io_write_all S [0x05, rep, 0x00, 0x01, 0x00, 0x00, 0x00, 0x00, 0x00, 0x00]"

section \<open>Safety\<close>

lemma command_byte_inverse: "read_command b = Inr c \<longleftrightarrow> b = command_byte c"
  by (cases c) (auto simp: read_command_def)

lemma select_method_in:
  "select_method users ms \<noteq> 0xFF \<Longrightarrow>
     select_method users ms \<in> set ms \<and>
     select_method users ms = (if users = None then 0x00 else 0x02)"
  by (auto simp: select_method_def split: option.splits if_splits)

context byte_stream begin

lemma timed_read_Inr:
  "timed_read S n s = (Inr bs, s') \<Longrightarrow>
     length bs = n \<and> pending s = bs @ pending s' \<and> sent s' = sent s"
  unfolding timed_read_def by (rule io_timed_read_Inr)

lemma timed_read_sent: "timed_read S n s = (r, s') \<Longrightarrow> sent s' = sent s"
  unfolding timed_read_def by (rule io_timed_read_sent)

lemma negotiate_Inr:
  assumes "negotiate_method S users s = (Inr m, s')"
  shows "\<exists>ms. pending s = methods_wire ms @ pending s' \<and> length ms < 256 \<and> m \<in> set ms \<and>
    m = (if users = None then 0x00 else 0x02) \<and> sent s' = sent s @ [0x05, m]"
proof -
  from assms obtain header s1 ms s2 where
    1: "timed_read S 2 s = (Inr header, s1)" and v: "header ! 0 = 0x05" and
    2: "timed_read S (unat (header ! 1)) s1 = (Inr ms, s2)" and
    3: "io_write_all S [0x05, select_method users ms] s2 = (Inr (), s')" and
    ok: "select_method users ms \<noteq> 0xFF" "m = select_method users ms"
    by (auto simp: negotiate_method_def Let_def io_conv split: if_splits)
  from timed_read_Inr [OF 1] obtain n where
    h: "header = [0x05, n]" "pending s = header @ pending s1" "sent s1 = sent s"
    using v by (auto simp: length_eq_2)
  from timed_read_Inr [OF 2] h have
    m: "length ms = unat n" "pending s1 = ms @ pending s2" "sent s2 = sent s" by auto
  from io_write_Inr [OF 3] have "sent s' = sent s2 @ [0x05, m]" "pending s' = pending s2"
    by (simp_all add: ok)
  with h m select_method_in [OF ok(1)] unat_u8_less [of n] ok show ?thesis
    by (intro exI [of _ ms]) (auto simp: methods_wire_def split: if_splits)
qed

lemma authenticate_Inr:
  assumes "authenticate_user S users s = (Inr (), s')"
  shows "\<exists>user pass. verify_credentials user pass users \<and> rust_string user \<and> rust_string pass \<and>
    length user < 256 \<and> length pass < 256 \<and>
    pending s = auth_wire user pass @ pending s' \<and> sent s' = sent s @ [0x01, 0x00]"
proof -
  from assms obtain ver s1 ulen s2 ub s3 plen s4 pb s5 user pass where
    1: "timed_read S 1 s = (Inr ver, s1)" and v: "ver ! 0 = 0x01" and
    2: "timed_read S 1 s1 = (Inr ulen, s2)" and
    3: "timed_read S (unat (ulen ! 0)) s2 = (Inr ub, s3)" and
    4: "timed_read S 1 s3 = (Inr plen, s4)" and
    5: "timed_read S (unat (plen ! 0)) s4 = (Inr pb, s5)" and
    u: "from_utf8 ub = Some user" and p: "from_utf8 pb = Some pass" and
    ok: "verify_credentials user pass users" and
    6: "io_write_all S [0x01, 0x00] s5 = (Inr (), s')"
    by (auto simp: authenticate_user_def Let_def io_conv split: if_splits)
  from timed_read_Inr [OF 1] v have
    ver: "ver = [0x01]" "pending s = ver @ pending s1" "sent s1 = sent s"
    by (auto simp: length_Suc_conv)
  from timed_read_Inr [OF 2] obtain ul where
    ul: "ulen = [ul]" "pending s1 = ulen @ pending s2" "sent s2 = sent s1"
    by (auto simp: length_Suc_conv)
  from timed_read_Inr [OF 4] obtain pl where
    pl: "plen = [pl]" "pending s3 = plen @ pending s4" "sent s4 = sent s3"
    by (auto simp: length_Suc_conv)
  have ub: "ub = as_bytes user" "rust_string user" and pb: "pb = as_bytes pass" "rust_string pass"
    using u p by (auto simp: from_utf8_Some rust_string_def)
  from timed_read_Inr [OF 3] ul ub have
    us: "length user = unat ul" "pending s2 = as_bytes user @ pending s3" "sent s3 = sent s2" by auto
  from timed_read_Inr [OF 5] pl pb have
    ps: "length pass = unat pl" "pending s4 = as_bytes pass @ pending s5" "sent s5 = sent s4" by auto
  from io_write_Inr [OF 6] have "sent s' = sent s5 @ [0x01, 0x00]" "pending s' = pending s5"
    by simp_all
  with ver ul pl us ps ub pb ok unat_u8_less [of ul] unat_u8_less [of pl] show ?thesis
    by (intro exI [of _ user] exI [of _ pass]) (simp add: auth_wire_def)
qed

lemma read_port_Inr:
  assumes "read_port S s = (Inr p, s')"
  shows "pending s = to_be_bytes p @ pending s' \<and> sent s' = sent s"
proof -
  from assms obtain pb where pb: "timed_read S 2 s = (Inr pb, s')"
    and p: "p = from_be_bytes (pb ! 0) (pb ! 1)"
    by (auto simp: read_port_def io_conv)
  from timed_read_Inr [OF pb] p port_bytes [of pb] show ?thesis by simp
qed

lemma read_target_Inr:
  assumes "read_target S atyp s = (Inr t, s')"
  shows "atyp # pending s = target_wire t @ pending s' \<and> wf_target t \<and> short_target t \<and>
    sent s' = sent s"
proof -
  consider (v4) "atyp = 0x01" | (dom) "atyp = 0x03" | (v6) "atyp = 0x04"
    using assms by (auto simp: read_target_def split: if_splits)
  then show ?thesis
  proof cases
    case v4
    with assms obtain ip p s1 where "timed_read S 4 s = (Inr ip, s1)"
      "read_port S s1 = (Inr p, s')" "t = Ipv4 ip p"
      by (auto simp: read_target_def io_conv)
    with v4 show ?thesis by (auto dest!: timed_read_Inr read_port_Inr)
  next
    case dom
    with assms obtain l s1 db s2 p d where
      1: "timed_read S 1 s = (Inr l, s1)" and 2: "timed_read S (unat (l ! 0)) s1 = (Inr db, s2)" and
      3: "read_port S s2 = (Inr p, s')" and d: "from_utf8 db = Some d" and t: "t = Domain d p"
      by (auto simp: read_target_def io_conv)
    from timed_read_Inr [OF 1] obtain k where
      k: "l = [k]" "pending s = l @ pending s1" "sent s1 = sent s" by (auto simp: length_Suc_conv)
    from d have db: "db = as_bytes d" "rust_string d"
      by (auto simp: from_utf8_Some rust_string_def)
    from timed_read_Inr [OF 2] k db have
      "length d = unat k" "pending s1 = as_bytes d @ pending s2" "sent s2 = sent s" by auto
    with read_port_Inr [OF 3] k db dom t unat_u8_less [of k] show ?thesis by simp
  next
    case v6
    with assms obtain ip p s1 where "timed_read S 16 s = (Inr ip, s1)"
      "read_port S s1 = (Inr p, s')" "t = Ipv6 ip p"
      by (auto simp: read_target_def io_conv)
    with v6 show ?thesis by (auto dest!: timed_read_Inr read_port_Inr)
  qed
qed

lemma read_request_Inr:
  assumes "read_request S s = (Inr req, s')"
  shows "\<exists>rsv. pending s = request_wire rsv req @ pending s' \<and> wf_target (target req) \<and>
    short_target (target req) \<and> sent s' = sent s"
proof -
  from assms obtain header s1 c t where
    1: "timed_read S 4 s = (Inr header, s1)" and v: "header ! 0 = 0x05" and
    c: "read_command (header ! 1) = Inr c" and
    2: "read_target S (header ! 3) s1 = (Inr t, s')" and r: "req = \<lparr>command = c, target = t\<rparr>"
    by (auto simp: read_request_def io_conv split: if_splits)
  from timed_read_Inr [OF 1] v obtain k rsv a where
    h: "header = [0x05, k, rsv, a]" "pending s = header @ pending s1" "sent s1 = sent s"
    by (auto simp: length_eq_4)
  from read_target_Inr [OF 2] h c r show ?thesis
    by (intro exI [of _ rsv]) (auto simp: request_wire_def command_byte_inverse)
qed

end

section \<open>What a failed phase has sent\<close>

context byte_stream begin

text \<open>
  \<open>quiet m\<close>: nothing is written; \<open>err_sends W m\<close>: when \<open>m\<close> fails, it has written one of
  the texts \<open>W\<close>.
\<close>

definition quiet :: "('s, proxy_error, 'a) io \<Rightarrow> bool" where
  "quiet m \<longleftrightarrow> (\<forall>s r s'. m s = (r, s') \<longrightarrow> sent s' = sent s)"

definition err_sends :: "bytes set \<Rightarrow> ('s, proxy_error, 'a) io \<Rightarrow> bool" where
  "err_sends W m \<longleftrightarrow> (\<forall>s e s'. m s = (Inl e, s') \<longrightarrow> (\<exists>w \<in> W. sent s' = sent s @ w))"

lemma quiet_timed_read: "quiet (timed_read S n)"
  by (auto simp: quiet_def dest: timed_read_sent)

lemma quiet_lift_sum: "quiet (lift_sum r)"
  by (simp add: quiet_def)

lemma err_sends_bind:
  assumes "quiet m" "[] \<in> W" "\<And>x. err_sends W (k x)"
  shows "err_sends W (bind_io m k)"
  unfolding err_sends_def
proof (intro allI impI)
  fix s e s' assume "bind_io m k s = (Inl e, s')"
  then consider "m s = (Inl e, s')" | x s1 where "m s = (Inr x, s1)" "k x s1 = (Inl e, s')"
    by (auto simp: io_conv)
  then show "\<exists>w \<in> W. sent s' = sent s @ w"
  proof cases
    case 1
    with assms(1) have "sent s' = sent s @ []" by (simp add: quiet_def)
    with assms(2) show ?thesis by blast
  next
    case 2
    have "\<exists>w \<in> W. sent s' = sent s1 @ w"
      using assms(3) 2(2) unfolding err_sends_def by blast
    moreover have "sent s1 = sent s"
      using assms(1) 2(1) unfolding quiet_def by blast
    ultimately show ?thesis by simp
  qed
qed

lemma err_sends_raise: "[] \<in> W \<Longrightarrow> err_sends W (raise e)"
  by (auto simp: err_sends_def)

lemma err_sends_write:
  assumes "[] \<in> W" "[a] \<in> W" "b \<Longrightarrow> [a, c] \<in> W"
  shows "err_sends W (bind_io (io_write_all S [a, c]) (\<lambda>_. if b then raise e else ret y))"
  using assms
  by (auto simp: err_sends_def io_conv strict_prefix_def prefix_Cons
      dest!: io_write_Inl io_write_Inr split: if_splits)

lemmas err_sends_intros =
  err_sends_bind quiet_timed_read quiet_lift_sum err_sends_raise err_sends_write

lemma negotiate_err_sends: "err_sends {[], [0x05], [0x05, 0xFF]} (negotiate_method S users)"
  unfolding negotiate_method_def Let_def
  by (intro err_sends_intros conjI impI | simp)+

lemma authenticate_err_sends: "err_sends {[], [0x01], [0x01, 0x01]} (authenticate_user S users)"
  unfolding authenticate_user_def Let_def
  by (intro err_sends_intros conjI impI | simp)+

lemma negotiate_Inl:
  "negotiate_method S users s = (Inl e, s') \<Longrightarrow> \<exists>w \<in> {[], [0x05], [0x05, 0xFF]}. sent s' = sent s @ w"
  using negotiate_err_sends by (auto simp: err_sends_def)

lemma authenticate_Inl:
  "authenticate_user S users s = (Inl e, s') \<Longrightarrow> \<exists>w \<in> {[], [0x01], [0x01, 0x01]}. sent s' = sent s @ w"
  using authenticate_err_sends by (auto simp: err_sends_def)

lemma read_target_sent: "read_target S a s = (r, s') \<Longrightarrow> sent s' = sent s"
  by (cases r) (auto simp: read_target_def read_port_def io_conv dest!: timed_read_sent
      split: if_splits)

lemma read_request_sent: "read_request S s = (r, s') \<Longrightarrow> sent s' = sent s"
  by (cases r) (auto simp: read_request_def io_conv dest!: timed_read_sent read_target_sent
      split: if_splits)

end

section \<open>Progress\<close>

context live_stream begin

lemma timed_read_live:
  assumes "healthy s" "pending s = bs @ rest" "length bs = n"
  obtains s' where "timed_read S n s = (Inr bs, s')" "healthy s'" "pending s' = rest"
    "sent s' = sent s"
  using io_timed_live [OF assms, of handshake_timeout] unfolding timed_read_def by blast

lemma negotiate_live:
  assumes "healthy s" "pending s = methods_wire ms @ rest" "length ms < 256"
  shows "\<exists>s'. negotiate_method S users s =
      (if select_method users ms = 0xFF
       then Inl (Socks5 ''No acceptable authentication method'') else Inr (select_method users ms), s')
    \<and> healthy s' \<and> pending s' = rest \<and> sent s' = sent s @ [0x05, select_method users ms]"
proof -
  from assms have p: "pending s = [0x05, len_byte (length ms)] @ (ms @ rest)"
    by (simp add: methods_wire_def)
  obtain s1 where 1: "timed_read S 2 s = (Inr [0x05, len_byte (length ms)], s1)" "healthy s1"
    "pending s1 = ms @ rest" "sent s1 = sent s"
    using timed_read_live [OF assms(1) p, of 2] by auto
  obtain s2 where 2: "timed_read S (length ms) s1 = (Inr ms, s2)" "healthy s2"
    "pending s2 = rest" "sent s2 = sent s1"
    using timed_read_live [OF 1(2,3) refl] by auto
  obtain s3 where 3: "io_write_all S [0x05, select_method users ms] s2 = (Inr (), s3)" "healthy s3"
    "pending s3 = pending s2" "sent s3 = sent s2 @ [0x05, select_method users ms]"
    using io_write_live [OF 2(2)] by blast
  with 1 2 assms(3) show ?thesis
    by (intro exI [of _ s3]) (simp add: negotiate_method_def Let_def unat_len_byte)
qed

lemma authenticate_live:
  assumes "healthy s" "pending s = auth_wire user pass @ rest"
    and len: "length user < 256" "length pass < 256"
    and str: "rust_string user" "rust_string pass"
  shows "\<exists>s'. authenticate_user S users s =
      (if verify_credentials user pass users then Inr () else Inl (Socks5 ''Authentication failed''), s')
    \<and> healthy s' \<and> pending s' = rest
    \<and> sent s' = sent s @ [0x01, if verify_credentials user pass users then 0x00 else 0x01]"
proof -
  let ?u = "as_bytes user" and ?p = "as_bytes pass"
  let ?ul = "len_byte (length user)" and ?pl = "len_byte (length pass)"
  let ?st = "if verify_credentials user pass users then 0x00 else 0x01 :: u8"
  from assms(2) have p: "pending s = [0x01] @ ([?ul] @ (?u @ ([?pl] @ (?p @ rest))))"
    by (simp add: auth_wire_def)
  obtain s1 where 1: "timed_read S 1 s = (Inr [0x01], s1)" "healthy s1"
    "pending s1 = [?ul] @ (?u @ ([?pl] @ (?p @ rest)))" "sent s1 = sent s"
    using timed_read_live [OF assms(1) p, of 1] by auto
  obtain s2 where 2: "timed_read S 1 s1 = (Inr [?ul], s2)" "healthy s2"
    "pending s2 = ?u @ ([?pl] @ (?p @ rest))" "sent s2 = sent s1"
    using timed_read_live [OF 1(2,3), of 1] by auto
  obtain s3 where 3: "timed_read S (length user) s2 = (Inr ?u, s3)" "healthy s3"
    "pending s3 = [?pl] @ (?p @ rest)" "sent s3 = sent s2"
    using timed_read_live [OF 2(2,3), of "length user"] by auto
  obtain s4 where 4: "timed_read S 1 s3 = (Inr [?pl], s4)" "healthy s4"
    "pending s4 = ?p @ rest" "sent s4 = sent s3"
    using timed_read_live [OF 3(2,3), of 1] by auto
  obtain s5 where 5: "timed_read S (length pass) s4 = (Inr ?p, s5)" "healthy s5"
    "pending s5 = rest" "sent s5 = sent s4"
    using timed_read_live [OF 4(2,3), of "length pass"] by auto
  obtain s6 where 6: "io_write_all S [0x01, ?st] s5 = (Inr (), s6)" "healthy s6"
    "pending s6 = pending s5" "sent s6 = sent s5 @ [0x01, ?st]"
    using io_write_live [OF 5(2)] by blast
  from 1 2 3 4 5 6 show ?thesis
    by (intro exI [of _ s6])
      (simp add: authenticate_user_def Let_def unat_len_byte len from_utf8_as_bytes str)
qed

lemma read_port_live:
  assumes "healthy s" "pending s = to_be_bytes p @ rest"
  obtains s' where "read_port S s = (Inr p, s')" "healthy s'" "pending s' = rest" "sent s' = sent s"
proof -
  obtain s1 where "timed_read S 2 s = (Inr (to_be_bytes p), s1)" "healthy s1"
    "pending s1 = rest" "sent s1 = sent s"
    using timed_read_live [OF assms, of 2] by auto
  with from_to_be_bytes [of p] show thesis by (intro that [of s1]) (simp_all add: read_port_def)
qed

lemma read_target_live:
  assumes "healthy s" "a # pending s = target_wire t @ rest" "wf_target t" "short_target t"
  obtains s' where "read_target S a s = (Inr t, s')" "healthy s'" "pending s' = rest"
    "sent s' = sent s"
proof (cases t)
  case (Ipv4 ip p)
  with assms have a: "a = 0x01" and pd: "pending s = ip @ (to_be_bytes p @ rest)"
    and l: "length ip = 4" by auto
  obtain s1 where 1: "timed_read S 4 s = (Inr ip, s1)" "healthy s1"
    "pending s1 = to_be_bytes p @ rest" "sent s1 = sent s"
    using timed_read_live [OF assms(1) pd l] .
  obtain s2 where "read_port S s1 = (Inr p, s2)" "healthy s2" "pending s2 = rest" "sent s2 = sent s1"
    using read_port_live [OF 1(2,3)] .
  with 1 a Ipv4 show thesis by (intro that [of s2]) (simp_all add: read_target_def)
next
  case (Domain d p)
  let ?l = "len_byte (length d)"
  from Domain assms have a: "a = 0x03"
    and pd: "pending s = [?l] @ (as_bytes d @ (to_be_bytes p @ rest))"
    and d: "rust_string d" "length d < 256" by auto
  obtain s1 where 1: "timed_read S 1 s = (Inr [?l], s1)" "healthy s1"
    "pending s1 = as_bytes d @ (to_be_bytes p @ rest)" "sent s1 = sent s"
    using timed_read_live [OF assms(1) pd, of 1] by auto
  obtain s2 where 2: "timed_read S (length d) s1 = (Inr (as_bytes d), s2)" "healthy s2"
    "pending s2 = to_be_bytes p @ rest" "sent s2 = sent s1"
    using timed_read_live [OF 1(2,3), of "length d"] by auto
  obtain s3 where "read_port S s2 = (Inr p, s3)" "healthy s3" "pending s3 = rest" "sent s3 = sent s2"
    using read_port_live [OF 2(2,3)] .
  with 1 2 a d Domain show thesis
    by (intro that [of s3]) (simp_all add: read_target_def unat_len_byte from_utf8_as_bytes)
next
  case (Ipv6 ip p)
  with assms have a: "a = 0x04" and pd: "pending s = ip @ (to_be_bytes p @ rest)"
    and l: "length ip = 16" by auto
  obtain s1 where 1: "timed_read S 16 s = (Inr ip, s1)" "healthy s1"
    "pending s1 = to_be_bytes p @ rest" "sent s1 = sent s"
    using timed_read_live [OF assms(1) pd l] .
  obtain s2 where "read_port S s1 = (Inr p, s2)" "healthy s2" "pending s2 = rest" "sent s2 = sent s1"
    using read_port_live [OF 1(2,3)] .
  with 1 a Ipv6 show thesis by (intro that [of s2]) (simp_all add: read_target_def)
qed

lemma target_wire_Cons: "target_wire t = hd (target_wire t) # tl (target_wire t)"
  by (cases t) simp_all

lemma read_request_live:
  assumes "healthy s" "pending s = request_wire rsv req @ rest"
    and "wf_target (target req)" "short_target (target req)"
  shows "\<exists>s'. read_request S s = (Inr req, s') \<and> healthy s' \<and> pending s' = rest \<and> sent s' = sent s"
proof -
  let ?a = "hd (target_wire (target req))" and ?tl = "tl (target_wire (target req))"
  from assms(2) have p: "pending s = [0x05, command_byte (command req), rsv, ?a] @ (?tl @ rest)"
    using target_wire_Cons [of "target req"] by (simp add: request_wire_def)
  obtain s1 where 1: "timed_read S 4 s = (Inr [0x05, command_byte (command req), rsv, ?a], s1)"
    "healthy s1" "pending s1 = ?tl @ rest" "sent s1 = sent s"
    using timed_read_live [OF assms(1) p, of 4] by auto
  have "?a # pending s1 = target_wire (target req) @ rest"
    using 1(3) target_wire_Cons [of "target req"] by (metis append_Cons)
  then obtain s2 where "read_target S ?a s1 = (Inr (target req), s2)" "healthy s2"
    "pending s2 = rest" "sent s2 = sent s1"
    using read_target_live [OF 1(2) _ assms(3,4)] by blast
  with 1 show ?thesis
    by (intro exI [of _ s2]) (simp add: read_request_def command_byte_inverse [THEN iffD2])
qed

end

section \<open>Waiting time\<close>

context timed_stream begin

text \<open>\<open>costs k m\<close>: \<open>m\<close> waits for the peer for at most \<open>k\<close> timer periods.\<close>

definition costs :: "nat \<Rightarrow> ('s, 'e, 'a) io \<Rightarrow> bool" where
  "costs k m \<longleftrightarrow> (\<forall>s. waited (snd (m s)) \<le> waited s + k * handshake_timeout)"

lemma costs_weaken: "costs k m \<Longrightarrow> k \<le> l \<Longrightarrow> costs l m"
  by (auto simp: costs_def) (meson add_left_mono le_trans mult_le_mono1)

lemma costs_timed_read: "costs 1 (timed_read S n)"
  by (auto simp: costs_def timed_read_def intro: io_timed_wait [OF prod.collapse [symmetric], simplified])

lemma costs_write: "costs 0 (io_write_all S bs)"
  by (auto simp: costs_def) (metis io_write_wait order_refl prod.collapse)

lemma costs_pure: "costs 0 (ret x)" "costs 0 (raise e)" "costs 0 (lift_sum r)"
  by (simp_all add: costs_def)

lemma costs_bind:
  assumes "costs j m" "\<And>x. costs k (f x)"
  shows "costs (j + k) (bind_io m f)"
  unfolding costs_def
proof
  fix s
  show "waited (snd (bind_io m f s)) \<le> waited s + (j + k) * handshake_timeout"
  proof (cases "m s")
    case (Pair r s1)
    then have 1: "waited s1 \<le> waited s + j * handshake_timeout"
      using assms(1) by (metis costs_def snd_conv)
    show ?thesis
    proof (cases r)
      case (Inl e)
      with Pair 1 show ?thesis by (simp add: algebra_simps)
    next
      case (Inr x)
      have "waited (snd (f x s1)) \<le> waited s1 + k * handshake_timeout"
        using assms(2) by (simp add: costs_def)
      with Pair Inr 1 show ?thesis by (simp add: algebra_simps)
    qed
  qed
qed

lemma costs_if: "costs k m \<Longrightarrow> costs k n \<Longrightarrow> costs k (if b then m else n)"
  by simp

lemma negotiate_costs: "costs 2 (negotiate_method S users)"
proof -
  have "costs (1 + (1 + (0 + 0))) (negotiate_method S users)"
    unfolding negotiate_method_def Let_def
    by (intro costs_bind costs_timed_read costs_if costs_write costs_pure
        costs_weaken [OF costs_pure(2)]) simp_all
  then show ?thesis by (simp add: numeral_2_eq_2)
qed

lemma authenticate_costs: "costs 5 (authenticate_user S users)"
proof -
  have "costs (1 + (1 + (1 + (1 + (1 + (0 + (0 + (0 + 0)))))))) (authenticate_user S users)"
    unfolding authenticate_user_def Let_def
    by (intro costs_bind costs_timed_read costs_if costs_write costs_pure
        costs_weaken [OF costs_pure(2)]) simp_all
  then show ?thesis by (simp add: eval_nat_numeral)
qed

lemma read_port_costs: "costs 1 (read_port S)"
proof -
  have "costs (1 + 0) (read_port S)"
    unfolding read_port_def by (intro costs_bind costs_timed_read costs_pure)
  then show ?thesis by simp
qed

lemma read_target_costs: "costs 3 (read_target S a)"
proof -
  have "costs (1 + (1 + 0)) (bind_io (timed_read S n) (\<lambda>x. bind_io (read_port S) (\<lambda>y. ret (f x y))))"
    for n and f :: "bytes \<Rightarrow> u16 \<Rightarrow> target_addr"
    by (intro costs_bind costs_timed_read read_port_costs costs_pure)
  then have fixed: "costs 3 (bind_io (timed_read S n) (\<lambda>x. bind_io (read_port S) (\<lambda>y. ret (f x y))))"
    for n and f :: "bytes \<Rightarrow> u16 \<Rightarrow> target_addr"
    by (rule costs_weaken) simp
  have "costs (1 + (1 + (1 + (0 + 0)))) (bind_io (timed_read S 1) (\<lambda>len.
        bind_io (timed_read S (unat (len ! 0))) (\<lambda>domain.
        bind_io (read_port S) (\<lambda>port.
        bind_io (lift_sum (ok_or (Socks5 ''Invalid domain encoding'') (from_utf8 domain)))
          (\<lambda>domain_str. ret (Domain domain_str port))))))"
    by (intro costs_bind costs_timed_read read_port_costs costs_pure)
  then show ?thesis
    unfolding read_target_def
    by (intro costs_if fixed costs_weaken [OF costs_pure(2)]) (simp_all add: numeral_3_eq_3)
qed

lemma read_request_costs: "costs 4 (read_request S)"
proof -
  have "costs (1 + (0 + (3 + 0))) (read_request S)"
    unfolding read_request_def
    by (intro costs_bind costs_timed_read costs_if costs_pure read_target_costs
        costs_weaken [OF costs_pure(2)]) simp_all
  then show ?thesis by simp
qed

lemma send_reply_costs: "costs 0 (send_reply S rep req)"
  unfolding send_reply_def by (rule costs_write)

end

end
