(* ===== verification/Udp_Packet.thy ===== *)
theory Udp_Packet
  imports Socks_Handshake
begin

text \<open>
  The pure parts of \<open>src/protocol/socks5/udp_associate.rs\<close>: parsing and building the
  datagrams of the relay, the reply that names the relay's address, and resolving a target.
  \<open>lookup_host\<close> is tokio's resolver, an argument.
\<close>

section \<open>Parsing\<close>

text \<open>
  The address and the offset after it; \<open>data\<close> has at least seven bytes here, and byte 3 is the
  address type.  Every index is below the length that was checked before it.
\<close>

definition parse_udp_target :: "bytes \<Rightarrow> proxy_error + (target_addr \<times> nat)" where
  "parse_udp_target data =
     (let atyp = data ! 3; off = 4 in
      if atyp = 0x01 then
        (if length data < off + 6 then Inl (Socks5 ''IPv4 address incomplete'')
         else Inr (Ipv4 [data ! off, data ! (off + 1), data ! (off + 2), data ! (off + 3)]
                 (from_be_bytes (data ! (off + 4)) (data ! (off + 5))), off + 6))
      else if atyp = 0x03 then
        (if length data < off + 1 then Inl (Socks5 ''Domain length missing'')
         else
           (let len = unat (data ! off); off1 = off + 1 in
            if length data < off1 + len + 2 then Inl (Socks5 ''Domain name incomplete'')
            else
              (case ok_or (Socks5 ''Invalid domain encoding'') (from_utf8 (take len (drop off1 data))) of
                 Inl e \<Rightarrow> Inl e
               | Inr domain \<Rightarrow>
                   (let off2 = off1 + len in
                    Inr (Domain domain (from_be_bytes (data ! off2) (data ! (off2 + 1))), off2 + 2)))))
      else if atyp = 0x04 then
        (if length data < off + 18 then Inl (Socks5 ''IPv6 address incomplete'')
         else Inr (Ipv6 (take 16 (drop off data))
                 (from_be_bytes (data ! (off + 16)) (data ! (off + 17))), off + 18))
      else Inl (Socks5 (''Unknown address type: '' @ dec (unat atyp))))"

definition parse_socks5_udp_packet :: "bytes \<Rightarrow> proxy_error + (target_addr \<times> bytes)" where
  "parse_socks5_udp_packet data =
     (if length data < 7 then Inl (Socks5 ''UDP packet too short'')
      else if data ! 0 \<noteq> 0x00 \<or> data ! 1 \<noteq> 0x00 then Inl (Socks5 ''Invalid RSV field'')
      else if data ! 2 \<noteq> 0x00 then Inl (Socks5 ''Fragmentation not supported'')
      else
        (case parse_udp_target data of
           Inl e \<Rightarrow> Inl e
         | Inr (target_addr, offset) \<Rightarrow> Inr (target_addr, drop offset data)))"

section \<open>Building\<close>

text \<open>\<open>domain.len() as u8\<close> keeps the low eight bits of the length.\<close>

definition build_socks5_udp_response :: "target_addr \<Rightarrow> bytes \<Rightarrow> bytes" where
  "build_socks5_udp_response source_addr payload =
     [0x00, 0x00] @ [0x00] @
     (case source_addr of
        Ipv4 ip port \<Rightarrow> [0x01] @ ip @ to_be_bytes port
      | Domain domain port \<Rightarrow>
          [0x03] @ [of_nat (length domain)] @ as_bytes domain @ to_be_bytes port
      | Ipv6 ip port \<Rightarrow> [0x04] @ ip @ to_be_bytes port) @
     payload"

definition send_udp_reply :: "'s stream_ops \<Rightarrow> u8 \<Rightarrow> socket_addr \<Rightarrow> ('s, unit) proxy_io" where
  "send_udp_reply S rep addr =
     io_write_all S
       ([0x05, rep, 0x00] @
        (case addr of
           SockV4 ip port \<Rightarrow> [0x01] @ ip @ to_be_bytes port
         | SockV6 ip port \<Rightarrow> [0x04] @ ip @ to_be_bytes port))"

definition resolve_target_addr ::
  "(string \<Rightarrow> string + socket_addr list) \<Rightarrow> target_addr \<Rightarrow> proxy_error + socket_addr"
where
  "resolve_target_addr lookup_host tgt =
     (case tgt of
        Ipv4 ip port \<Rightarrow> Inr (SockV4 ip port)
      | Ipv6 ip port \<Rightarrow> Inr (SockV6 ip port)
      | Domain domain port \<Rightarrow>
          (case map_err Io (lookup_host (domain @ '':'' @ show_u16 port)) of
             Inl e \<Rightarrow> Inl e
           | Inr addrs \<Rightarrow>
               ok_or (Socks5 (''Failed to resolve domain: '' @ domain))
                 (case addrs of [] \<Rightarrow> None | a # _ \<Rightarrow> Some a)))"

section \<open>Facts\<close>

lemma build_eq: "build_socks5_udp_response t payload = [0x00, 0x00, 0x00] @ target_wire t @ payload"
  by (cases t) (simp_all add: build_socks5_udp_response_def len_byte_def)

lemma take_Suc_drop: "i < length xs \<Longrightarrow> take (Suc n) (drop i xs) = xs ! i # take n (drop (Suc i) xs)"
  by (metis Cons_nth_drop_Suc take_Suc_Cons)

lemma drop_2_Cons: "Suc i < length xs \<Longrightarrow> drop i xs = xs ! i # xs ! Suc i # drop (Suc (Suc i)) xs"
  by (simp add: Cons_nth_drop_Suc)

lemma drop_port:
  assumes "i + 2 \<le> length data"
  shows "drop i data = to_be_bytes (from_be_bytes (data ! i) (data ! Suc i)) @ drop (i + 2) data"
  using assms drop_2_Cons [of i data] by (simp add: to_be_from_be)

lemma drop_split: "drop i xs = take n (drop i xs) @ drop (i + n) xs"
  by (metis append_take_drop_id drop_drop add.commute)

text \<open>The header before the address type.\<close>

lemma udp_header:
  assumes "7 \<le> length data"
  shows "data = [data ! 0, data ! 1, data ! 2, data ! 3] @ drop 4 data"
proof -
  have "data = take 4 data @ drop 4 data" by simp
  also have "take 4 data = [data ! 0, data ! 1, data ! 2, data ! 3]"
    using assms by (intro nth_equalityI) (auto simp: less_Suc_eq numeral_eq_Suc)
  finally show ?thesis .
qed

lemma parse_udp_target_Inr:
  assumes "7 \<le> length data" and "parse_udp_target data = Inr (t, off)"
  shows "data ! 3 # drop 4 data = target_wire t @ drop off data \<and> wf_target t \<and> short_target t"
proof -
  consider (v4) "data ! 3 = 0x01" | (dom) "data ! 3 = 0x03" | (v6) "data ! 3 = 0x04"
    using assms(2) by (auto simp: parse_udp_target_def Let_def split: if_splits)
  then show ?thesis
  proof cases
    case v4
    with assms have l: "10 \<le> length data" and t: "t = Ipv4 [data ! 4, data ! 5, data ! 6, data ! 7]
        (from_be_bytes (data ! 8) (data ! 9))" "off = 10"
      by (auto simp: parse_udp_target_def Let_def split: if_splits)
    have "drop 4 data = [data ! 4, data ! 5, data ! 6, data ! 7] @ drop 8 data"
      using drop_2_Cons [of 4 data] drop_2_Cons [of 6 data] l by simp
    moreover have "drop 8 data = to_be_bytes (from_be_bytes (data ! 8) (data ! 9)) @ drop 10 data"
      using drop_port [of 8 data] l by simp
    ultimately show ?thesis using v4 t by simp
  next
    case dom
    let ?len = "unat (data ! 4)"
    from dom assms obtain d where l: "5 + ?len + 2 \<le> length data"
      and d: "from_utf8 (take ?len (drop 5 data)) = Some d"
      and t: "t = Domain d (from_be_bytes (data ! (5 + ?len)) (data ! (6 + ?len)))" "off = 7 + ?len"
      by (auto simp: parse_udp_target_def Let_def split: if_splits sum.splits)
    have b: "take ?len (drop 5 data) = as_bytes d" "rust_string d"
      using d by (auto simp: from_utf8_Some rust_string_def)
    then have "length d = ?len" using l by (metis length_as_bytes length_take length_drop min_absorb2 add_leD1 le_diff_conv2 add.commute)
    moreover have "drop 4 data = data ! 4 # drop 5 data"
      using l Cons_nth_drop_Suc [of 4 data] by simp
    moreover have "drop 5 data = as_bytes d @ drop (5 + ?len) data"
      using drop_split [of 5 data ?len] b by simp
    moreover have "drop (5 + ?len) data = to_be_bytes (from_be_bytes (data ! (5 + ?len)) (data ! (6 + ?len))) @ drop off data"
      using drop_port [of "5 + ?len" data] l t(2) by (simp add: add.commute)
    ultimately show ?thesis using dom t(1) b unat_u8_less [of "data ! 4"] by simp
  next
    case v6
    with assms have l: "22 \<le> length data" and t: "t = Ipv6 (take 16 (drop 4 data))
        (from_be_bytes (data ! 20) (data ! 21))" "off = 22"
      by (auto simp: parse_udp_target_def Let_def split: if_splits)
    have "drop 20 data = to_be_bytes (from_be_bytes (data ! 20) (data ! 21)) @ drop 22 data"
      using drop_port [of 20 data] l by simp
    moreover have "drop 4 data = take 16 (drop 4 data) @ drop 20 data"
      using drop_split [of 4 data 16] by simp
    ultimately show ?thesis using v6 t l by simp
  qed
qed

lemma parse_Inr:
  assumes "parse_socks5_udp_packet data = Inr (t, payload)"
  shows "data = build_socks5_udp_response t payload \<and> wf_target t \<and> short_target t"
proof -
  from assms obtain off where l: "7 \<le> length data" and z: "data ! 0 = 0" "data ! 1 = 0" "data ! 2 = 0"
    and t: "parse_udp_target data = Inr (t, off)" "payload = drop off data"
    by (auto simp: parse_socks5_udp_packet_def split: if_splits sum.splits)
  from parse_udp_target_Inr [OF l t(1)] udp_header [OF l] z t(2) show ?thesis
    by (simp add: build_eq)
qed

lemma parse_build:
  assumes "wf_target t" "short_target t"
  shows "parse_socks5_udp_packet (build_socks5_udp_response t payload) = Inr (t, payload)"
proof (cases t)
  case (Ipv4 ip p)
  with assms obtain a b c d where "ip = [a, b, c, d]" by (auto simp: length_eq_4)
  with Ipv4 show ?thesis
    by (simp add: build_eq parse_socks5_udp_packet_def parse_udp_target_def Let_def to_be_bytes_def)
next
  case (Domain d p)
  with assms have "unat (len_byte (length d)) = length d" and "from_utf8 (as_bytes d) = Some d"
    by (simp_all add: unat_len_byte from_utf8_as_bytes)
  moreover have "drop (7 + length d) (a # b # c # e # f # xs) = drop (2 + length d) xs" for a b c e f :: u8 and xs
    by (simp add: numeral_eq_Suc)
  ultimately show ?thesis using Domain
    by (simp add: build_eq parse_socks5_udp_packet_def parse_udp_target_def Let_def to_be_bytes_def
        nth_append)
next
  case (Ipv6 ip p)
  with assms show ?thesis
    by (simp add: build_eq parse_socks5_udp_packet_def parse_udp_target_def Let_def to_be_bytes_def
        nth_append)
qed

lemma parse_iff:
  "parse_socks5_udp_packet data = Inr (t, payload) \<longleftrightarrow>
     data = build_socks5_udp_response t payload \<and> wf_target t \<and> short_target t"
  using parse_Inr parse_build by blast

end
