(* ===== verification/Transitions.thy ===== *)
theory Transitions
  imports Prelude
begin

text \<open>
  Transition systems and their runs: what the server's life and the UDP relay have in common.
  A component gives its step and its runs over lists of events; it gets induction over runs
  for invariants, composition of runs, and a bound on their length from a measure.
\<close>

locale transitions =
  fixes step :: "'s \<Rightarrow> 'e \<Rightarrow> 's \<Rightarrow> bool"
    and run :: "'s \<Rightarrow> 'e list \<Rightarrow> 's \<Rightarrow> bool"
  assumes run_Nil: "run s [] s' \<longleftrightarrow> s' = s"
    and run_Cons: "run s (e # es) s' \<longleftrightarrow> (\<exists>s1. step s e s1 \<and> run s1 es s')"
begin

lemma run_append: "run s (es @ fs) s' \<longleftrightarrow> (\<exists>s1. run s es s1 \<and> run s1 fs s')"
  by (induction es arbitrary: s) (auto simp: run_Nil run_Cons)

lemma run_single: "run s [e] s' \<longleftrightarrow> step s e s'"
  by (simp add: run_Nil run_Cons)

lemma run_keeps:
  assumes "run s es s'" "P s" "\<And>s e s'. step s e s' \<Longrightarrow> P s \<Longrightarrow> P s'"
  shows "P s'"
  using assms by (induction es arbitrary: s) (auto simp: run_Nil run_Cons)

text \<open>Invariants of the runs whose events are all of one kind.\<close>

lemma run_keeps_if:
  assumes "run s es s'" "P s" "\<forall>e \<in> set es. Q e" "\<And>s e s'. step s e s' \<Longrightarrow> Q e \<Longrightarrow> P s \<Longrightarrow> P s'"
  shows "P s'"
  using assms by (induction es arbitrary: s) (auto simp: run_Nil run_Cons)

text \<open>What grows with every step.\<close>

lemma run_mono:
  fixes f :: "'s \<Rightarrow> 'a :: order"
  assumes "run s es s'" "\<And>s e s'. step s e s' \<Longrightarrow> f s \<le> f s'"
  shows "f s \<le> f s'"
  using assms(1)
proof (induction es arbitrary: s)
  case Nil
  then show ?case by (simp add: run_Nil)
next
  case (Cons e es)
  then obtain s1 where "step s e s1" "run s1 es s'" by (auto simp: run_Cons)
  with assms(2) Cons.IH show ?case by (meson order_trans)
qed

text \<open>A measure that every step decreases bounds the length of every run.\<close>

lemma run_length:
  fixes f :: "'s \<Rightarrow> nat"
  assumes "run s es s'" "P s" "\<And>s e s'. step s e s' \<Longrightarrow> P s \<Longrightarrow> P s' \<and> f s' < f s"
  shows "P s' \<and> length es + f s' \<le> f s"
  using assms(1,2)
proof (induction es arbitrary: s)
  case Nil
  then show ?case by (simp add: run_Nil)
next
  case (Cons e es)
  then obtain s1 where "step s e s1" "run s1 es s'" by (auto simp: run_Cons)
  with assms(3) [of s e s1] Cons.IH [of s1] Cons.prems(2) show ?case by fastforce
qed

end

text \<open>
  Refinement: an abstraction under which every step of a concrete system, from a state that
  satisfies its invariant, is a run of the abstract one over the events the step stands for.
\<close>

locale refines =
  conc: transitions cstep crun + abst: transitions astep arun
  for cstep :: "'c \<Rightarrow> 'e \<Rightarrow> 'c \<Rightarrow> bool" and crun
    and astep :: "'a \<Rightarrow> 'f \<Rightarrow> 'a \<Rightarrow> bool" and arun +
  fixes inv :: "'c \<Rightarrow> bool"
    and abs :: "'c \<Rightarrow> 'a"
    and events :: "'e \<Rightarrow> 'f list"
  assumes inv_step: "cstep s e s' \<Longrightarrow> inv s \<Longrightarrow> inv s'"
    and simulates: "cstep s e s' \<Longrightarrow> inv s \<Longrightarrow> arun (abs s) (events e) (abs s')"
begin

theorem run_refines:
  "crun s es s' \<Longrightarrow> inv s \<Longrightarrow> inv s' \<and> arun (abs s) (concat (map events es)) (abs s')"
proof (induction es arbitrary: s)
  case Nil
  then show ?case by (simp add: conc.run_Nil abst.run_Nil)
next
  case (Cons e es)
  then obtain s1 where s1: "cstep s e s1" "crun s1 es s'" by (auto simp: conc.run_Cons)
  with Cons.IH [of s1] Cons.prems(2) have
    "inv s'" "arun (abs s1) (concat (map events es)) (abs s')" by (auto dest: inv_step)
  with simulates [OF s1(1) Cons.prems(2)] show ?case by (auto simp: abst.run_append)
qed

end

end
