(* ===== verification/Udp_Relay.thy ===== *)
theory Udp_Relay
  imports Udp_Packet Transitions
begin

text \<open>
  The concurrent part of \<open>src/protocol/socks5/udp_associate.rs\<close>: the relay loop, one task per
  datagram it receives (\<open>handle_udp_packet\<close>), one listener per target socket
  (\<open>listen_for_responses\<close>), and the map they share.  An event is what one of them does between
  two of its await points, with the outcome of the system call it was waiting for; the
  scheduler and the network choose the events, so a run is any sequence of enabled events.

  A target socket is the number of the bind that created it.  \<open>bound\<close>, \<open>local_addrs\<close>,
  \<open>received\<close>, \<open>to_targets\<close> and \<open>to_clients\<close> are logs: the client each socket was bound for, the
  address it was bound to, the datagrams the relay socket received, and those sent from target
  sockets and to clients.
\<close>

section \<open>State and events\<close>

text \<open>
  A task before it has run, waiting for its \<open>bind\<close> after it found no socket for its client,
  and with a socket, waiting for the resolver and its \<open>send_to\<close>.
\<close>

datatype udp_task =
    Task_Start bytes socket_addr
  | Task_Bind target_addr bytes socket_addr
  | Task_Send nat target_addr bytes socket_addr

record listener =
  target_socket :: nat
  client_addr :: socket_addr
  target_label :: target_addr

record relay =
  running :: bool
  client_map :: "socket_addr \<Rightarrow> nat option"
  tasks :: "udp_task list"
  listeners :: "listener list"
  bound :: "socket_addr list"
  local_addrs :: "socket_addr list"
  received :: "(bytes \<times> socket_addr) list"
  to_targets :: "(nat \<times> socket_addr \<times> bytes) list"
  to_clients :: "(nat \<times> socket_addr \<times> bytes) list"

datatype relay_event =
    Tcp_Data
  | Tcp_Closed
  | Udp_Recv bytes socket_addr
  | Udp_Recv_Error
  | Task_Run nat
  | Bind_Ok nat
  | Bind_Error nat string
  | Send_Ok nat
  | Send_Error nat string
  | Response nat bytes socket_addr
  | Response_Send_Error nat bytes socket_addr
  | Target_Recv_Error nat

type_synonym resolver = "string \<Rightarrow> string + socket_addr list"

definition relay_init :: relay where
  "relay_init = \<lparr>running = True, client_map = (\<lambda>_. None), tasks = [], listeners = [], bound = [],
     local_addrs = [], received = [], to_targets = [], to_clients = []\<rparr>"

definition drop_nth :: "nat \<Rightarrow> 'a list \<Rightarrow> 'a list" where
  "drop_nth i xs = take i xs @ drop (Suc i) xs"

definition end_task :: "nat \<Rightarrow> relay \<Rightarrow> relay" where
  "end_task i s = s\<lparr>tasks := drop_nth i (tasks s)\<rparr>"

definition set_task :: "nat \<Rightarrow> udp_task \<Rightarrow> relay \<Rightarrow> relay" where
  "set_task i t s = s\<lparr>tasks := (tasks s)[i := t]\<rparr>"

section \<open>The loop\<close>

text \<open>
  One iteration of \<open>relay_loop\<close>: a byte on the control channel is ignored, its end or an error
  of the relay socket stops the loop, a datagram is given to a new task.
\<close>

fun loop_event :: "relay_event \<Rightarrow> relay \<Rightarrow> relay option" where
  "loop_event Tcp_Data s = (if running s then Some s else None)"
| "loop_event Tcp_Closed s = (if running s then Some (s\<lparr>running := False\<rparr>) else None)"
| "loop_event Udp_Recv_Error s = (if running s then Some (s\<lparr>running := False\<rparr>) else None)"
| "loop_event (Udp_Recv data from_addr) s =
     (if running s \<and> length data \<le> 65535
      then Some (s\<lparr>tasks := tasks s @ [Task_Start data from_addr],
                   received := received s @ [(data, from_addr)]\<rparr>)
      else None)"
| "loop_event _ s = None"

section \<open>One datagram\<close>

text \<open>
  \<open>handle_udp_packet\<close>: parse, look the client up, bind and register a socket for it when there
  is none (with a listener that keeps the target of \<open>this\<close> datagram), then resolve and send.
\<close>

fun start_task :: "nat \<Rightarrow> bytes \<Rightarrow> socket_addr \<Rightarrow> relay \<Rightarrow> relay" where
  "start_task i data client s =
     (case parse_socks5_udp_packet data of
        Inl e \<Rightarrow> end_task i s
      | Inr (target_addr, payload) \<Rightarrow>
          (case client_map s client of
             Some socket \<Rightarrow> set_task i (Task_Send socket target_addr payload client) s
           | None \<Rightarrow> set_task i (Task_Bind target_addr payload client) s))"

text \<open>\<open>0.0.0.0:0\<close>: any port, of IPv4.\<close>

definition target_bind_addr :: socket_addr where
  "target_bind_addr = SockV4 [0, 0, 0, 0] 0"

fun bound_task :: "nat \<Rightarrow> target_addr \<Rightarrow> bytes \<Rightarrow> socket_addr \<Rightarrow> relay \<Rightarrow> relay" where
  "bound_task i target_addr payload client s =
     (let socket = length (bound s) in
      set_task i (Task_Send socket target_addr payload client)
        (s\<lparr>bound := bound s @ [client],
           local_addrs := local_addrs s @ [target_bind_addr],
           client_map := (client_map s)(client := Some socket),
           listeners := listeners s @
             [\<lparr>target_socket = socket, client_addr = client, target_label = target_addr\<rparr>]\<rparr>))"

text \<open>
  The send; an error of the resolver ends the task before it.
\<close>

fun send_task :: "resolver \<Rightarrow> nat \<Rightarrow> nat \<Rightarrow> target_addr \<Rightarrow> bytes \<Rightarrow> relay \<Rightarrow> relay" where
  "send_task L i socket target_addr payload s =
     (case resolve_target_addr L target_addr of
        Inl e \<Rightarrow> end_task i s
      | Inr addr \<Rightarrow> end_task i (s\<lparr>to_targets := to_targets s @ [(socket, addr, payload)]\<rparr>))"

text \<open>
  A socket sends to addresses of its own family only, to others the system call fails.  An error
  of the resolver comes before the call.
\<close>

fun same_family :: "socket_addr \<Rightarrow> socket_addr \<Rightarrow> bool" where
  "same_family (SockV4 ip port) (SockV4 ip' port') \<longleftrightarrow> True"
| "same_family (SockV6 ip port) (SockV6 ip' port') \<longleftrightarrow> True"
| "same_family _ _ \<longleftrightarrow> False"

definition can_send :: "resolver \<Rightarrow> socket_addr \<Rightarrow> target_addr \<Rightarrow> bool" where
  "can_send L local_addr target_addr \<longleftrightarrow>
     (case resolve_target_addr L target_addr of Inl e \<Rightarrow> True | Inr addr \<Rightarrow> same_family local_addr addr)"

definition task_event :: "resolver \<Rightarrow> relay_event \<Rightarrow> nat \<Rightarrow> relay \<Rightarrow> relay option" where
  "task_event L ev i s =
     (if length (tasks s) \<le> i then None
      else
        (case (ev, tasks s ! i) of
           (Task_Run _, Task_Start data client) \<Rightarrow> Some (start_task i data client s)
         | (Bind_Ok _, Task_Bind t p client) \<Rightarrow> Some (bound_task i t p client s)
         | (Bind_Error _ e, Task_Bind t p client) \<Rightarrow> Some (end_task i s)
         | (Send_Ok _, Task_Send k t p client) \<Rightarrow>
             if can_send L (local_addrs s ! k) t then Some (send_task L i k t p s) else None
         | (Send_Error _ e, Task_Send k t p client) \<Rightarrow> Some (end_task i s)
         | _ \<Rightarrow> None))"

section \<open>Responses\<close>

text \<open>
  \<open>listen_for_responses\<close>: a datagram that arrives at the target socket, from whatever address,
  is sent to the client under the label of the listener; an error of the socket or of the send
  ends the listener and removes the client from the map.
\<close>

definition end_listener :: "nat \<Rightarrow> relay \<Rightarrow> relay" where
  "end_listener j s =
     s\<lparr>listeners := drop_nth j (listeners s),
       client_map := (client_map s)(client_addr (listeners s ! j) := None)\<rparr>"

definition forward_response :: "nat \<Rightarrow> bytes \<Rightarrow> relay \<Rightarrow> relay" where
  "forward_response j payload s =
     (let l = listeners s ! j in
      s\<lparr>to_clients := to_clients s @
          [(target_socket l, client_addr l, build_socks5_udp_response (target_label l) payload)]\<rparr>)"

fun listener_event :: "relay_event \<Rightarrow> relay \<Rightarrow> relay option" where
  "listener_event (Response j payload response_from) s =
     (if j < length (listeners s) \<and> length payload \<le> 65535
      then Some (forward_response j payload s) else None)"
| "listener_event (Response_Send_Error j payload response_from) s =
     (if j < length (listeners s) \<and> length payload \<le> 65535
      then Some (end_listener j s) else None)"
| "listener_event (Target_Recv_Error j) s =
     (if j < length (listeners s) then Some (end_listener j s) else None)"
| "listener_event _ s = None"

section \<open>Runs\<close>

definition relay_step :: "resolver \<Rightarrow> relay_event \<Rightarrow> relay \<Rightarrow> relay option" where
  "relay_step L ev s =
     (case ev of
        Task_Run i \<Rightarrow> task_event L ev i s
      | Bind_Ok i \<Rightarrow> task_event L ev i s
      | Bind_Error i e \<Rightarrow> task_event L ev i s
      | Send_Ok i \<Rightarrow> task_event L ev i s
      | Send_Error i e \<Rightarrow> task_event L ev i s
      | Response j d r \<Rightarrow> listener_event ev s
      | Response_Send_Error j d r \<Rightarrow> listener_event ev s
      | Target_Recv_Error j \<Rightarrow> listener_event ev s
      | _ \<Rightarrow> loop_event ev s)"

fun relay_run :: "resolver \<Rightarrow> relay_event list \<Rightarrow> relay \<Rightarrow> relay option" where
  "relay_run L [] s = Some s"
| "relay_run L (ev # evs) s =
     (case relay_step L ev s of None \<Rightarrow> None | Some s' \<Rightarrow> relay_run L evs s')"

interpretation relay_runs: transitions "\<lambda>s ev s'. relay_step L ev s = Some s'"
  "\<lambda>s evs s'. relay_run L evs s = Some s'" for L
  by unfold_locales (auto split: option.splits)

inductive relay_reach :: "resolver \<Rightarrow> relay \<Rightarrow> bool" for L where
  reach_init: "relay_reach L relay_init"
| reach_step: "relay_reach L s \<Longrightarrow> relay_step L ev s = Some s' \<Longrightarrow> relay_reach L s'"

lemma relay_run_reach: "relay_reach L s \<Longrightarrow> relay_run L evs s = Some s' \<Longrightarrow> relay_reach L s'"
  by (induction evs arbitrary: s) (auto split: option.splits intro: reach_step)

text \<open>
  \<open>handle_udp_associate\<close>: bind the relay socket (\<open>bind_result\<close> is the outcome of \<open>bind\<close> and
  \<open>local_addr\<close>), reply with its address, and start the loop, whose runs are \<open>relay_run\<close> from
  the state returned here.
\<close>

definition handle_udp_associate ::
  "'s stream_ops \<Rightarrow> string + socket_addr \<Rightarrow> ('s, relay) proxy_io"
where
  "handle_udp_associate S bind_result =
     bind_io (lift_sum (map_err Io bind_result)) (\<lambda>relay_addr.
     bind_io (send_udp_reply S 0x00 relay_addr) (\<lambda>_. ret relay_init))"

text \<open>The cases of a step, one for each transition of the three components.\<close>

lemma relay_step_cases [consumes 1]:
  assumes "relay_step L ev s = Some s'"
  obtains (ignore) "ev = Tcp_Data" "running s" "s' = s"
  | (stop) "ev = Tcp_Closed \<or> ev = Udp_Recv_Error" "running s" "s' = s\<lparr>running := False\<rparr>"
  | (recv) data c where "ev = Udp_Recv data c" "running s"
      "s' = s\<lparr>tasks := tasks s @ [Task_Start data c], received := received s @ [(data, c)]\<rparr>"
  | (start) i data c where "ev = Task_Run i" "i < length (tasks s)" "tasks s ! i = Task_Start data c"
      "s' = start_task i data c s"
  | (bind) i t p c where "ev = Bind_Ok i" "i < length (tasks s)" "tasks s ! i = Task_Bind t p c"
      "s' = bound_task i t p c s"
  | (send) i k t p c where "ev = Send_Ok i" "i < length (tasks s)" "tasks s ! i = Task_Send k t p c"
      "s' = send_task L i k t p s" "can_send L (local_addrs s ! k) t"
  | (fail) i where "(\<exists>e. ev = Bind_Error i e \<or> ev = Send_Error i e)" "i < length (tasks s)" "s' = end_task i s"
  | (response) j d r where "ev = Response j d r" "j < length (listeners s)" "s' = forward_response j d s"
  | (listener_end) j where "ev = Target_Recv_Error j \<or> (\<exists>d r. ev = Response_Send_Error j d r)"
      "j < length (listeners s)" "s' = end_listener j s"
  using assms
  by (cases ev) (auto simp: relay_step_def task_event_def not_le split: if_splits udp_task.splits)

section \<open>Lists of tasks and listeners\<close>

lemma set_drop_nth: "set (drop_nth i xs) \<subseteq> set xs"
  by (auto simp: drop_nth_def dest: in_set_takeD in_set_dropD)

lemma in_drop_nth: "x \<in> set (drop_nth i xs) \<Longrightarrow> x \<in> set xs"
  using set_drop_nth by fast

lemma in_drop_nthI: "i < length xs \<Longrightarrow> x \<in> set xs \<Longrightarrow> x \<noteq> xs ! i \<Longrightarrow> x \<in> set (drop_nth i xs)"
  by (metis Un_iff drop_nth_def id_take_nth_drop set_ConsD set_append)

lemma length_drop_nth [simp]: "i < length xs \<Longrightarrow> length (drop_nth i xs) = length xs - 1"
  by (auto simp: drop_nth_def)

lemma distinct_drop_nth: "distinct xs \<Longrightarrow> distinct (drop_nth i xs)"
proof (cases "i < length xs")
  case True
  then have "xs = take i xs @ xs ! i # drop (Suc i) xs" by (rule id_take_nth_drop)
  then show "distinct xs \<Longrightarrow> distinct (drop_nth i xs)"
    unfolding drop_nth_def by (metis distinct_append distinct.simps(2) disjoint_iff list.set_intros(2))
qed (simp add: drop_nth_def)

lemma distinct_map_drop_nth: "distinct (map f xs) \<Longrightarrow> distinct (map f (drop_nth i xs))"
  using distinct_drop_nth [of "map f xs" i] by (simp add: drop_nth_def take_map drop_map)

lemma in_list_update: "x \<in> set (xs[i := y]) \<Longrightarrow> x = y \<or> x \<in> set xs"
  using set_update_subset_insert by fast

section \<open>The invariant\<close>

text \<open>\<open>asked s c t p\<close>: the relay has received from \<open>c\<close> a valid datagram for \<open>t\<close> with payload \<open>p\<close>.\<close>

definition asked :: "relay \<Rightarrow> socket_addr \<Rightarrow> target_addr \<Rightarrow> bytes \<Rightarrow> bool" where
  "asked s c t p \<longleftrightarrow> (\<exists>data. (data, c) \<in> set (received s) \<and> parse_socks5_udp_packet data = Inr (t, p))"

definition owns :: "relay \<Rightarrow> nat \<Rightarrow> socket_addr \<Rightarrow> bool" where
  "owns s k c \<longleftrightarrow> k < length (bound s) \<and> bound s ! k = c"

fun task_ok :: "relay \<Rightarrow> udp_task \<Rightarrow> bool" where
  "task_ok s (Task_Start data c) = ((data, c) \<in> set (received s))"
| "task_ok s (Task_Bind t p c) = asked s c t p"
| "task_ok s (Task_Send k t p c) = (asked s c t p \<and> owns s k c)"

definition map_inv :: "relay \<Rightarrow> bool" where
  "map_inv s \<longleftrightarrow> (\<forall>c k. client_map s c = Some k \<longrightarrow>
     (\<exists>l \<in> set (listeners s). target_socket l = k \<and> client_addr l = c))"

definition listener_inv :: "relay \<Rightarrow> bool" where
  "listener_inv s \<longleftrightarrow> distinct (map target_socket (listeners s)) \<and>
     (\<forall>l \<in> set (listeners s). owns s (target_socket l) (client_addr l) \<and>
        (\<exists>p. asked s (client_addr l) (target_label l) p))"

definition task_inv :: "relay \<Rightarrow> bool" where
  "task_inv s \<longleftrightarrow> (\<forall>t \<in> set (tasks s). task_ok s t)"

definition out_inv :: "resolver \<Rightarrow> relay \<Rightarrow> bool" where
  "out_inv L s \<longleftrightarrow> (\<forall>(k, a, p) \<in> set (to_targets s). \<exists>c t.
     owns s k c \<and> asked s c t p \<and> resolve_target_addr L t = Inr a)"

definition back_inv :: "relay \<Rightarrow> bool" where
  "back_inv s \<longleftrightarrow> (\<forall>(k, c, pkt) \<in> set (to_clients s).
     owns s k c \<and> (\<exists>t q p. asked s c t q \<and> pkt = build_socks5_udp_response t p))"

definition count_inv :: "relay \<Rightarrow> bool" where
  "count_inv s \<longleftrightarrow> length (tasks s) + length (to_targets s) \<le> length (received s)"

definition relay_inv :: "resolver \<Rightarrow> relay \<Rightarrow> bool" where
  "relay_inv L s \<longleftrightarrow>
     map_inv s \<and> listener_inv s \<and> task_inv s \<and> out_inv L s \<and> back_inv s \<and> count_inv s"

lemmas inv_defs = map_inv_def listener_inv_def task_inv_def out_inv_def back_inv_def count_inv_def

text \<open>Facts about clients and sockets stay true as the logs grow.\<close>

definition extends :: "relay \<Rightarrow> relay \<Rightarrow> bool" where
  "extends s s' \<longleftrightarrow> prefix (received s) (received s') \<and> prefix (bound s) (bound s')"

lemma asked_mono: "extends s s' \<Longrightarrow> asked s c t p \<Longrightarrow> asked s' c t p"
  by (auto simp: extends_def asked_def dest: set_mono_prefix)

lemma owns_mono: "extends s s' \<Longrightarrow> owns s k c \<Longrightarrow> owns s' k c"
  by (auto simp: extends_def owns_def prefix_def nth_append)

lemma task_ok_mono: "extends s s' \<Longrightarrow> task_ok s t \<Longrightarrow> task_ok s' t"
  by (cases t) (auto simp: asked_mono owns_mono extends_def dest: set_mono_prefix)

lemmas log_mono = asked_mono owns_mono task_ok_mono

text \<open>A step that leaves a component alone, and extends the logs, keeps its invariant.\<close>

lemma inv_frame:
  assumes "extends s s'"
  shows "client_map s' = client_map s \<Longrightarrow> listeners s' = listeners s \<Longrightarrow> map_inv s \<Longrightarrow> map_inv s'"
    "listeners s' = listeners s \<Longrightarrow> listener_inv s \<Longrightarrow> listener_inv s'"
    "set (tasks s') \<subseteq> set (tasks s) \<Longrightarrow> task_inv s \<Longrightarrow> task_inv s'"
    "to_targets s' = to_targets s \<Longrightarrow> out_inv L s \<Longrightarrow> out_inv L s'"
    "to_clients s' = to_clients s \<Longrightarrow> back_inv s \<Longrightarrow> back_inv s'"
proof -
  show "client_map s' = client_map s \<Longrightarrow> listeners s' = listeners s \<Longrightarrow> map_inv s \<Longrightarrow> map_inv s'"
    by (simp add: map_inv_def)
  show "listeners s' = listeners s \<Longrightarrow> listener_inv s \<Longrightarrow> listener_inv s'"
    using assms unfolding listener_inv_def by (metis asked_mono owns_mono)
  show "set (tasks s') \<subseteq> set (tasks s) \<Longrightarrow> task_inv s \<Longrightarrow> task_inv s'"
    using assms unfolding task_inv_def by (blast intro: task_ok_mono)
  show "to_targets s' = to_targets s \<Longrightarrow> out_inv L s \<Longrightarrow> out_inv L s'"
    using assms unfolding out_inv_def by (fastforce intro: asked_mono owns_mono)
  show "to_clients s' = to_clients s \<Longrightarrow> back_inv s \<Longrightarrow> back_inv s'"
    using assms unfolding back_inv_def by (fastforce intro: asked_mono owns_mono)
qed

lemma inv_end_task:
  assumes "relay_inv L s" "i < length (tasks s)"
  shows "relay_inv L (end_task i s)"
proof -
  have e: "extends s (end_task i s)" by (simp add: extends_def end_task_def)
  have "count_inv (end_task i s)" using assms by (auto simp: relay_inv_def count_inv_def end_task_def)
  with assms inv_frame [OF e] set_drop_nth [of i "tasks s"] show ?thesis
    by (simp add: relay_inv_def end_task_def)
qed

lemma inv_set_task:
  assumes "relay_inv L s" "i < length (tasks s)" "task_ok s t"
  shows "relay_inv L (set_task i t s)"
proof -
  have e: "extends s (set_task i t s)" by (simp add: extends_def set_task_def)
  have "task_inv (set_task i t s)"
    using assms task_ok_mono [OF e]
    by (auto simp: relay_inv_def task_inv_def set_task_def dest!: in_list_update)
  moreover have "count_inv (set_task i t s)" using assms by (simp add: relay_inv_def count_inv_def set_task_def)
  ultimately show ?thesis using assms inv_frame [OF e] by (simp add: relay_inv_def set_task_def)
qed

lemma inv_start:
  assumes "relay_inv L s" "i < length (tasks s)" "tasks s ! i = Task_Start data c"
  shows "relay_inv L (start_task i data c s)"
proof (cases "parse_socks5_udp_packet data")
  case (Inl e)
  with assms inv_end_task show ?thesis by simp
next
  case (Inr tp)
  obtain t p where tp: "tp = (t, p)" by force
  have "task_ok s (Task_Start data c)"
    using assms by (metis nth_mem relay_inv_def task_inv_def)
  then have a: "asked s c t p" using Inr tp by (auto simp: asked_def)
  show ?thesis
  proof (cases "client_map s c")
    case None
    with assms a Inr tp inv_set_task [of L s i "Task_Bind t p c"] show ?thesis by simp
  next
    case (Some k)
    then have "owns s k c" using assms(1) by (auto simp: relay_inv_def map_inv_def listener_inv_def)
    with assms a Inr tp Some inv_set_task [of L s i "Task_Send k t p c"] show ?thesis by simp
  qed
qed

lemma inv_bound:
  assumes inv: "relay_inv L s" and i: "i < length (tasks s)" "tasks s ! i = Task_Bind t p c"
  shows "relay_inv L (bound_task i t p c s)"
proof -
  let ?k = "length (bound s)"
  let ?s = "s\<lparr>bound := bound s @ [c], local_addrs := local_addrs s @ [target_bind_addr], client_map := (client_map s)(c := Some ?k),
           listeners := listeners s @ [\<lparr>target_socket = ?k, client_addr = c, target_label = t\<rparr>]\<rparr>"
  have e: "extends s ?s" by (simp add: extends_def)
  have "asked s c t p" using inv i by (metis nth_mem relay_inv_def task_inv_def task_ok.simps(2))
  then have a: "asked ?s c t p" and k: "owns ?s ?k c" by (simp_all add: asked_def owns_def)
  have "map_inv ?s" using inv by (fastforce simp: relay_inv_def map_inv_def)
  moreover have "listener_inv ?s"
  proof -
    have "target_socket l < ?k" if "l \<in> set (listeners s)" for l
      using inv that by (auto simp: relay_inv_def listener_inv_def owns_def)
    then have "\<forall>l \<in> set (listeners s). target_socket l < ?k" by blast
    then have "?k \<notin> target_socket ` set (listeners s)" by auto
    then have "distinct (map target_socket (listeners ?s))"
      using inv by (simp add: relay_inv_def listener_inv_def)
    moreover have "\<forall>l \<in> set (listeners s). owns ?s (target_socket l) (client_addr l) \<and>
        (\<exists>p. asked ?s (client_addr l) (target_label l) p)"
      using inv log_mono [OF e] unfolding relay_inv_def listener_inv_def by blast
    ultimately show ?thesis using a k by (auto simp: listener_inv_def)
  qed
  moreover have "count_inv ?s" using inv by (simp add: relay_inv_def count_inv_def)
  ultimately have "relay_inv L ?s" using inv inv_frame(3-5) [OF e] by (simp add: relay_inv_def)
  then show ?thesis using inv_set_task [of L ?s i "Task_Send ?k t p c"] i a k
    by (simp add: Let_def)
qed

lemma inv_send:
  assumes inv: "relay_inv L s" and i: "i < length (tasks s)" "tasks s ! i = Task_Send k t p c"
  shows "relay_inv L (send_task L i k t p s)"
proof (cases "resolve_target_addr L t")
  case (Inl e)
  with inv i inv_end_task show ?thesis by simp
next
  case (Inr a)
  let ?s = "end_task i (s\<lparr>to_targets := to_targets s @ [(k, a, p)]\<rparr>)"
  have e: "extends s ?s" by (simp add: extends_def end_task_def)
  have ok: "asked s c t p" "owns s k c"
    using inv i by (metis nth_mem relay_inv_def task_inv_def task_ok.simps(3))+
  have "out_inv L ?s"
    using inv ok Inr log_mono [OF e] unfolding relay_inv_def out_inv_def
    by (fastforce simp: end_task_def)
  moreover have "count_inv ?s" using inv i by (auto simp: relay_inv_def count_inv_def end_task_def)
  ultimately have "relay_inv L ?s"
    using inv inv_frame(1-3,5) [OF e] set_drop_nth [of i "tasks s"] by (simp add: relay_inv_def end_task_def)
  with Inr show ?thesis by simp
qed

lemma inv_response:
  assumes inv: "relay_inv L s" and j: "j < length (listeners s)"
  shows "relay_inv L (forward_response j d s)"
proof -
  let ?s = "forward_response j d s"
  have e: "extends s ?s" by (simp add: extends_def forward_response_def Let_def)
  have "owns s (target_socket (listeners s ! j)) (client_addr (listeners s ! j)) \<and>
      (\<exists>p. asked s (client_addr (listeners s ! j)) (target_label (listeners s ! j)) p)"
    using inv j by (auto simp: relay_inv_def listener_inv_def)
  then have "back_inv ?s"
    using inv log_mono [OF e] unfolding relay_inv_def back_inv_def
    by (fastforce simp: forward_response_def Let_def)
  then show ?thesis
    using inv inv_frame(1-4) [OF e] by (simp add: relay_inv_def forward_response_def Let_def count_inv_def)
qed

lemma inv_end_listener:
  assumes inv: "relay_inv L s" and j: "j < length (listeners s)"
  shows "relay_inv L (end_listener j s)"
proof -
  let ?s = "end_listener j s"
  have e: "extends s ?s" by (simp add: extends_def end_listener_def)
  have "map_inv ?s"
    unfolding map_inv_def
  proof (intro allI impI)
    fix c k assume "client_map ?s c = Some k"
    then have c: "client_map s c = Some k" "c \<noteq> client_addr (listeners s ! j)"
      by (auto simp: end_listener_def split: if_splits)
    then obtain l where l: "l \<in> set (listeners s)" "target_socket l = k" "client_addr l = c"
      using inv by (auto simp: relay_inv_def map_inv_def)
    with c in_drop_nthI [OF j, of l] show "\<exists>l \<in> set (listeners ?s). target_socket l = k \<and> client_addr l = c"
      by (auto simp: end_listener_def)
  qed
  moreover have "listener_inv ?s"
    using inv log_mono [OF e] unfolding relay_inv_def listener_inv_def
    by (auto simp: end_listener_def distinct_map_drop_nth dest!: in_drop_nth) (metis e asked_mono)
  moreover have "count_inv ?s" using inv by (simp add: relay_inv_def count_inv_def end_listener_def)
  ultimately show ?thesis
    using inv inv_frame(3-5) [OF e] by (simp add: relay_inv_def end_listener_def)
qed

lemma inv_recv:
  assumes inv: "relay_inv L s"
  shows "relay_inv L (s\<lparr>tasks := tasks s @ [Task_Start data c], received := received s @ [(data, c)]\<rparr>)"
    (is "relay_inv L ?s")
proof -
  have e: "extends s ?s" by (simp add: extends_def)
  have "task_inv ?s" using inv task_ok_mono [OF e] by (auto simp: relay_inv_def task_inv_def)
  moreover have "count_inv ?s" using inv by (simp add: relay_inv_def count_inv_def)
  ultimately show ?thesis using inv inv_frame(1,2,4,5) [OF e] by (simp add: relay_inv_def)
qed

lemma inv_stop: "relay_inv L s \<Longrightarrow> relay_inv L (s\<lparr>running := False\<rparr>)"
  using inv_frame [of s "s\<lparr>running := False\<rparr>"]
  by (simp add: relay_inv_def extends_def count_inv_def)

lemma relay_inv_init: "relay_inv L relay_init"
  by (simp add: relay_inv_def inv_defs relay_init_def)

lemma relay_inv_step: "relay_inv L s \<Longrightarrow> relay_step L ev s = Some s' \<Longrightarrow> relay_inv L s'"
  by (elim relay_step_cases)
    (simp_all del: start_task.simps bound_task.simps send_task.simps add: inv_stop inv_recv
      inv_start inv_bound inv_send inv_end_task inv_response inv_end_listener)

theorem relay_reach_inv: "relay_reach L s \<Longrightarrow> relay_inv L s"
  by (induction rule: relay_reach.induct) (auto intro: relay_inv_init relay_inv_step)

section \<open>The sockets\<close>

text \<open>Every target socket is one of IPv4, so nothing ever leaves for an IPv6 address.\<close>

definition sockets_inv :: "relay \<Rightarrow> bool" where
  "sockets_inv s \<longleftrightarrow> local_addrs s = map (\<lambda>_. target_bind_addr) (bound s) \<and>
     (\<forall>(k, a, p) \<in> set (to_targets s). same_family target_bind_addr a)"

lemma same_family_bind: "same_family target_bind_addr a \<longleftrightarrow> (\<exists>ip port. a = SockV4 ip port)"
  by (cases a) (simp_all add: target_bind_addr_def)

lemma sockets_inv_step:
  assumes "relay_step L ev s = Some s'" "relay_inv L s" "sockets_inv s"
  shows "sockets_inv s'"
  using assms(1)
proof (cases rule: relay_step_cases)
  case (send i k t p c)
  have "task_ok s (Task_Send k t p c)"
    using assms(2) send(2,3) by (metis nth_mem relay_inv_def task_inv_def)
  with assms(3) have "local_addrs s ! k = target_bind_addr" by (simp add: owns_def sockets_inv_def)
  with send assms(3) show ?thesis
    by (auto simp: sockets_inv_def end_task_def can_send_def split: sum.splits)
qed (use assms(3) in \<open>auto simp: sockets_inv_def end_task_def set_task_def forward_response_def end_listener_def Let_def
      split: sum.splits prod.splits option.splits\<close>)

lemma sockets_inv_init: "sockets_inv relay_init"
  by (simp add: sockets_inv_def relay_init_def)

lemma relay_reach_sockets: "relay_reach L s \<Longrightarrow> sockets_inv s"
  by (induction rule: relay_reach.induct)
    (auto simp: sockets_inv_init intro: sockets_inv_step relay_reach_inv)

lemma can_send_reach:
  assumes "relay_reach L s" "Task_Send k t p c \<in> set (tasks s)"
  shows "can_send L (local_addrs s ! k) t \<longleftrightarrow> (\<nexists>ip port. resolve_target_addr L t = Inr (SockV6 ip port))"
proof -
  have "task_ok s (Task_Send k t p c)"
    using relay_reach_inv [OF assms(1)] assms(2) by (auto simp: relay_inv_def task_inv_def)
  with relay_reach_sockets [OF assms(1)] have "local_addrs s ! k = target_bind_addr"
    by (simp add: owns_def sockets_inv_def)
  then show ?thesis
    by (auto simp: can_send_def same_family_bind split: sum.split) (metis socket_addr.exhaust)
qed

text \<open>
  The label of a socket: every response that has come through a socket names one target, that of
  its listener.
\<close>

definition labels_inv :: "relay \<Rightarrow> (nat \<Rightarrow> target_addr) \<Rightarrow> bool" where
  "labels_inv s f \<longleftrightarrow> (\<forall>l \<in> set (listeners s). target_label l = f (target_socket l)) \<and>
     (\<forall>(k, c, pkt) \<in> set (to_clients s). k < length (bound s) \<and> (\<exists>p. pkt = build_socks5_udp_response (f k) p))"

lemma labels_inv_step:
  assumes "relay_step L ev s = Some s'" "relay_inv L s" "labels_inv s f"
  shows "\<exists>f'. labels_inv s' f'"
  using assms(1)
proof (cases rule: relay_step_cases)
  case (bind i t p c)
  have "\<forall>l \<in> set (listeners s). target_socket l < length (bound s)"
    using assms(2) by (auto simp: relay_inv_def listener_inv_def owns_def)
  with bind assms(3) show ?thesis
    by (intro exI [of _ "f(length (bound s) := t)"]) (fastforce simp: labels_inv_def set_task_def Let_def)
next
  case (response j d r)
  then have "listeners s ! j \<in> set (listeners s)" by simp
  moreover from this have "target_socket (listeners s ! j) < length (bound s)"
    using assms(2) by (auto simp: relay_inv_def listener_inv_def owns_def)
  ultimately show ?thesis
    using response assms(3) by (intro exI [of _ f]) (auto simp: labels_inv_def forward_response_def Let_def)
qed (use assms(3) in \<open>auto simp: labels_inv_def end_task_def set_task_def end_listener_def
      dest: in_drop_nth intro!: exI [of _ f] split: sum.splits prod.splits option.splits\<close>)

lemma labels_inv_init: "labels_inv relay_init f"
  by (simp add: labels_inv_def relay_init_def)

lemma relay_reach_labels: "relay_reach L s \<Longrightarrow> \<exists>f. labels_inv s f"
  by (induction rule: relay_reach.induct)
    (auto intro: labels_inv_init relay_reach_inv dest: labels_inv_step)

end
