(* ===== verification/Udp_Nat.thy ===== *)
theory Udp_Nat
  imports Udp_Relay
begin

text \<open>
  What the UDP relay is meant to be: a table of address translation that gives each client one
  socket, at its first valid datagram, and sends every valid datagram from its client's
  socket.  The relay refines the table in the runs that handle one datagram after the other
  without a failing socket; its tasks are what concurrency puts in between.
\<close>

section \<open>The table\<close>

record nat_table =
  assoc :: "socket_addr \<Rightarrow> nat option"
  sockets :: nat
  sent_log :: "(nat \<times> socket_addr \<times> bytes) list"

definition nat_init :: nat_table where
  "nat_init = \<lparr>assoc = (\<lambda>_. None), sockets = 0, sent_log = []\<rparr>"

definition nat_new :: "socket_addr \<Rightarrow> nat_table \<Rightarrow> nat_table" where
  "nat_new c st = st\<lparr>assoc := (assoc st)(c := Some (sockets st)), sockets := sockets st + 1\<rparr>"

definition nat_send :: "resolver \<Rightarrow> nat \<Rightarrow> target_addr \<Rightarrow> bytes \<Rightarrow> nat_table \<Rightarrow> nat_table" where
  "nat_send L k t p st =
     (case resolve_target_addr L t of
        Inl e \<Rightarrow> st
      | Inr a \<Rightarrow> st\<lparr>sent_log := sent_log st @ [(k, a, p)]\<rparr>)"

fun nat_packet :: "resolver \<Rightarrow> bytes \<times> socket_addr \<Rightarrow> nat_table \<Rightarrow> nat_table" where
  "nat_packet L (data, c) st =
     (case parse_socks5_udp_packet data of
        Inl e \<Rightarrow> st
      | Inr (t, p) \<Rightarrow>
          (case assoc st c of
             Some k \<Rightarrow> nat_send L k t p st
           | None \<Rightarrow> nat_send L (sockets st) t p (nat_new c st)))"

definition nat_step :: "resolver \<Rightarrow> nat_table \<Rightarrow> bytes \<times> socket_addr \<Rightarrow> nat_table \<Rightarrow> bool" where
  "nat_step L st d st' \<longleftrightarrow> st' = nat_packet L d st"

definition nat_run :: "resolver \<Rightarrow> nat_table \<Rightarrow> (bytes \<times> socket_addr) list \<Rightarrow> nat_table \<Rightarrow> bool" where
  "nat_run L st ds st' \<longleftrightarrow> st' = fold (nat_packet L) ds st"

interpretation nat_table: transitions "nat_step L" "nat_run L" for L
  by unfold_locales (auto simp: nat_step_def nat_run_def)

section \<open>Serial runs of the relay\<close>

text \<open>The events of a run in which datagrams do not overlap and no socket fails.\<close>

fun serial_ok :: "relay_event \<Rightarrow> relay \<Rightarrow> bool" where
  "serial_ok (Udp_Recv data c) s \<longleftrightarrow> tasks s = []"
| "serial_ok (Bind_Error i e) s \<longleftrightarrow> False"
| "serial_ok (Send_Error i e) s \<longleftrightarrow> False"
| "serial_ok (Response_Send_Error j d r) s \<longleftrightarrow> False"
| "serial_ok (Target_Recv_Error j) s \<longleftrightarrow> False"
| "serial_ok _ s \<longleftrightarrow> True"

definition serial_step :: "resolver \<Rightarrow> relay \<Rightarrow> relay_event \<Rightarrow> relay \<Rightarrow> bool" where
  "serial_step L s ev s' \<longleftrightarrow> serial_ok ev s \<and> relay_step L ev s = Some s'"

fun serial_run :: "resolver \<Rightarrow> relay \<Rightarrow> relay_event list \<Rightarrow> relay \<Rightarrow> bool" where
  "serial_run L s [] s' \<longleftrightarrow> s' = s"
| "serial_run L s (ev # evs) s' \<longleftrightarrow> (\<exists>s1. serial_step L s ev s1 \<and> serial_run L s1 evs s')"

interpretation serial: transitions "serial_step L" "serial_run L" for L
  by unfold_locales auto

section \<open>The relay as a table\<close>

text \<open>
  The table the relay has reached, and the one it will have reached when the task that is
  under way, if any, is done.
\<close>

definition nat_of :: "relay \<Rightarrow> nat_table" where
  "nat_of s = \<lparr>assoc = client_map s, sockets = length (bound s), sent_log = to_targets s\<rparr>"

fun finish :: "resolver \<Rightarrow> udp_task \<Rightarrow> nat_table \<Rightarrow> nat_table" where
  "finish L (Task_Start data c) st = nat_packet L (data, c) st"
| "finish L (Task_Bind t p c) st = nat_send L (sockets st) t p (nat_new c st)"
| "finish L (Task_Send k t p c) st = nat_send L k t p st"

definition ideal :: "resolver \<Rightarrow> relay \<Rightarrow> nat_table" where
  "ideal L s = fold (finish L) (tasks s) (nat_of s)"

fun datagrams :: "relay_event \<Rightarrow> (bytes \<times> socket_addr) list" where
  "datagrams (Udp_Recv data c) = [(data, c)]"
| "datagrams _ = []"

text \<open>
  At most one task; a task that binds does so for a client without a socket; each client that
  has had a socket bound has one, and has had one only.
\<close>

definition one_task :: "relay \<Rightarrow> bool" where
  "one_task s \<longleftrightarrow>
     (tasks s = [] \<or> (\<exists>t. tasks s = [t] \<and> (\<forall>tg p c. t = Task_Bind tg p c \<longrightarrow> client_map s c = None))) \<and>
     distinct (bound s) \<and> (\<forall>c. c \<in> set (bound s) \<longleftrightarrow> client_map s c \<noteq> None)"

lemma one_task_init: "one_task relay_init"
  by (simp add: one_task_def relay_init_def)

lemma one_task_nth:
  "one_task s \<Longrightarrow> i < length (tasks s) \<Longrightarrow> tasks s ! i = t \<Longrightarrow> i = 0 \<and> tasks s = [t]"
  by (auto simp: one_task_def)

lemmas relay_task_defs = end_task_def set_task_def drop_nth_def Let_def

lemma one_task_step:
  assumes "serial_step L s ev s'" "one_task s"
  shows "one_task s' \<and> nat_run L (ideal L s) (datagrams ev) (ideal L s')"
proof -
  from assms(1) have ok: "serial_ok ev s" and step: "relay_step L ev s = Some s'"
    by (simp_all add: serial_step_def)
  from step show ?thesis
  proof (cases rule: relay_step_cases)
    case ignore
    with assms(2) show ?thesis by (simp add: nat_run_def)
  next
    case stop
    with assms(2) show ?thesis by (auto simp: nat_run_def one_task_def ideal_def nat_of_def)
  next
    case (recv data c)
    with assms(2) ok show ?thesis by (auto simp: nat_run_def one_task_def ideal_def nat_of_def)
  next
    case (start i data c)
    from one_task_nth [OF assms(2) start(2,3)] have i: "i = 0" "tasks s = [Task_Start data c]" by simp_all
    with start assms(2) show ?thesis
      by (auto simp: nat_run_def one_task_def ideal_def nat_of_def relay_task_defs
          split: sum.splits option.splits)
  next
    case (bind i t p c)
    from one_task_nth [OF assms(2) bind(2,3)] have i: "i = 0" "tasks s = [Task_Bind t p c]" by simp_all
    with bind assms(2) show ?thesis
      by (auto simp: nat_run_def one_task_def ideal_def nat_of_def nat_new_def relay_task_defs)
  next
    case (send i k t p c)
    from one_task_nth [OF assms(2) send(2,3)] have i: "i = 0" "tasks s = [Task_Send k t p c]" by simp_all
    with send assms(2) show ?thesis
      by (auto simp: nat_run_def one_task_def ideal_def nat_of_def nat_send_def relay_task_defs
          split: sum.splits)
  next
    case (fail i)
    with ok show ?thesis by auto
  next
    case (response j d r)
    with assms(2) show ?thesis
      by (auto simp: nat_run_def one_task_def ideal_def nat_of_def forward_response_def Let_def)
  next
    case (listener_end j)
    with ok show ?thesis by auto
  qed
qed

interpretation as_nat: refines "serial_step L" "serial_run L" "nat_step L" "nat_run L"
  one_task "ideal L" datagrams for L
  by unfold_locales (auto dest: one_task_step)

text \<open>The datagrams of a run are the ones the relay has received.\<close>

lemma serial_received:
  "serial_run L s evs s' \<Longrightarrow> received s' = received s @ concat (map datagrams evs)"
proof (induction evs arbitrary: s)
  case Nil
  then show ?case by simp
next
  case (Cons ev evs)
  then obtain s1 where 1: "relay_step L ev s = Some s1" "serial_run L s1 evs s'"
    by (auto simp: serial_step_def)
  from 1(1) have "received s1 = received s @ datagrams ev"
    by (cases rule: relay_step_cases)
      (auto simp: relay_task_defs forward_response_def end_listener_def
        split: sum.splits option.splits)
  with Cons.IH [OF 1(2)] show ?case by simp
qed

end
