(* ===== verification/Udp_Delivery.thy ===== *)
theory Udp_Delivery
  imports Udp_Relay "HOL-Library.Multiset"
begin

text \<open>
  What becomes of the datagrams of the UDP relay, in every interleaving of its loop, its tasks
  and its listeners: nothing is sent that was not asked for, nothing twice, nothing is lost
  unless a socket fails, and every task ends.  The argument is one of conservation: each event
  moves what a datagram asks for from the received ones to a task and on to a target.
\<close>

section \<open>Jobs\<close>

text \<open>What a client asks for with a target and a payload: to whom, and what.\<close>

definition job :: "resolver \<Rightarrow> socket_addr \<Rightarrow> target_addr \<Rightarrow> bytes \<Rightarrow> (socket_addr \<times> socket_addr \<times> bytes) multiset"
where
  "job L c t p = (case resolve_target_addr L t of Inl e \<Rightarrow> {#} | Inr a \<Rightarrow> {#(c, a, p)#})"

fun datagram_job :: "resolver \<Rightarrow> bytes \<times> socket_addr \<Rightarrow> (socket_addr \<times> socket_addr \<times> bytes) multiset" where
  "datagram_job L (data, c) =
     (case parse_socks5_udp_packet data of Inl e \<Rightarrow> {#} | Inr (t, p) \<Rightarrow> job L c t p)"

fun task_job :: "resolver \<Rightarrow> udp_task \<Rightarrow> (socket_addr \<times> socket_addr \<times> bytes) multiset" where
  "task_job L (Task_Start data c) = datagram_job L (data, c)"
| "task_job L (Task_Bind t p c) = job L c t p"
| "task_job L (Task_Send k t p c) = job L c t p"

text \<open>
  The jobs of the datagrams received, of the tasks under way, and those done: each datagram that
  has left a socket, with the client the socket was bound for.
\<close>

definition asked_for :: "resolver \<Rightarrow> relay \<Rightarrow> (socket_addr \<times> socket_addr \<times> bytes) multiset" where
  "asked_for L s = sum_list (map (datagram_job L) (received s))"

definition under_way :: "resolver \<Rightarrow> relay \<Rightarrow> (socket_addr \<times> socket_addr \<times> bytes) multiset" where
  "under_way L s = sum_list (map (task_job L) (tasks s))"

definition delivered :: "relay \<Rightarrow> (socket_addr \<times> socket_addr \<times> bytes) multiset" where
  "delivered s = mset (map (\<lambda>(k, a, p). (bound s ! k, a, p)) (to_targets s))"

definition settled :: "resolver \<Rightarrow> relay \<Rightarrow> (socket_addr \<times> socket_addr \<times> bytes) multiset" where
  "settled L s = delivered s + under_way L s"

text \<open>The events in which a task fails.\<close>

fun lossless :: "relay_event \<Rightarrow> bool" where
  "lossless (Bind_Error i e) = False"
| "lossless (Send_Error i e) = False"
| "lossless _ = True"

section \<open>Conservation\<close>

lemma sum_list_drop_nth:
  fixes f :: "'a \<Rightarrow> 'b :: comm_monoid_add"
  assumes "i < length xs"
  shows "sum_list (map f xs) = f (xs ! i) + sum_list (map f (drop_nth i xs))"
  by (subst id_take_nth_drop [OF assms]) (simp add: drop_nth_def ac_simps)

lemma sum_list_update:
  fixes f :: "'a \<Rightarrow> 'b :: comm_monoid_add"
  assumes "i < length xs"
  shows "sum_list (map f (xs[i := y])) = f y + sum_list (map f (drop_nth i xs))"
  by (simp add: upd_conv_take_nth_drop [OF assms] drop_nth_def ac_simps)

lemma under_way_task:
  assumes "i < length (tasks s)"
  shows "under_way L s = task_job L (tasks s ! i) + under_way L (end_task i s)"
    and "under_way L (set_task i t s) = task_job L t + under_way L (end_task i s)"
  by (simp_all add: under_way_def end_task_def set_task_def sum_list_update [OF assms]
      sum_list_drop_nth [OF assms, of "task_job L"])

lemma under_way_cong: "tasks s = tasks s' \<Longrightarrow> under_way L s = under_way L s'"
  by (simp add: under_way_def)

text \<open>Sockets that are bound later do not change whose the sockets in use are.\<close>

lemma delivered_bound:
  assumes "out_inv L s" "to_targets s' = to_targets s" "bound s' = bound s @ cs"
  shows "delivered s' = delivered s"
proof -
  have "\<forall>x \<in> set (to_targets s). fst x < length (bound s)"
    using assms(1) by (auto simp: out_inv_def owns_def)
  then have "map (\<lambda>(k, a, p). (bound s' ! k, a, p)) (to_targets s) =
      map (\<lambda>(k, a, p). (bound s ! k, a, p)) (to_targets s)"
    using assms(3) by (auto simp: nth_append)
  then show ?thesis unfolding delivered_def assms(2) by (rule arg_cong)
qed

lemma delivered_cong: "to_targets s' = to_targets s \<Longrightarrow> bound s' = bound s \<Longrightarrow> delivered s' = delivered s"
  by (simp add: delivered_def)

lemma settled_start:
  assumes "i < length (tasks s)" "tasks s ! i = Task_Start data c"
  shows "settled L (start_task i data c s) = settled L s"
proof -
  have d: "delivered (start_task i data c s) = delivered s"
    by (rule delivered_cong) (simp_all add: end_task_def set_task_def split: sum.split prod.split option.split)
  have "under_way L (start_task i data c s) = under_way L s"
    using under_way_task [OF assms(1), of L] assms(2)
    by (simp split: sum.split prod.split option.split)
  with d show ?thesis by (simp add: settled_def)
qed

lemma settled_bound:
  assumes "out_inv L s" "i < length (tasks s)" "tasks s ! i = Task_Bind t p c"
  shows "settled L (bound_task i t p c s) = settled L s"
proof -
  have "delivered (bound_task i t p c s) = delivered s"
    by (rule delivered_bound [OF assms(1)]) (simp_all add: set_task_def Let_def)
  moreover have "under_way L (bound_task i t p c s) = under_way L (set_task i (Task_Send (length (bound s)) t p c) s)"
    by (rule under_way_cong) (simp add: set_task_def Let_def)
  ultimately show ?thesis
    using under_way_task [OF assms(2), of L] assms(3) by (simp add: settled_def)
qed

lemma settled_send:
  assumes "task_inv s" "i < length (tasks s)" "tasks s ! i = Task_Send k t p c"
  shows "settled L (send_task L i k t p s) = settled L s"
proof -
  have "task_ok s (Task_Send k t p c)"
    using assms nth_mem [OF assms(2)] by (auto simp: task_inv_def)
  then have k: "bound s ! k = c" by (simp add: owns_def)
  show ?thesis
  proof (cases "resolve_target_addr L t")
    case (Inl e)
    with assms(3) under_way_task(1) [OF assms(2), of L] show ?thesis
      by (simp add: settled_def job_def delivered_def end_task_def)
  next
    case (Inr a)
    have "under_way L (send_task L i k t p s) = under_way L (end_task i s)"
      by (rule under_way_cong) (simp add: Inr end_task_def)
    moreover have "delivered (send_task L i k t p s) = add_mset (c, a, p) (delivered s)"
      by (simp add: Inr delivered_def end_task_def k)
    ultimately show ?thesis
      using under_way_task(1) [OF assms(2), of L] assms(3) by (simp add: settled_def job_def Inr)
  qed
qed

lemma settled_fail:
  assumes "i < length (tasks s)"
  shows "settled L (end_task i s) \<subseteq># settled L s"
proof -
  have "delivered (end_task i s) = delivered s" by (rule delivered_cong) (simp_all add: end_task_def)
  with under_way_task(1) [OF assms, of L] show ?thesis by (simp add: settled_def)
qed

lemma settled_same:
  "tasks s' = tasks s \<Longrightarrow> to_targets s' = to_targets s \<Longrightarrow> bound s' = bound s \<Longrightarrow> settled L s' = settled L s"
  by (simp add: settled_def delivered_def under_way_def)

text \<open>
  One event: what is settled grows by what is newly asked for, or by less if the event fails.
\<close>

lemma settled_step:
  assumes "relay_step L ev s = Some s'" "relay_inv L s" "settled L s \<subseteq># asked_for L s"
  shows "settled L s' \<subseteq># asked_for L s'"
    and "lossless ev \<Longrightarrow> settled L s = asked_for L s \<Longrightarrow> settled L s' = asked_for L s'"
proof -
  have inv: "task_inv s" "out_inv L s" using assms(2) by (simp_all add: relay_inv_def)
  have kept: "settled L s' \<subseteq># asked_for L s' \<and> (settled L s = asked_for L s \<longrightarrow> settled L s' = asked_for L s')"
    if "settled L s' = settled L s" "received s' = received s"
    using that assms(3) by (simp add: asked_for_def)
  have "settled L s' \<subseteq># asked_for L s' \<and>
      (lossless ev \<longrightarrow> settled L s = asked_for L s \<longrightarrow> settled L s' = asked_for L s')"
    using assms(1)
  proof (cases rule: relay_step_cases)
    case (recv data c)
    then have "settled L s' = settled L s + datagram_job L (data, c)"
      "asked_for L s' = asked_for L s + datagram_job L (data, c)"
      by (simp_all add: settled_def delivered_def under_way_def asked_for_def)
    with assms(3) show ?thesis by simp
  next
    case (start i data c)
    have "received s' = received s"
      unfolding start(4) by (simp add: end_task_def set_task_def split: sum.split prod.split option.split)
    with kept settled_start [OF start(2,3)] start(4) show ?thesis by simp
  next
    case (bind i t p c)
    have "received s' = received s" unfolding bind(4) by (simp add: set_task_def Let_def)
    with kept settled_bound [OF inv(2) bind(2,3)] bind(4) show ?thesis by simp
  next
    case (send i k t p c)
    have "received s' = received s" unfolding send(4) by (simp add: end_task_def split: sum.split)
    with kept settled_send [OF inv(1) send(2,3)] send(4) show ?thesis by simp
  next
    case (fail i)
    then have "asked_for L s' = asked_for L s" "\<not> lossless ev" by (auto simp: asked_for_def end_task_def)
    with settled_fail [OF fail(2), of L] fail(3) assms(3) show ?thesis by (auto intro: subset_mset.trans)
  next
    case ignore
    with kept show ?thesis by simp
  next
    case stop
    then have "received s' = received s" "settled L s' = settled L s"
      by (simp, intro settled_same) simp_all
    with kept show ?thesis by simp
  next
    case (response j d r)
    then have "received s' = received s" "settled L s' = settled L s"
      by (simp add: forward_response_def Let_def, intro settled_same) (simp_all add: forward_response_def Let_def)
    with kept show ?thesis by simp
  next
    case (listener_end j)
    then have "received s' = received s" "settled L s' = settled L s"
      by (simp add: end_listener_def, intro settled_same) (simp_all add: end_listener_def)
    with kept show ?thesis by simp
  qed
  then show "settled L s' \<subseteq># asked_for L s'"
    "lossless ev \<Longrightarrow> settled L s = asked_for L s \<Longrightarrow> settled L s' = asked_for L s'" by auto
qed

lemma settled_init: "settled L relay_init = asked_for L relay_init"
  by (simp add: settled_def delivered_def under_way_def asked_for_def relay_init_def)

lemma settled_run: "relay_run L evs relay_init = Some s \<Longrightarrow> settled L s \<subseteq># asked_for L s"
proof -
  assume "relay_run L evs relay_init = Some s"
  then have "relay_inv L s \<and> settled L s \<subseteq># asked_for L s"
    by (rule relay_runs.run_keeps) (auto simp: relay_inv_init settled_init dest: relay_inv_step settled_step(1))
  then show ?thesis ..
qed

lemma settled_run_lossless:
  "relay_run L evs relay_init = Some s \<Longrightarrow> \<forall>ev \<in> set evs. lossless ev \<Longrightarrow> settled L s = asked_for L s"
proof -
  assume run: "relay_run L evs relay_init = Some s" and all: "\<forall>ev \<in> set evs. lossless ev"
  have "relay_inv L s \<and> settled L s = asked_for L s"
    using run _ all
    by (rule relay_runs.run_keeps_if) (auto simp: relay_inv_init settled_init dest: relay_inv_step settled_step(2))
  then show ?thesis ..
qed

section \<open>The end of every task\<close>

text \<open>How many more times a task is scheduled, at most.\<close>

fun stages :: "udp_task \<Rightarrow> nat" where
  "stages (Task_Start data c) = 3"
| "stages (Task_Bind t p c) = 2"
| "stages (Task_Send k t p c) = 1"

definition work :: "relay \<Rightarrow> nat" where
  "work s = sum_list (map stages (tasks s))"

fun of_task :: "relay_event \<Rightarrow> bool" where
  "of_task (Task_Run i) = True"
| "of_task (Bind_Ok i) = True"
| "of_task (Bind_Error i e) = True"
| "of_task (Send_Ok i) = True"
| "of_task (Send_Error i e) = True"
| "of_task _ = False"

fun new_datagram :: "relay_event \<Rightarrow> bool" where
  "new_datagram (Udp_Recv data c) = True"
| "new_datagram _ = False"

lemma work_task:
  assumes "i < length (tasks s)"
  shows "work s = stages (tasks s ! i) + work (end_task i s)"
    and "work (set_task i t s) = stages t + work (end_task i s)"
  by (simp_all add: work_def end_task_def set_task_def sum_list_update [OF assms]
      sum_list_drop_nth [OF assms, of stages])

lemma work_cong: "tasks s = tasks s' \<Longrightarrow> work s = work s'"
  by (simp add: work_def)

lemma work_send: "work (send_task L i k t p s) = work (end_task i s)"
  by (rule work_cong) (simp add: end_task_def split: sum.split)

lemma work_bound: "work (bound_task i t p c s) = work (set_task i (Task_Send (length (bound s)) t p c) s)"
  by (rule work_cong) (simp add: set_task_def Let_def)

lemma work_step:
  assumes "relay_step L ev s = Some s'" "\<not> new_datagram ev"
  shows "work s' + (if of_task ev then 1 else 0) \<le> work s"
  using assms(1)
proof (cases rule: relay_step_cases)
  case (start i data c)
  with work_task [OF start(2)] show ?thesis by (simp split: sum.split prod.split option.split)
next
  case (bind i t p c)
  with work_task [OF bind(2)] show ?thesis by (simp add: work_bound del: bound_task.simps)
next
  case (send i k t p c)
  with work_task [OF send(2)] show ?thesis by (simp add: work_send del: send_task.simps)
next
  case (fail i)
  with work_task(1) [OF fail(2)] show ?thesis by (cases "tasks s ! i") auto
qed (use assms(2) in \<open>auto simp: work_def forward_response_def end_listener_def Let_def\<close>)

lemma work_run:
  "relay_run L evs s = Some s' \<Longrightarrow> \<forall>ev \<in> set evs. \<not> new_datagram ev \<Longrightarrow>
     work s' + length (filter of_task evs) \<le> work s"
proof (induction evs arbitrary: s)
  case Nil
  then show ?case by simp
next
  case (Cons ev evs)
  then obtain s1 where s1: "relay_step L ev s = Some s1" "relay_run L evs s1 = Some s'"
    by (auto split: option.splits)
  with Cons.IH [of s1] Cons.prems(2) work_step [OF s1(1)] show ?case by auto
qed

lemma work_le: "work s \<le> 3 * length (tasks s)"
proof -
  have "stages t \<le> 3" for t by (cases t) auto
  then have "sum_list (map stages ts) \<le> 3 * length ts" for ts
    by (induction ts) (auto intro: add_mono [of _ 3, simplified])
  then show ?thesis by (simp add: work_def)
qed

lemma work_0: "work s = 0 \<longleftrightarrow> tasks s = []"
proof -
  have "stages t \<noteq> 0" for t by (cases t) auto
  then show ?thesis by (cases "tasks s") (auto simp: work_def)
qed

fun task_of :: "relay_event \<Rightarrow> nat option" where
  "task_of (Task_Run i) = Some i"
| "task_of (Bind_Ok i) = Some i"
| "task_of (Bind_Error i e) = Some i"
| "task_of (Send_Ok i) = Some i"
| "task_of (Send_Error i e) = Some i"
| "task_of _ = None"

text \<open>
  A task can always go on, and without a failure unless it is to send to an address of another
  family than its socket's.
\<close>

lemma task_progress:
  assumes "i < length (tasks s)"
  shows "\<exists>ev s'. task_of ev = Some i \<and> relay_step L ev s = Some s' \<and>
    (lossless ev \<or> (\<exists>k t p c. tasks s ! i = Task_Send k t p c \<and> \<not> can_send L (local_addrs s ! k) t))"
proof (cases "tasks s ! i")
  case (Task_Start data c)
  with assms show ?thesis by (intro exI [of _ "Task_Run i"]) (simp add: relay_step_def task_event_def)
next
  case (Task_Bind t p c)
  with assms show ?thesis by (intro exI [of _ "Bind_Ok i"]) (simp add: relay_step_def task_event_def)
next
  case (Task_Send k t p c)
  with assms show ?thesis
    by (cases "can_send L (local_addrs s ! k) t")
      (simp_all add: relay_step_def task_event_def exI [of _ "Send_Ok i"] exI [of _ "Send_Error i []"])
qed

end
