(* ===== verification/Upstream_Base.thy ===== *)
theory Upstream_Base
  imports Stream_IO Config_Model
begin

text \<open>
  \<open>src/upstream/mod.rs\<close> and \<open>src/upstream/direct.rs\<close>: targets, the outside network and the
  direct connector.  \<open>TcpStream::connect\<close> and the TLS library are the record \<open>network\<close> over
  a network state \<open>'n\<close>: \<open>dial\<close> takes the \<open>host:port\<close> text, \<open>server_name_ok\<close> is
  \<open>ServerName::try_from\<close>, \<open>tls_server_roots\<close> the root certificates of the \<open>webpki_roots\<close> crate
  and \<open>tls_connect\<close> the TLS client handshake with a connector.
\<close>

record tls_connector =
  root_store :: "string list"
  client_auth :: bool

record ('n, 's) network =
  dial :: "string \<Rightarrow> ('n, string, 's) io"
  server_name_ok :: "string \<Rightarrow> bool"
  tls_server_roots :: "string list"
  tls_connect :: "tls_connector \<Rightarrow> string \<Rightarrow> 's \<Rightarrow> string + 's"

datatype connect_target = Address string u16

text \<open>\<open>format!("{}:{}", host, port)\<close>.\<close>

definition host_port :: "string \<Rightarrow> u16 \<Rightarrow> string" where
  "host_port host port = host @ '':'' @ show_u16 port"

section \<open>Addresses\<close>

definition extract_host :: "string \<Rightarrow> string" where
  "extract_host addr =
     (case rfind_char (CHR '':'') addr of
        Some colon_pos \<Rightarrow> take colon_pos addr
      | None \<Rightarrow> addr)"

lemma extract_host_host_port [simp]: "extract_host (host_port h p) = h"
  using rfind_char_append [of "CHR '':''" "show_u16 p" h] by (simp add: extract_host_def host_port_def)

lemma host_port_inject: "host_port h p = host_port k q \<longleftrightarrow> h = k \<and> p = q"
proof
  assume eq: "host_port h p = host_port k q"
  then have "h = k" by (metis extract_host_host_port)
  with eq show "h = k \<and> p = q" by (simp add: host_port_def show_u16_inject)
qed simp

section \<open>TLS and the direct connector\<close>

definition create_tls_connector :: "('n, 's) network \<Rightarrow> tls_connector" where
  "create_tls_connector N =
     (let root_store = [] @ tls_server_roots N in \<lparr>root_store = root_store, client_auth = False\<rparr>)"

definition wrap_tls :: "('n, 's) network \<Rightarrow> 's \<Rightarrow> string \<Rightarrow> 's proxy_result" where
  "wrap_tls N stream host =
     (let connector = create_tls_connector N in
      if \<not> server_name_ok N host then Inl (Upstream (''Invalid TLS server name: '' @ host))
      else map_err (\<lambda>e. Upstream (''TLS handshake failed: '' @ e)) (tls_connect N connector host stream))"

text \<open>A dial with the error of the caller's \<open>map_err\<close>.\<close>

definition dial_err :: "('n, 's) network \<Rightarrow> (string \<Rightarrow> proxy_error) \<Rightarrow> string \<Rightarrow> ('n, 's) proxy_io" where
  "dial_err N f addr = (\<lambda>n. case dial N addr n of (r, n') \<Rightarrow> (map_err f r, n'))"

definition direct_connect :: "('n, 's) network \<Rightarrow> connect_target \<Rightarrow> ('n, 's) proxy_io" where
  "direct_connect N tgt =
     (case tgt of Address host port \<Rightarrow> dial_err N Io (host_port host port))"

text \<open>Run an operation on a stream that a connector owns; on an error the stream is dropped.\<close>

definition on_stream :: "('s, unit) proxy_io \<Rightarrow> 's \<Rightarrow> ('n, 's) proxy_io" where
  "on_stream m stream =
     (\<lambda>n. case m stream of (Inl e, _) \<Rightarrow> (Inl e, n) | (Inr _, stream') \<Rightarrow> (Inr stream', n))"

lemma on_stream_net: "on_stream m stream n = (r, n') \<Longrightarrow> n' = n"
  by (auto simp: on_stream_def split: prod.splits sum.splits)

lemma on_stream_Inr [io_conv]:
  "on_stream m stream n = (Inr stream', n') \<longleftrightarrow> n' = n \<and> (\<exists>u. m stream = (Inr u, stream'))"
  by (auto simp: on_stream_def split: prod.splits sum.splits)

lemma dial_err_Inr [io_conv]:
  "dial_err N f addr n = (Inr s, n') \<longleftrightarrow> dial N addr n = (Inr s, n')"
  by (auto simp: dial_err_def split: prod.splits)

section \<open>The contract of connectors\<close>

text \<open>
  What every connector promises of the network, whatever it does on the stream it gets: it
  leaves the network as it was when it does not dial, and otherwise as one dial of the
  address that \<open>entry\<close> names for the target leaves it; and it succeeds only if that dial did.
\<close>

locale connector =
  fixes N :: "('n, 's) network"
    and connect :: "connect_target \<Rightarrow> ('n, 's) proxy_io"
    and entry :: "connect_target \<Rightarrow> string option"
  assumes no_entry: "entry tgt = None \<Longrightarrow> \<exists>e. connect tgt n = (Inl e, n)"
    and one_dial: "entry tgt = Some addr \<Longrightarrow> snd (connect tgt n) = snd (dial N addr n)"
    and needs_dial: "entry tgt = Some addr \<Longrightarrow> connect tgt n = (Inr s, n') \<Longrightarrow>
      \<exists>s0. fst (dial N addr n) = Inr s0"
begin

lemma connect_Inr:
  assumes "connect tgt n = (Inr s, n')"
  obtains addr s0 where "entry tgt = Some addr" "dial N addr n = (Inr s0, n')"
proof (cases "entry tgt")
  case None
  with no_entry [of tgt n] assms show thesis by auto
next
  case (Some addr)
  from needs_dial [OF Some assms] one_dial [OF Some, of n] assms
  have "dial N addr n = (Inr (projr (fst (dial N addr n))), n')"
    by (cases "dial N addr n") auto
  with Some show thesis by (rule that)
qed

lemma dial_fails:
  assumes "entry tgt = Some addr" "dial N addr n = (Inl e, n')"
  shows "\<exists>d. connect tgt n = (Inl d, n')"
proof (cases "connect tgt n")
  case (Pair r m)
  with one_dial [OF assms(1), of n] assms(2) have "m = n'" by simp
  moreover have "\<exists>d. r = Inl d"
  proof (cases r)
    case (Inr s)
    with Pair needs_dial [OF assms(1), of n s m] assms(2) show ?thesis by simp
  qed simp
  ultimately show ?thesis using Pair by auto
qed

end

fun target_entry :: "connect_target \<Rightarrow> string option" where
  "target_entry (Address host port) = Some (host_port host port)"

interpretation direct: connector N "direct_connect N" target_entry for N
proof
  fix tgt n addr and s :: 'b and n'
  show "target_entry tgt = None \<Longrightarrow> \<exists>e. direct_connect N tgt n = (Inl e, n)"
    by (cases tgt) simp
  show "target_entry tgt = Some addr \<Longrightarrow> snd (direct_connect N tgt n) = snd (dial N addr n)"
    by (cases tgt) (auto simp: direct_connect_def dial_err_def split: prod.splits)
  show "target_entry tgt = Some addr \<Longrightarrow> direct_connect N tgt n = (Inr s, n') \<Longrightarrow>
      \<exists>s0. fst (dial N addr n) = Inr s0"
    by (cases tgt) (auto simp: direct_connect_def io_conv)
qed

section \<open>A network as a table\<close>

text \<open>
  A concrete network: what answers at each address, the TLS outcome, and the log of the
  addresses dialled.  It instantiates the record where a property is evaluated.
\<close>

record 's table_net =
  answers :: "(string \<times> (string + 's)) list"
  dial_log :: "string list"

definition table_dial :: "string \<Rightarrow> ('s table_net, string, 's) io" where
  "table_dial addr =
     (\<lambda>n. ((case map_of (answers n) addr of Some r \<Rightarrow> r | None \<Rightarrow> Inl ''Connection refused''),
           n\<lparr>dial_log := dial_log n @ [addr]\<rparr>))"

definition table_network :: "('s table_net, 's) network" where
  "table_network =
     \<lparr>dial = table_dial, server_name_ok = (\<lambda>h. h \<noteq> []), tls_server_roots = [],
      tls_connect = (\<lambda>c h s. Inr s)\<rparr>"

end
