(* ===== verification/Socks_Session.thy ===== *)
theory Socks_Session
  imports Socks_Handshake Upstream_Base
begin

text \<open>
  \<open>src/protocol/socks5/mod.rs\<close> and \<open>src/protocol/socks5/tcp_connect.rs\<close>: one SOCKS5
  connection from the first byte to the end of the tunnel.  The state is the client stream,
  the network, and the tunnel's other end once there is one: the client's stream and the stream
  to the target may be of different kinds.  The operations that are not
  in the handshake are the record \<open>session_ops\<close>: tokio's \<open>copy_bidirectional\<close>, and the UDP
  handler (modelled in \<open>Udp_Packet\<close> and \<open>Udp_Relay\<close>) as the sequential code sees it.
\<close>

record ('s, 't, 'n) session =
  client :: 's
  net :: 'n
  tunnel :: "'t option"

record ('s, 't, 'n) session_ops =
  copy_bidirectional :: "'s \<Rightarrow> 't \<Rightarrow> (string + (nat \<times> nat)) \<times> 's \<times> 't"
  udp_associate :: "socks_request \<Rightarrow> ('s, unit) proxy_io"

type_synonym ('s, 't, 'n, 'a) session_io = "(('s, 't, 'n) session, 'a) proxy_io"

definition on_client :: "('s, 'a) proxy_io \<Rightarrow> ('s, 't, 'n, 'a) session_io" where
  "on_client m = (\<lambda>w. case m (client w) of (r, c) \<Rightarrow> (r, w\<lparr>client := c\<rparr>))"

definition on_net :: "('n, 'a) proxy_io \<Rightarrow> ('s, 't, 'n, 'a) session_io" where
  "on_net m = (\<lambda>w. case m (net w) of (r, n) \<Rightarrow> (r, w\<lparr>net := n\<rparr>))"

section \<open>CONNECT\<close>

fun target_host_port :: "target_addr \<Rightarrow> string \<times> u16" where
  "target_host_port (Ipv4 addr port) = (display_ipv4 addr, port)"
| "target_host_port (Domain domain port) = (domain, port)"
| "target_host_port (Ipv6 addr port) = (display_ipv6 addr, port)"

definition tunnel_copy ::
  "('s, 't, 'n) session_ops \<Rightarrow> 't \<Rightarrow> ('s, 't, 'n, unit) session_io"
where
  "tunnel_copy X target_stream =
     (\<lambda>w. case copy_bidirectional X (client w) target_stream of
        (_, c, t) \<Rightarrow> (Inr (), w\<lparr>client := c, tunnel := Some t\<rparr>))"

definition handle_connect ::
  "'s stream_ops \<Rightarrow> ('n, 't) network \<Rightarrow> ('s, 't, 'n) session_ops \<Rightarrow> socks_request
   \<Rightarrow> ('s, 't, 'n, unit) session_io"
where
  "handle_connect S N X request =
     (case target_host_port (target request) of (host, port) \<Rightarrow>
        match_io (on_net (direct_connect N (Address host port)))
          (\<lambda>e. on_client (send_reply S 0x05 request))
          (\<lambda>target_stream.
             bind_io (on_client (send_reply S 0x00 request)) (\<lambda>_. tunnel_copy X target_stream)))"

section \<open>The session\<close>

definition handle_socks5_inner ::
  "'s stream_ops \<Rightarrow> ('n, 't) network \<Rightarrow> ('s, 't, 'n) session_ops \<Rightarrow> user_credential list option
   \<Rightarrow> ('s, 't, 'n, unit) session_io"
where
  "handle_socks5_inner S N X users =
     bind_io (on_client (negotiate_method S users)) (\<lambda>meth.
     bind_io
       (if meth = 0x02 then
          (case users of
             Some user_list \<Rightarrow> on_client (authenticate_user S user_list)
           | None \<Rightarrow> raise (Socks5 ''Authentication required but no users configured''))
        else ret ()) (\<lambda>_.
     bind_io (on_client (read_request S)) (\<lambda>request.
     case command request of
       Connect \<Rightarrow> handle_connect S N X request
     | UdpAssociate \<Rightarrow> on_client (udp_associate X request)
     | Bind \<Rightarrow> on_client (send_reply S 0x07 request))))"

text \<open>\<open>handle_socks5\<close> logs an error and returns; the text it logs is the result here.\<close>

definition handle_socks5 ::
  "'s stream_ops \<Rightarrow> ('n, 't) network \<Rightarrow> ('s, 't, 'n) session_ops \<Rightarrow> user_credential list option
   \<Rightarrow> ('s, 't, 'n) session \<Rightarrow> string option \<times> ('s, 't, 'n) session"
where
  "handle_socks5 S N X users w =
     (case handle_socks5_inner S N X users w of
        (Inl e, w') \<Rightarrow> (Some (display_error e), w')
      | (Inr _, w') \<Rightarrow> (None, w'))"

section \<open>Facts\<close>

lemma on_client_Inr [io_conv]:
  "on_client m w = (Inr x, w') \<longleftrightarrow> (\<exists>c. m (client w) = (Inr x, c) \<and> w' = w\<lparr>client := c\<rparr>)"
  by (auto simp: on_client_def split: prod.splits)

lemma on_client_Inl [io_conv]:
  "on_client m w = (Inl e, w') \<longleftrightarrow> (\<exists>c. m (client w) = (Inl e, c) \<and> w' = w\<lparr>client := c\<rparr>)"
  by (auto simp: on_client_def split: prod.splits)

lemma on_client_net: "on_client m w = (r, w') \<Longrightarrow> net w' = net w \<and> tunnel w' = tunnel w"
  by (auto simp: on_client_def split: prod.splits)

lemma on_client_apply:
  "m (client w) = (r, c) \<Longrightarrow> on_client m w = (r, w\<lparr>client := c\<rparr>)"
  by (simp add: on_client_def)

text \<open>
  Everything before the command: the method, the credentials when the method asks for them,
  and the request.  \<open>admitted\<close> says what the client has sent when the session reaches its
  command.
\<close>

definition phases :: "'s stream_ops \<Rightarrow> user_credential list option \<Rightarrow> ('s, socks_request) proxy_io" where
  "phases S users =
     bind_io (negotiate_method S users) (\<lambda>meth.
     bind_io
       (if meth = 0x02 then
          (case users of
             Some user_list \<Rightarrow> authenticate_user S user_list
           | None \<Rightarrow> raise (Socks5 ''Authentication required but no users configured''))
        else ret ()) (\<lambda>_. read_request S))"

definition admitted :: "user_credential list option \<Rightarrow> bytes \<Rightarrow> socks_request \<Rightarrow> bool" where
  "admitted users bs req \<longleftrightarrow>
     (\<exists>ms rsv. length ms < 256 \<and>
       (case users of
          None \<Rightarrow> 0x00 \<in> set ms \<and> bs = methods_wire ms @ request_wire rsv req
        | Some us \<Rightarrow> 0x02 \<in> set ms \<and>
            (\<exists>user pass. verify_credentials user pass us \<and> rust_string user \<and> rust_string pass \<and>
               length user < 256 \<and> length pass < 256 \<and>
               bs = methods_wire ms @ auth_wire user pass @ request_wire rsv req)))"

definition admission_reply :: "user_credential list option \<Rightarrow> bytes" where
  "admission_reply users = (if users = None then [0x05, 0x00] else [0x05, 0x02, 0x01, 0x00])"

lemma on_client_bind: "on_client (bind_io m k) = bind_io (on_client m) (\<lambda>x. on_client (k x))"
  by (auto simp: fun_eq_iff on_client_def bind_io_def split: prod.splits sum.splits)

lemma on_client_pure [simp]: "on_client (ret x) = ret x" "on_client (raise e) = raise e"
  by (simp_all add: fun_eq_iff on_client_def)

lemma on_client_if: "on_client (if b then m else n) = (if b then on_client m else on_client n)"
  by simp

lemma handle_socks5_inner_phases:
  "handle_socks5_inner S N X users =
     bind_io (on_client (phases S users)) (\<lambda>request.
     case command request of
       Connect \<Rightarrow> handle_connect S N X request
     | UdpAssociate \<Rightarrow> on_client (udp_associate X request)
     | Bind \<Rightarrow> on_client (send_reply S 0x07 request))"
  unfolding handle_socks5_inner_def phases_def on_client_bind bind_io_assoc
  by (intro arg_cong2 [where f = bind_io] refl ext) (auto split: option.split)

context byte_stream begin

lemma phases_Inr:
  assumes "phases S users s = (Inr req, s')"
  shows "\<exists>bs. admitted users bs req \<and> wf_target (target req) \<and> short_target (target req) \<and>
    pending s = bs @ pending s' \<and> sent s' = sent s @ admission_reply users"
proof -
  from assms obtain m s1 s2 where 1: "negotiate_method S users s = (Inr m, s1)"
    and 2: "(if m = 0x02 then
          (case users of
             Some user_list \<Rightarrow> authenticate_user S user_list
           | None \<Rightarrow> raise (Socks5 ''Authentication required but no users configured''))
        else ret ()) s1 = (Inr (), s2)"
    and 3: "read_request S s2 = (Inr req, s')"
    by (auto simp: phases_def io_conv)
  from negotiate_Inr [OF 1] obtain ms where
    ms: "pending s = methods_wire ms @ pending s1" "length ms < 256" "m \<in> set ms"
      "m = (if users = None then 0x00 else 0x02)" "sent s1 = sent s @ [0x05, m]" by auto
  from read_request_Inr [OF 3] obtain rsv where
    rq: "pending s2 = request_wire rsv req @ pending s'" "wf_target (target req)"
      "short_target (target req)" "sent s' = sent s2" by auto
  show ?thesis
  proof (cases users)
    case None
    with ms 2 have "s2 = s1" by simp
    with ms rq None show ?thesis
      by (intro exI [of _ "methods_wire ms @ request_wire rsv req"])
        (auto simp: admitted_def admission_reply_def)
  next
    case (Some us)
    with ms 2 have "authenticate_user S us s1 = (Inr (), s2)" by simp
    from authenticate_Inr [OF this] obtain user pass where
      up: "verify_credentials user pass us" "rust_string user" "rust_string pass" "length user < 256" "length pass < 256"
        "pending s1 = auth_wire user pass @ pending s2" "sent s2 = sent s1 @ [0x01, 0x00]" by auto
    with ms rq Some show ?thesis
      by (intro exI [of _ "methods_wire ms @ auth_wire user pass @ request_wire rsv req"])
        (auto simp: admitted_def admission_reply_def)
  qed
qed

end

context live_stream begin

lemma phases_live:
  assumes h: "healthy s" and p: "pending s = bs @ rest" and adm: "admitted users bs req"
    and wf: "wf_target (target req)" "short_target (target req)"
  shows "\<exists>s'. phases S users s = (Inr req, s') \<and> healthy s' \<and> pending s' = rest \<and>
    sent s' = sent s @ admission_reply users"
proof (cases users)
  case None
  with adm obtain ms rsv where ms: "length ms < 256" "0x00 \<in> set ms"
    and bs: "bs = methods_wire ms @ request_wire rsv req"
    by (auto simp: admitted_def)
  have sel: "select_method users ms = 0x00" using ms None by (simp add: select_method_def)
  from p bs have "pending s = methods_wire ms @ (request_wire rsv req @ rest)" by simp
  from negotiate_live [OF h this ms(1), of users] sel obtain s1 where
    1: "negotiate_method S users s = (Inr 0x00, s1)" "healthy s1"
      "pending s1 = request_wire rsv req @ rest" "sent s1 = sent s @ [0x05, 0x00]" by auto
  from read_request_live [OF 1(2,3) wf] 1 None show ?thesis
    by (auto simp: phases_def admission_reply_def)
next
  case (Some us)
  with adm obtain ms rsv user pass where ms: "length ms < 256" "0x02 \<in> set ms"
    and up: "verify_credentials user pass us" "rust_string user" "rust_string pass"
      "length user < 256" "length pass < 256"
    and bs: "bs = methods_wire ms @ auth_wire user pass @ request_wire rsv req"
    by (auto simp: admitted_def)
  have sel: "select_method users ms = 0x02" using ms Some by (simp add: select_method_def)
  from p bs have "pending s = methods_wire ms @ (auth_wire user pass @ request_wire rsv req @ rest)"
    by simp
  from negotiate_live [OF h this ms(1), of users] sel obtain s1 where
    1: "negotiate_method S users s = (Inr 0x02, s1)" "healthy s1"
      "pending s1 = auth_wire user pass @ (request_wire rsv req @ rest)"
      "sent s1 = sent s @ [0x05, 0x02]" by auto
  from authenticate_live [OF 1(2,3) up(4,5,2,3), of us] up(1) obtain s2 where
    2: "authenticate_user S us s1 = (Inr (), s2)" "healthy s2"
      "pending s2 = request_wire rsv req @ rest" "sent s2 = sent s1 @ [0x01, 0x00]" by auto
  from read_request_live [OF 2(2,3) wf] 1 2 Some show ?thesis
    by (auto simp: phases_def admission_reply_def)
qed

lemma phases_accept_iff:
  assumes "healthy s"
  shows "(\<exists>s'. phases S users s = (Inr req, s') \<and> pending s' = rest) \<longleftrightarrow>
    (\<exists>bs. admitted users bs req \<and> wf_target (target req) \<and> short_target (target req) \<and>
       pending s = bs @ rest)"
  using phases_Inr phases_live [OF assms] by metis

end

context timed_stream begin

lemma phases_costs: "costs 11 (phases S users)"
proof -
  have auth: "costs 5 (if m = 0x02 then
      (case users of
         Some user_list \<Rightarrow> authenticate_user S user_list
       | None \<Rightarrow> raise (Socks5 ''Authentication required but no users configured''))
      else ret ())" for m :: u8
    by (auto intro: authenticate_costs costs_weaken [OF costs_pure(1)]
        costs_weaken [OF costs_pure(2)] split: option.split)
  have "costs (2 + (5 + 4)) (phases S users)"
    unfolding phases_def by (intro costs_bind negotiate_costs auth read_request_costs)
  then show ?thesis by simp
qed

end

section \<open>The command\<close>

definition reply_bytes :: "u8 \<Rightarrow> bytes" where
  "reply_bytes rep = [0x05, rep, 0x00, 0x01, 0x00, 0x00, 0x00, 0x00, 0x00, 0x00]"

text \<open>The address a request makes the session dial.\<close>

definition request_addr :: "socks_request \<Rightarrow> string" where
  "request_addr req = (case target_host_port (target req) of (h, p) \<Rightarrow> host_port h p)"

lemma direct_connect_request:
  "target_host_port (target req) = (h, p) \<Longrightarrow>
     direct_connect N (Address h p) = dial_err N Io (request_addr req)"
  by (simp add: direct_connect_def request_addr_def)

lemma send_reply_eq: "send_reply S rep req = io_write_all S (reply_bytes rep)"
  by (simp add: send_reply_def reply_bytes_def)

lemma handle_connect_refused:
  assumes "dial N (request_addr req) (net w) = (Inl e, n)"
  shows "handle_connect S N X req w = on_client (send_reply S 0x05 req) (w\<lparr>net := n\<rparr>)"
proof -
  obtain h p where hp: "target_host_port (target req) = (h, p)" by (cases "target_host_port (target req)")
  with assms have "on_net (direct_connect N (Address h p)) w = (Inl (Io e), w\<lparr>net := n\<rparr>)"
    by (simp add: direct_connect_request on_net_def dial_err_def)
  with hp show ?thesis by (simp add: handle_connect_def)
qed

lemma handle_connect_dialled:
  assumes "dial N (request_addr req) (net w) = (Inr t, n)"
  shows "handle_connect S N X req w =
    bind_io (on_client (send_reply S 0x00 req)) (\<lambda>_. tunnel_copy X t) (w\<lparr>net := n\<rparr>)"
proof -
  obtain h p where hp: "target_host_port (target req) = (h, p)" by (cases "target_host_port (target req)")
  with assms have "on_net (direct_connect N (Address h p)) w = (Inr t, w\<lparr>net := n\<rparr>)"
    by (simp add: direct_connect_request on_net_def dial_err_def)
  with hp show ?thesis by (simp add: handle_connect_def)
qed

lemma on_client_keeps_net: "net (snd (on_client m w)) = net w"
  by (simp add: on_client_def split: prod.split)

lemma tunnel_copy_net: "net (snd (tunnel_copy X t w)) = net w"
  by (simp add: tunnel_copy_def split: prod.split)

lemma handle_connect_net:
  "net (snd (handle_connect S N X req w)) = snd (dial N (request_addr req) (net w))"
proof (cases "dial N (request_addr req) (net w)")
  case (Pair r n)
  show ?thesis
  proof (cases r)
    case (Inl e)
    with Pair show ?thesis by (simp add: handle_connect_refused on_client_keeps_net)
  next
    case (Inr t)
    with Pair show ?thesis
      using on_client_keeps_net [of "send_reply S 0x00 req" "w\<lparr>net := n\<rparr>"]
      by (auto simp: handle_connect_dialled bind_io_def tunnel_copy_net
          split: prod.split sum.split)
  qed
qed

text \<open>The network is touched by an admitted CONNECT only, and by one dial of its address.\<close>

lemma session_dial_admitted:
  assumes run: "handle_socks5_inner S N X users w = (r, w')" and touched: "net w' \<noteq> net w"
  obtains req c where "phases S users (client w) = (Inr req, c)" "command req = Connect"
    "net w' = snd (dial N (request_addr req) (net w))"
proof (cases "phases S users (client w)")
  case (Pair q c)
  then have on: "on_client (phases S users) w = (q, w\<lparr>client := c\<rparr>)"
    by (rule on_client_apply)
  show thesis
  proof (cases q)
    case (Inl e)
    with on run touched show thesis by (auto simp: handle_socks5_inner_phases)
  next
    case (Inr req)
    with on run have run': "(case command req of
       Connect \<Rightarrow> handle_connect S N X req
     | UdpAssociate \<Rightarrow> on_client (udp_associate X req)
     | Bind \<Rightarrow> on_client (send_reply S 0x07 req)) (w\<lparr>client := c\<rparr>) = (r, w')"
      by (simp add: handle_socks5_inner_phases)
    show thesis
    proof (cases "command req")
      case Connect
      with run' have "net w' = net (snd (handle_connect S N X req (w\<lparr>client := c\<rparr>)))" by simp
      then have "net w' = snd (dial N (request_addr req) (net w))"
        by (simp add: handle_connect_net)
      with Pair Inr Connect show thesis by (intro that) simp_all
    next
      case Bind
      with run' touched show thesis by (auto dest: on_client_net)
    next
      case UdpAssociate
      with run' touched show thesis by (auto dest: on_client_net)
    qed
  qed
qed

end
