(* ===== verification/Socks_Properties.thy ===== *)
theory Socks_Properties
  imports Socks_Session
begin

text \<open>
  The properties of a SOCKS5 session on a scripted connection: who may cause an outgoing
  connection, what a well-formed client gets for each command, what a client that is not
  admitted gets, and how long the handshake can wait.
\<close>

section \<open>Lemmas\<close>

lemma session_admitted:
  assumes "conn_healthy (client w)" "conn_pending (client w) = bs @ rest" "admitted users bs req"
    and "wf_target (target req)" "short_target (target req)"
  obtains c where "conn_healthy c" "conn_pending c = rest"
    "tx_bytes c = tx_bytes (client w) @ admission_reply users"
    "handle_socks5_inner conn_ops N X users w =
       (case command req of
          Connect \<Rightarrow> handle_connect conn_ops N X req
        | UdpAssociate \<Rightarrow> on_client (udp_associate X req)
        | Bind \<Rightarrow> on_client (send_reply conn_ops 0x07 req)) (w\<lparr>client := c\<rparr>)"
proof -
  from cl.phases_live [OF assms] obtain c where c: "phases conn_ops users (client w) = (Inr req, c)"
    "conn_healthy c" "conn_pending c = rest" "tx_bytes c = tx_bytes (client w) @ admission_reply users"
    by auto
  then show thesis
    by (intro that [of c]) (simp_all add: handle_socks5_inner_phases on_client_def)
qed

lemma send_reply_live:
  assumes "conn_healthy c"
  obtains d where
    "on_client (send_reply conn_ops rep req) (w\<lparr>client := c, net := n\<rparr>) =
      (Inr (), w\<lparr>client := d, net := n\<rparr>)"
    "conn_healthy d" "conn_pending d = conn_pending c" "tx_bytes d = tx_bytes c @ reply_bytes rep"
proof -
  from cl.io_write_live [OF assms, of "reply_bytes rep"] obtain d where
    d: "io_write_all conn_ops (reply_bytes rep) c = (Inr (), d)" "conn_healthy d"
    "conn_pending d = conn_pending c" "tx_bytes d = tx_bytes c @ reply_bytes rep" .
  then show thesis by (intro that [of d]) (simp_all add: on_client_def send_reply_eq)
qed

lemma session_connect_dialled:
  assumes "conn_healthy (client w)" "conn_pending (client w) = bs @ rest" "admitted users bs req"
    and "wf_target (target req)" "short_target (target req)" "command req = Connect"
    and "dial N (request_addr req) (net w) = (Inr t, n)"
  shows "\<exists>c. conn_pending c = rest \<and>
    tx_bytes c = tx_bytes (client w) @ admission_reply users @ reply_bytes 0x00 \<and>
    handle_socks5_inner conn_ops N X users w = tunnel_copy X t (w\<lparr>client := c, net := n\<rparr>)"
proof (rule session_admitted [OF assms(1-5), of N X])
  fix c
  assume c: "conn_healthy c" "conn_pending c = rest" "tx_bytes c = tx_bytes (client w) @ admission_reply users"
    and run: "handle_socks5_inner conn_ops N X users w =
       (case command req of
          Connect \<Rightarrow> handle_connect conn_ops N X req
        | UdpAssociate \<Rightarrow> on_client (udp_associate X req)
        | Bind \<Rightarrow> on_client (send_reply conn_ops 0x07 req)) (w\<lparr>client := c\<rparr>)"
  obtain d where "on_client (send_reply conn_ops 0x00 req) (w\<lparr>client := c, net := n\<rparr>) =
      (Inr (), w\<lparr>client := d, net := n\<rparr>)" "conn_healthy d" "conn_pending d = conn_pending c"
    "tx_bytes d = tx_bytes c @ reply_bytes 0x00"
    by (rule send_reply_live [OF c(1)])
  with run c assms(6,7) show ?thesis
    by (intro exI [of _ d]) (simp add: handle_connect_dialled)
qed

lemma session_connect_refused:
  assumes "conn_healthy (client w)" "conn_pending (client w) = bs @ rest" "admitted users bs req"
    and "wf_target (target req)" "short_target (target req)" "command req = Connect"
    and "dial N (request_addr req) (net w) = (Inl e, n)"
  shows "\<exists>c. handle_socks5_inner conn_ops N X users w = (Inr (), w\<lparr>client := c, net := n\<rparr>) \<and>
    conn_pending c = rest \<and>
    tx_bytes c = tx_bytes (client w) @ admission_reply users @ reply_bytes 0x05"
proof (rule session_admitted [OF assms(1-5), of N X])
  fix c
  assume c: "conn_healthy c" "conn_pending c = rest" "tx_bytes c = tx_bytes (client w) @ admission_reply users"
    and run: "handle_socks5_inner conn_ops N X users w =
       (case command req of
          Connect \<Rightarrow> handle_connect conn_ops N X req
        | UdpAssociate \<Rightarrow> on_client (udp_associate X req)
        | Bind \<Rightarrow> on_client (send_reply conn_ops 0x07 req)) (w\<lparr>client := c\<rparr>)"
  obtain d where "on_client (send_reply conn_ops 0x05 req) (w\<lparr>client := c, net := n\<rparr>) =
      (Inr (), w\<lparr>client := d, net := n\<rparr>)" "conn_healthy d" "conn_pending d = conn_pending c"
    "tx_bytes d = tx_bytes c @ reply_bytes 0x05"
    by (rule send_reply_live [OF c(1)])
  with run c assms(6,7) show ?thesis
    by (intro exI [of _ d]) (simp add: handle_connect_refused)
qed

lemma session_refused:
  assumes "phases conn_ops users (client w) = (Inl e, c)"
  shows "handle_socks5_inner conn_ops N X users w = (Inl e, w\<lparr>client := c\<rparr>)"
  using assms by (simp add: handle_socks5_inner_phases on_client_def)

lemma phases_Inl_output:
  assumes "phases conn_ops users c = (Inl e, c')"
  shows "\<exists>out \<in> {[], [0x05], [0x05, 0xFF], [0x05, 0x00], [0x05, 0x02], [0x05, 0x02, 0x01],
      [0x05, 0x02, 0x01, 0x01], [0x05, 0x02, 0x01, 0x00]}. tx_bytes c' = tx_bytes c @ out"
proof -
  from assms consider (neg) "negotiate_method conn_ops users c = (Inl e, c')"
    | (later) m c1 where "negotiate_method conn_ops users c = (Inr m, c1)"
      "bind_io (if m = 0x02 then
          (case users of
             Some user_list \<Rightarrow> authenticate_user conn_ops user_list
           | None \<Rightarrow> raise (Socks5 ''Authentication required but no users configured''))
        else ret ()) (\<lambda>_. read_request conn_ops) c1 = (Inl e, c')"
    unfolding phases_def bind_io_Inl by blast
  then show ?thesis
  proof cases
    case neg
    from cs.negotiate_Inl [OF neg] show ?thesis by auto
  next
    case later
    from cs.negotiate_Inr [OF later(1)] have m: "m = (if users = None then 0x00 else 0x02)"
      and t: "tx_bytes c1 = tx_bytes c @ [0x05, m]" by auto
    show ?thesis
    proof (cases users)
      case None
      with m later(2) have "read_request conn_ops c1 = (Inl e, c')" by simp
      from cs.read_request_sent [OF this] t m None show ?thesis by simp
    next
      case (Some us)
      with m later(2) consider "authenticate_user conn_ops us c1 = (Inl e, c')"
        | c2 where "authenticate_user conn_ops us c1 = (Inr (), c2)"
          "read_request conn_ops c2 = (Inl e, c')"
        by (auto simp: bind_io_Inl)
      then show ?thesis
      proof cases
        case 1
        from cs.authenticate_Inl [OF 1] t m Some show ?thesis by auto
      next
        case 2
        from cs.authenticate_Inr [OF 2(1)] cs.read_request_sent [OF 2(2)] t m Some
        show ?thesis by auto
      qed
    qed
  qed
qed

lemma session_bad_method:
  assumes "conn_healthy (client w)" "conn_pending (client w) = methods_wire ms @ rest"
    and "length ms < 256" "select_method users ms = 0xFF"
  obtains c where "handle_socks5_inner conn_ops N X users w =
      (Inl (Socks5 ''No acceptable authentication method''), w\<lparr>client := c\<rparr>)"
    "conn_pending c = rest" "tx_bytes c = tx_bytes (client w) @ [0x05, 0xFF]"
proof -
  from cl.negotiate_live [OF assms(1-3), of users] assms(4) obtain c where
    c: "negotiate_method conn_ops users (client w) = (Inl (Socks5 ''No acceptable authentication method''), c)"
    "conn_pending c = rest" "tx_bytes c = tx_bytes (client w) @ [0x05, 0xFF]" by auto
  then show thesis
    by (intro that [of c] session_refused) (simp_all add: phases_def)
qed


section \<open>Sample sessions\<close>

definition sample_ops :: "(conn, conn, 'n) session_ops" where
  "sample_ops = \<lparr>copy_bidirectional = (\<lambda>c t. (Inr (0, 0), c, t)), udp_associate = (\<lambda>req. ret ())\<rparr>"

definition sample_net :: "conn table_net" where
  "sample_net = \<lparr>answers = [(''example.org:443'', Inr (peer_sends []))], dial_log = []\<rparr>"

definition sample_session :: "bytes \<Rightarrow> (conn, conn, conn table_net) session" where
  "sample_session bs = \<lparr>client = peer_sends bs, net = sample_net, tunnel = None\<rparr>"

definition sample_request :: socks_request where
  "sample_request = \<lparr>command = Connect, target = Domain ''example.org'' 443\<rparr>"

definition sample_creds :: "user_credential list" where
  "sample_creds = [\<lparr>username = ''alice'', password = ''secret''\<rparr>]"

definition sample_bytes :: bytes where
  "sample_bytes = methods_wire [0x00, 0x02] @ auth_wire ''alice'' ''secret'' @ request_wire 0x00 sample_request"

lemma sample_request_simps [simp]:
  "command sample_request = Connect" "wf_target (target sample_request)"
  "short_target (target sample_request)" "rust_string ''alice''" "rust_string ''secret''"
  by (simp_all add: sample_request_def rust_string_ascii is_ascii_def)

lemma sample_session_simps [simp]:
  "client (sample_session bs) = peer_sends bs" "net (sample_session bs) = sample_net"
  by (simp_all add: sample_session_def)

lemma sample_addr: "request_addr sample_request = ''example.org:443''"
  by code_simp

lemma sample_dial:
  "dial table_network (request_addr sample_request) sample_net =
     (Inr (peer_sends []), sample_net\<lparr>dial_log := [''example.org:443'']\<rparr>)"
  by (simp add: table_network_def table_dial_def sample_addr sample_net_def)

lemma sample_admitted: "admitted (Some sample_creds) sample_bytes sample_request"
  unfolding admitted_def
  by (simp, intro exI [of _ "[0x00, 0x02]"] exI [of _ 0] exI [of _ "''alice''"] exI [of _ "''secret''"])
    (auto simp: sample_bytes_def sample_creds_def verify_credentials_def)

section \<open>Properties\<close>

text \<open>
  C2: Whatever a peer sends, with whatever pauses and faults, the session causes an outgoing
  connection only after the peer has sent, as the first bytes, a method offer that contains
  the configured method, credentials of a configured user when users are configured, and a
  well-formed CONNECT request; and then it makes one dial, of the address of that request.
\<close>

theorem socks_dials_only_when_admitted:
  assumes "handle_socks5_inner conn_ops N X users w = (r, w')" and "net w' \<noteq> net w"
  shows "\<exists>bs rest req. conn_pending (client w) = bs @ rest \<and> admitted users bs req \<and>
    wf_target (target req) \<and> command req = Connect \<and>
    net w' = snd (dial N (request_addr req) (net w))"
  using assms
proof (rule session_dial_admitted)
  fix req c
  assume "phases conn_ops users (client w) = (Inr req, c)" "command req = Connect"
    "net w' = snd (dial N (request_addr req) (net w))"
  with cs.phases_Inr show ?thesis by blast
qed

theorem socks_dials_only_when_admitted_witness:
  "\<exists>bs rest req. conn_pending (peer_sends sample_bytes) = bs @ rest \<and>
     admitted (Some sample_creds) bs req \<and> wf_target (target req) \<and> command req = Connect \<and>
     net (snd (handle_socks5_inner conn_ops table_network sample_ops (Some sample_creds)
       (sample_session sample_bytes))) = snd (dial table_network (request_addr req) sample_net)"
proof -
  have "conn_pending (client (sample_session sample_bytes)) = sample_bytes @ []" by simp
  from session_connect_dialled [OF _ this sample_admitted _ _ _ sample_dial [folded sample_session_simps(2) [of sample_bytes]]]
  obtain c where "handle_socks5_inner conn_ops table_network sample_ops (Some sample_creds) (sample_session sample_bytes) =
      tunnel_copy sample_ops (peer_sends []) (sample_session sample_bytes
        \<lparr>client := c, net := sample_net\<lparr>dial_log := [''example.org:443'']\<rparr>\<rparr>)"
    by auto
  then have "net (snd (handle_socks5_inner conn_ops table_network sample_ops (Some sample_creds)
       (sample_session sample_bytes))) \<noteq> net (sample_session sample_bytes)"
    by (simp add: tunnel_copy_net) (simp add: sample_net_def)
  from socks_dials_only_when_admitted [OF prod.collapse [symmetric] this] show ?thesis by simp
qed

text \<open>
  C17: CONNECT.  A client that sends an admitted prefix and a well-formed request, and whose
  target answers, gets the method choice, the credential status when there are users, and the
  success reply, in this order and nothing else, before the tunnel starts; what it sent after
  the request is left for the tunnel.
\<close>

theorem socks_connect_reply:
  assumes "conn_healthy (client w)" "conn_pending (client w) = bs @ rest" "admitted users bs req"
    and "wf_target (target req)" "short_target (target req)" "command req = Connect"
    and "dial N (request_addr req) (net w) = (Inr t, n)"
  shows "\<exists>c. conn_pending c = rest \<and>
    tx_bytes c = tx_bytes (client w) @ admission_reply users @ reply_bytes 0x00 \<and>
    handle_socks5_inner conn_ops N X users w = tunnel_copy X t (w\<lparr>client := c, net := n\<rparr>)"
  using assms by (rule session_connect_dialled)

theorem socks_connect_reply_witness:
  "\<exists>c. conn_pending c = [0x16] \<and>
    tx_bytes c = [0x05, 0x02, 0x01, 0x00, 0x05, 0x00, 0x00, 0x01, 0x00, 0x00, 0x00, 0x00, 0x00, 0x00] \<and>
    handle_socks5_inner conn_ops table_network sample_ops (Some sample_creds)
      (sample_session (sample_bytes @ [0x16])) =
      tunnel_copy sample_ops (peer_sends []) (sample_session (sample_bytes @ [0x16])
        \<lparr>client := c, net := sample_net\<lparr>dial_log := [''example.org:443'']\<rparr>\<rparr>)"
proof -
  let ?w = "sample_session (sample_bytes @ [0x16])"
  have p: "conn_pending (client ?w) = sample_bytes @ [0x16]" and h: "conn_healthy (client ?w)"
    by simp_all
  have d: "dial table_network (request_addr sample_request) (net ?w) =
      (Inr (peer_sends []), sample_net\<lparr>dial_log := [''example.org:443'']\<rparr>)"
    by (simp add: sample_dial)
  from socks_connect_reply [OF h p sample_admitted sample_request_simps(2,3,1) d, of sample_ops]
  show ?thesis by (simp add: admission_reply_def reply_bytes_def)
qed

text \<open>
  CONNECT to a target that cannot be reached: one dial, then the reply 0x05, and the
  session ends without an error and without a tunnel.
\<close>

lemma socks_connect_refused:
  assumes "conn_healthy (client w)" "conn_pending (client w) = bs @ rest" "admitted users bs req"
    and "wf_target (target req)" "short_target (target req)" "command req = Connect"
    and "dial N (request_addr req) (net w) = (Inl e, n)"
  shows "\<exists>c. handle_socks5_inner conn_ops N X users w = (Inr (), w\<lparr>client := c, net := n\<rparr>) \<and>
    conn_pending c = rest \<and>
    tx_bytes c = tx_bytes (client w) @ admission_reply users @ reply_bytes 0x05"
  using assms by (rule session_connect_refused)

lemma socks_connect_refused_witness:
  "\<exists>c. handle_socks5_inner conn_ops table_network sample_ops (Some sample_creds)
      (sample_session sample_bytes\<lparr>net := sample_net\<lparr>answers := []\<rparr>\<rparr>) =
      (Inr (), sample_session sample_bytes\<lparr>client := c,
         net := sample_net\<lparr>answers := [], dial_log := [''example.org:443'']\<rparr>\<rparr>) \<and> conn_pending c = [] \<and>
    tx_bytes c = [0x05, 0x02, 0x01, 0x00, 0x05, 0x05, 0x00, 0x01, 0x00, 0x00, 0x00, 0x00, 0x00, 0x00]"
proof -
  let ?w = "sample_session sample_bytes\<lparr>net := sample_net\<lparr>answers := []\<rparr>\<rparr>"
  have "dial table_network (request_addr sample_request) (net ?w) =
      (Inl ''Connection refused'', sample_net\<lparr>answers := [], dial_log := [''example.org:443'']\<rparr>)"
    by (simp add: table_network_def table_dial_def sample_addr sample_net_def)
  from socks_connect_refused [OF _ _ sample_admitted sample_request_simps(2,3,1) this, of "[]" sample_ops]
  show ?thesis by (simp add: admission_reply_def reply_bytes_def sample_session_def)
qed

text \<open>
  BIND is answered with 0x07 (command not supported) and dials nothing.
\<close>

lemma socks_bind_unsupported:
  assumes "conn_healthy (client w)" "conn_pending (client w) = bs @ rest" "admitted users bs req"
    and "wf_target (target req)" "short_target (target req)" "command req = Bind"
  shows "\<exists>c. handle_socks5_inner conn_ops N X users w = (Inr (), w\<lparr>client := c\<rparr>) \<and>
    conn_pending c = rest \<and>
    tx_bytes c = tx_bytes (client w) @ admission_reply users @ reply_bytes 0x07"
proof (rule session_admitted [OF assms(1-5), of N X])
  fix c
  assume c: "conn_healthy c" "conn_pending c = rest" "tx_bytes c = tx_bytes (client w) @ admission_reply users"
    and run: "handle_socks5_inner conn_ops N X users w =
       (case command req of
          Connect \<Rightarrow> handle_connect conn_ops N X req
        | UdpAssociate \<Rightarrow> on_client (udp_associate X req)
        | Bind \<Rightarrow> on_client (send_reply conn_ops 0x07 req)) (w\<lparr>client := c\<rparr>)"
  obtain d where "on_client (send_reply conn_ops 0x07 req) (w\<lparr>client := c, net := net w\<rparr>) =
      (Inr (), w\<lparr>client := d, net := net w\<rparr>)" "conn_healthy d" "conn_pending d = conn_pending c"
    "tx_bytes d = tx_bytes c @ reply_bytes 0x07"
    by (rule send_reply_live [OF c(1)])
  with run c assms(6) show ?thesis by (intro exI [of _ d]) simp
qed

lemma socks_bind_unsupported_witness:
  "\<exists>c. handle_socks5_inner conn_ops table_network sample_ops None
      (sample_session (methods_wire [0x00] @ request_wire 0 (sample_request\<lparr>command := Bind\<rparr>))) =
      (Inr (), sample_session (methods_wire [0x00] @ request_wire 0 (sample_request\<lparr>command := Bind\<rparr>))
        \<lparr>client := c\<rparr>) \<and> conn_pending c = [] \<and>
    tx_bytes c = [0x05, 0x00, 0x05, 0x07, 0x00, 0x01, 0x00, 0x00, 0x00, 0x00, 0x00, 0x00]"
proof -
  let ?bs = "methods_wire [0x00] @ request_wire 0 (sample_request\<lparr>command := Bind\<rparr>)"
  have adm: "admitted None ?bs (sample_request\<lparr>command := Bind\<rparr>)"
    unfolding admitted_def by (simp, intro exI [of _ "[0x00]"] exI [of _ 0]) auto
  have p: "conn_pending (client (sample_session ?bs)) = ?bs @ []" by simp
  from socks_bind_unsupported [OF _ p adm, of table_network sample_ops] show ?thesis
    by (simp add: admission_reply_def reply_bytes_def)
qed



text \<open>
  A client whose method offer does not contain the method the configuration asks for
  (user name and password with users, none without) gets [5, 0xFF], and the session ends with
  an error before it reads credentials or a request.
\<close>

lemma socks_no_acceptable_method:
  assumes "conn_healthy (client w)" "conn_pending (client w) = methods_wire ms @ rest" "length ms < 256"
    and "(if users = None then 0x00 else 0x02) \<notin> set ms"
  shows "\<exists>c. handle_socks5 conn_ops N X users w =
      (Some ''SOCKS5 error: No acceptable authentication method'', w\<lparr>client := c\<rparr>) \<and>
    conn_pending c = rest \<and> tx_bytes c = tx_bytes (client w) @ [0x05, 0xFF]"
proof -
  have "select_method users ms = 0xFF"
    using assms(4) by (auto simp: select_method_def split: option.split)
  with assms(1-3) obtain c where "handle_socks5_inner conn_ops N X users w =
      (Inl (Socks5 ''No acceptable authentication method''), w\<lparr>client := c\<rparr>)"
    "conn_pending c = rest" "tx_bytes c = tx_bytes (client w) @ [0x05, 0xFF]"
    by (rule session_bad_method)
  then show ?thesis by (intro exI [of _ c]) (simp add: handle_socks5_def)
qed

lemma socks_no_acceptable_method_witness:
  "\<exists>c. handle_socks5 conn_ops table_network sample_ops (Some sample_creds)
      (sample_session (methods_wire [0x00, 0x01])) =
      (Some ''SOCKS5 error: No acceptable authentication method'',
       sample_session (methods_wire [0x00, 0x01])\<lparr>client := c\<rparr>) \<and>
    conn_pending c = [] \<and> tx_bytes c = [0x05, 0xFF]"
  using socks_no_acceptable_method [of "sample_session (methods_wire [0x00, 0x01])" "[0x00, 0x01]" "[]"
      "Some sample_creds" table_network sample_ops] by simp

text \<open>
  C19: Whatever a peer sends, with whatever pauses and faults: when the handshake fails the
  peer has been sent at most the method choice and the credential status, never a reply, and
  the network has not been used.
\<close>

theorem socks_failed_handshake_output:
  assumes "phases conn_ops users (client w) = (Inl e, c)"
  shows "handle_socks5 conn_ops N X users w = (Some (display_error e), w\<lparr>client := c\<rparr>) \<and>
    (\<exists>out \<in> {[], [0x05], [0x05, 0xFF], [0x05, 0x00], [0x05, 0x02], [0x05, 0x02, 0x01],
      [0x05, 0x02, 0x01, 0x01], [0x05, 0x02, 0x01, 0x00]}. tx_bytes c = tx_bytes (client w) @ out)"
  using session_refused [OF assms, of N X] phases_Inl_output [OF assms]
  by (simp add: handle_socks5_def)

theorem socks_failed_handshake_output_witness:
  "\<exists>e c. handle_socks5 conn_ops table_network sample_ops None
      (sample_session [0x05, 0x01]\<lparr>client := \<lparr>rx_script = [Byte 5, Byte 1, Wait 40000], tx_bytes = [],
         tx_limit = None, wait_time = 0\<rparr>\<rparr>) = (Some (display_error e), c)
    \<and> e = Timeout \<and> tx_bytes (client c) = [] \<and> net c = sample_net"
proof -
  let ?c = "\<lparr>rx_script = [Byte 5, Byte 1, Wait 40000], tx_bytes = [], tx_limit = None, wait_time = 0\<rparr> :: conn"
  let ?w = "sample_session [0x05, 0x01]\<lparr>client := ?c\<rparr>"
  have "phases conn_ops None (client ?w) =
      (Inl Timeout, ?c\<lparr>rx_script := [Wait 10000], wait_time := 30000\<rparr>)"
    by (simp add: phases_def negotiate_method_def timed_read_def handshake_timeout_def conn_eval
        numeral_2_eq_2)
  from socks_failed_handshake_output [OF this, of table_network sample_ops] show ?thesis by auto
qed

text \<open>
  C20: Whatever a peer does, the handshake waits for it for at most eleven timer periods (330
  seconds): every wait is under the timer and no path makes more than eleven reads.
\<close>

theorem socks_handshake_time:
  "wait_time (snd (phases conn_ops users c)) \<le> wait_time c + 330000"
  using ct.phases_costs [of users] by (simp add: ct.costs_def handshake_timeout_def)

text \<open>
  C6: The handshake accepts exactly its grammar.  On a connection that delivers its bytes in
  time, it ends with the request \<open>req\<close>, leaving \<open>rest\<close> unread, if and only if what the client
  sends is an admitted prefix for \<open>req\<close> (with an address of the length its type says, or a
  domain of at most 255 bytes of UTF-8) followed by \<open>rest\<close>.
\<close>

theorem socks_handshake_accepts:
  assumes "conn_healthy c"
  shows "(\<exists>c'. phases conn_ops users c = (Inr req, c') \<and> conn_pending c' = rest) \<longleftrightarrow>
    (\<exists>bs. admitted users bs req \<and> wf_target (target req) \<and> short_target (target req) \<and>
       conn_pending c = bs @ rest)"
  by (rule cl.phases_accept_iff [OF assms])

theorem socks_handshake_accepts_witness:
  "\<exists>c'. phases conn_ops (Some sample_creds) (peer_sends sample_bytes) = (Inr sample_request, c') \<and>
     conn_pending c' = []"
proof -
  have "\<exists>bs. admitted (Some sample_creds) bs sample_request \<and> wf_target (target sample_request) \<and>
      short_target (target sample_request) \<and> conn_pending (peer_sends sample_bytes) = bs @ []"
    using sample_admitted by auto
  with socks_handshake_accepts [of "peer_sends sample_bytes" "Some sample_creds" sample_request "[]"]
  show ?thesis by (simp only: peer_sends_simps)
qed

end
