(* ===== verification/Udp_Properties.thy ===== *)
theory Udp_Properties
  imports Udp_Nat Udp_Delivery Socks_Properties
begin

text \<open>
  The properties of UDP ASSOCIATE: the datagram format, who gets what through the relay in
  every interleaving of its tasks, how many datagrams leave, and what the shared map does not
  exclude.
\<close>

section \<open>A sample run\<close>

definition client_a :: socket_addr where
  "client_a = SockV4 [10, 0, 0, 1] 5000"

definition server_b :: socket_addr where
  "server_b = SockV4 [9, 9, 9, 9] 53"

definition target_a :: target_addr where
  "target_a = Ipv4 [8, 8, 8, 8] 53"

definition target_b :: target_addr where
  "target_b = Ipv4 [9, 9, 9, 9] 53"

definition no_names :: resolver where
  "no_names = (\<lambda>_. Inr [])"

text \<open>A client sends to A and then to B, and B answers.\<close>

definition two_targets :: "relay_event list" where
  "two_targets =
     [Udp_Recv (build_socks5_udp_response target_a [1]) client_a, Task_Run 0, Bind_Ok 0, Send_Ok 0,
      Udp_Recv (build_socks5_udp_response target_b [2]) client_a, Task_Run 0, Send_Ok 0,
      Response 0 [7] server_b]"

lemmas udp_eval =
  relay_init_def relay_step_def task_event_def set_task_def end_task_def drop_nth_def
  forward_response_def end_listener_def can_send_def target_bind_addr_def Let_def

lemma sample_targets [simp]:
  "wf_target target_a" "short_target target_a" "wf_target target_b" "short_target target_b"
  by (simp_all add: target_a_def target_b_def)

lemma sample_resolve [simp]:
  "resolve_target_addr L target_a = Inr (SockV4 [8, 8, 8, 8] 53)"
  "resolve_target_addr L target_b = Inr server_b"
  by (simp_all add: target_a_def target_b_def server_b_def resolve_target_addr_def)

lemma sample_lengths [simp]:
  "length (build_socks5_udp_response target_a p) = 10 + length p"
  "length (build_socks5_udp_response target_b p) = 10 + length p"
  by (simp_all add: target_a_def target_b_def build_socks5_udp_response_def)

lemma two_targets_run:
  "relay_run no_names two_targets relay_init = Some
     \<lparr>running = True, client_map = [client_a \<mapsto> 0], tasks = [],
      listeners = [\<lparr>target_socket = 0, client_addr = client_a, target_label = target_a\<rparr>],
      bound = [client_a], local_addrs = [SockV4 [0, 0, 0, 0] 0],
      received = [(build_socks5_udp_response target_a [1], client_a),
                  (build_socks5_udp_response target_b [2], client_a)],
      to_targets = [(0, SockV4 [8, 8, 8, 8] 53, [1]), (0, server_b, [2])],
      to_clients = [(0, client_a, build_socks5_udp_response target_a [7])]\<rparr>"
  by (simp add: two_targets_def udp_eval parse_build server_b_def)

section \<open>After the control connection has closed\<close>

fun socket_failure :: "relay_event \<Rightarrow> bool" where
  "socket_failure (Target_Recv_Error j) = True"
| "socket_failure (Response_Send_Error j d r) = True"
| "socket_failure _ = False"

lemma stopped_step:
  assumes "\<not> running s" "relay_step L ev s = Some s'"
    and "\<not> socket_failure ev"
  shows "\<not> running s' \<and> received s' = received s \<and> set (listeners s) \<subseteq> set (listeners s')"
  using assms(2)
  by (cases rule: relay_step_cases)
    (use assms(1,3) in \<open>auto simp: end_task_def set_task_def forward_response_def Let_def
      split: sum.splits prod.splits option.splits\<close>)

lemma stopped_run:
  assumes "\<not> running s" "relay_run L evs s = Some s'" "\<forall>ev \<in> set evs. \<not> socket_failure ev"
  shows "\<not> running s' \<and> received s' = received s \<and> set (listeners s) \<subseteq> set (listeners s')"
  using assms(2) _ assms(3)
  by (rule relay_runs.run_keeps_if) (use assms(1) in \<open>auto dest: stopped_step [THEN conjunct2, THEN conjunct2, THEN subsetD] stopped_step\<close>)

section \<open>One exchange\<close>

text \<open>A task at the end of the list that has its socket can send, and is gone then.\<close>

lemma send_last_task:
  assumes "resolve_target_addr L t = Inr a" "same_family (local_addrs s ! k) a"
  shows "relay_step L (Send_Ok (length ts)) (s\<lparr>tasks := ts @ [Task_Send k t p c]\<rparr>) =
    Some (s\<lparr>tasks := ts, to_targets := to_targets s @ [(k, a, p)]\<rparr>)"
  using assms by (simp add: relay_step_def task_event_def end_task_def drop_nth_def can_send_def)

text \<open>
  A running relay can take a datagram all the way to its IPv4 target without a failure: two steps
  of the task for a client that has a socket, three for one that has none.
\<close>

lemma relay_exchange:
  assumes "relay_reach L s" "running s" "wf_target t" "short_target t"
    and "length (build_socks5_udp_response t p) \<le> 65507" "resolve_target_addr L t = Inr (SockV4 ip port)"
  obtains later s' k where "relay_run L (Udp_Recv (build_socks5_udp_response t p) c # later) s = Some s'"
    "\<forall>ev \<in> set later. lossless ev" "to_targets s' = to_targets s @ [(k, SockV4 ip port, p)]"
    "client_map s' c = Some k" "running s'"
    "client_map s c = Some k \<and> listeners s' = listeners s \<or>
     client_map s c = None \<and> listeners s' = listeners s @ [\<lparr>target_socket = k, client_addr = c, target_label = t\<rparr>]"
proof -
  let ?d = "build_socks5_udp_response t p" and ?i = "length (tasks s)"
  let ?s1 = "s\<lparr>tasks := tasks s @ [Task_Start ?d c], received := received s @ [(?d, c)]\<rparr>"
  have binds: "local_addrs s = map (\<lambda>_. target_bind_addr) (bound s)"
    using relay_reach_sockets [OF assms(1)] by (simp add: sockets_inv_def)
  have 1: "relay_step L (Udp_Recv ?d c) s = Some ?s1"
    using assms(2,5) by (simp add: relay_step_def)
  show thesis
  proof (cases "client_map s c")
    case (Some k)
    let ?s2 = "?s1\<lparr>tasks := tasks s @ [Task_Send k t p c]\<rparr>"
    have "relay_step L (Task_Run ?i) ?s1 = Some ?s2"
      using Some assms(3,4) by (simp add: relay_step_def task_event_def parse_build set_task_def)
    moreover have "k < length (bound s)"
      using relay_reach_inv [OF assms(1)] Some by (auto simp: relay_inv_def map_inv_def listener_inv_def owns_def)
    then have "same_family (local_addrs ?s1 ! k) (SockV4 ip port)" by (simp add: binds same_family_bind)
    from send_last_task [OF assms(6) this, where ts = "tasks s" and p = p and c = c]
    have "relay_step L (Send_Ok ?i) ?s2 =
        Some (?s1\<lparr>tasks := tasks s, to_targets := to_targets s @ [(k, SockV4 ip port, p)]\<rparr>)" by simp
    ultimately show thesis
      using 1 Some assms(2)
      by (intro that [where later = "[Task_Run ?i, Send_Ok ?i]" and k = k
            and s' = "?s1\<lparr>tasks := tasks s, to_targets := to_targets s @ [(k, SockV4 ip port, p)]\<rparr>"]) simp_all
  next
    case None
    let ?k = "length (bound s)"
    let ?s2 = "?s1\<lparr>tasks := tasks s @ [Task_Bind t p c]\<rparr>"
    let ?s3 = "?s1\<lparr>bound := bound s @ [c], local_addrs := local_addrs s @ [target_bind_addr],
       client_map := (client_map s)(c \<mapsto> ?k),
       listeners := listeners s @ [\<lparr>target_socket = ?k, client_addr = c, target_label = t\<rparr>]\<rparr>"
    have "relay_step L (Task_Run ?i) ?s1 = Some ?s2"
      using None assms(3,4) by (simp add: relay_step_def task_event_def parse_build set_task_def)
    moreover have "relay_step L (Bind_Ok ?i) ?s2 = Some (?s3\<lparr>tasks := tasks s @ [Task_Send ?k t p c]\<rparr>)"
      by (simp add: relay_step_def task_event_def set_task_def Let_def)
    moreover have "same_family (local_addrs ?s3 ! ?k) (SockV4 ip port)"
      by (simp add: binds same_family_bind nth_append)
    from send_last_task [OF assms(6) this, where ts = "tasks s" and p = p and c = c]
    have "relay_step L (Send_Ok ?i) (?s3\<lparr>tasks := tasks s @ [Task_Send ?k t p c]\<rparr>) =
        Some (?s3\<lparr>tasks := tasks s, to_targets := to_targets s @ [(?k, SockV4 ip port, p)]\<rparr>)" by simp
    ultimately show thesis
      using 1 None assms(2)
      by (intro that [where later = "[Task_Run ?i, Bind_Ok ?i, Send_Ok ?i]" and k = ?k
            and s' = "?s3\<lparr>tasks := tasks s, to_targets := to_targets s @ [(?k, SockV4 ip port, p)]\<rparr>"]) simp_all
  qed
qed

lemma only_ipv4: "relay_reach L s \<Longrightarrow> (k, SockV6 ip port, p) \<notin> set (to_targets s)"
  by (drule relay_reach_sockets) (fastforce simp: sockets_inv_def same_family_bind)

lemma response_length:
  "wf_target t \<Longrightarrow> short_target t \<Longrightarrow> length (build_socks5_udp_response t q) \<le> length q + 262"
  by (cases t) (simp_all add: build_eq)

section \<open>Properties\<close>

text \<open>
  C13: A datagram is accepted exactly when it has the layout of RFC 1928: two zero bytes, a zero
  fragment number, an address (with a domain of UTF-8 text), a port, and the payload, which is
  what the parser returns; and such a datagram is what \<open>build_socks5_udp_response\<close> makes of the
  target and the payload.  Every other datagram is an error.
\<close>

theorem udp_packet_grammar:
  "parse_socks5_udp_packet data = Inr (t, payload) \<longleftrightarrow>
     wf_target t \<and> short_target t \<and> data = [0x00, 0x00, 0x00] @ target_wire t @ payload \<and>
     build_socks5_udp_response t payload = data"
  by (auto simp: parse_iff build_eq)

text \<open>
  C4: Isolation, in every interleaving of datagrams, tasks, binds, answers and failures: what
  leaves a target socket is the payload of a valid datagram that the socket's own client sent
  to the relay, and goes to the address that datagram names; and what arrives at a target
  socket is sent to that socket's client only, a client that has sent a valid datagram itself.
\<close>

theorem udp_relay_isolation:
  assumes "relay_run L evs relay_init = Some s"
  shows "((k, a, p) \<in> set (to_targets s) \<longrightarrow>
      (\<exists>c t data. owns s k c \<and> (data, c) \<in> set (received s) \<and>
         parse_socks5_udp_packet data = Inr (t, p) \<and> resolve_target_addr L t = Inr a)) \<and>
    ((k, c, pkt) \<in> set (to_clients s) \<longrightarrow>
      (\<exists>t q p data. owns s k c \<and> (data, c) \<in> set (received s) \<and>
         parse_socks5_udp_packet data = Inr (t, q) \<and> pkt = build_socks5_udp_response t p))"
proof -
  from relay_run_reach [OF reach_init assms] have "relay_inv L s" by (rule relay_reach_inv)
  then show ?thesis by (fastforce simp: relay_inv_def out_inv_def back_inv_def asked_def)
qed

theorem udp_relay_isolation_witness:
  "\<exists>s. relay_run no_names two_targets relay_init = Some s \<and> (0, server_b, [2]) \<in> set (to_targets s) \<and>
     (\<exists>c t data. owns s 0 c \<and> (data, c) \<in> set (received s) \<and>
        parse_socks5_udp_packet data = Inr (t, [2]) \<and> resolve_target_addr no_names t = Inr server_b)"
  using udp_relay_isolation [OF two_targets_run, of 0 server_b "[2]"] two_targets_run by simp

text \<open>
  The relay amplifies nothing towards targets: at every moment, the datagrams sent to
  targets and those still being handled are together at most as many as those received.
\<close>

lemma udp_relay_no_amplification:
  assumes "relay_run L evs relay_init = Some s"
  shows "length (to_targets s) + length (tasks s) \<le> length (received s)"
  using relay_reach_inv [OF relay_run_reach [OF reach_init assms]]
  by (simp add: relay_inv_def count_inv_def)

lemma udp_relay_no_amplification_witness:
  "\<exists>s. relay_run no_names two_targets relay_init = Some s \<and> length (to_targets s) = 2 \<and>
     length (to_targets s) + length (tasks s) \<le> length (received s)"
  using udp_relay_no_amplification [OF two_targets_run] two_targets_run by simp

text \<open>
  C7: Every datagram is relayed at most once, and exactly once if no socket fails.  In every
  interleaving, the datagrams that have left a socket (with the socket's client) and those still
  under way are, as a multiset, among the valid datagrams with a known address that were
  received; when no bind and no send has failed they are exactly these, so once no task is left
  each of them has been sent, to its address, from a socket of its client, and nothing else has.
\<close>

theorem udp_delivered_once:
  assumes "relay_run L evs relay_init = Some s"
  shows "delivered s + under_way L s \<subseteq># asked_for L s \<and>
    ((\<forall>ev \<in> set evs. lossless ev) \<longrightarrow> delivered s + under_way L s = asked_for L s) \<and>
    (tasks s = [] \<longrightarrow> under_way L s = {#})"
  using settled_run [OF assms] settled_run_lossless [OF assms]
  by (simp add: settled_def) (simp add: under_way_def)

theorem udp_delivered_once_witness:
  "\<exists>s. relay_run no_names two_targets relay_init = Some s \<and>
     asked_for no_names s = {#(client_a, SockV4 [8, 8, 8, 8] 53, [1]), (client_a, server_b, [2])#} \<and>
     delivered s = asked_for no_names s"
proof -
  obtain s where s: "relay_run no_names two_targets relay_init = Some s" "tasks s = []" "bound s = [client_a]"
    "to_targets s = [(0, SockV4 [8, 8, 8, 8] 53, [1]), (0, server_b, [2])]"
    using two_targets_run by simp
  have "\<forall>ev \<in> set two_targets. lossless ev" by (simp add: two_targets_def)
  with udp_delivered_once [OF s(1)] s(2) have "delivered s = asked_for no_names s" by (metis add_0_right)
  moreover have "delivered s = {#(client_a, SockV4 [8, 8, 8, 8] 53, [1]), (client_a, server_b, [2])#}"
    using s(3,4) by (simp add: delivered_def)
  ultimately show ?thesis using s(1) by auto
qed

text \<open>
  C23: Handling a datagram ends.  From any state that a run reaches, and whatever the scheduler,
  the listeners and the network do, the tasks under way take at most three more events each as
  long as no new datagram comes, and are gone once they have taken them; and each task that is
  left can go on.  It can do so without a failure, unless it is to send to an IPv6 address: such
  a send can only fail, since the sockets are IPv4 ones.
\<close>

theorem udp_tasks_end:
  assumes "relay_run L evs relay_init = Some s" "relay_run L later s = Some s'"
    and "\<forall>ev \<in> set later. \<not> new_datagram ev"
  shows "length (filter of_task later) \<le> 3 * length (tasks s) \<and>
    (length (filter of_task later) = 3 * length (tasks s) \<longrightarrow> tasks s' = []) \<and>
    (\<forall>i < length (tasks s'). \<exists>ev s2. task_of ev = Some i \<and> relay_step L ev s' = Some s2 \<and>
       (lossless ev \<or> (\<exists>k t p c ip port. tasks s' ! i = Task_Send k t p c \<and>
          resolve_target_addr L t = Inr (SockV6 ip port) \<and> relay_step L (Send_Ok i) s' = None)))"
proof -
  have w: "work s' + length (filter of_task later) \<le> 3 * length (tasks s)"
    using work_run [OF assms(2,3)] work_le [of s] by simp
  have reach: "relay_reach L s'"
    by (rule relay_run_reach [OF relay_run_reach [OF reach_init assms(1)] assms(2)])
  have "\<exists>ev s2. task_of ev = Some i \<and> relay_step L ev s' = Some s2 \<and>
      (lossless ev \<or> (\<exists>k t p c ip port. tasks s' ! i = Task_Send k t p c \<and>
         resolve_target_addr L t = Inr (SockV6 ip port) \<and> relay_step L (Send_Ok i) s' = None))"
    if i: "i < length (tasks s')" for i
  proof -
    from task_progress [OF i, of L] obtain ev s2 where ev: "task_of ev = Some i" "relay_step L ev s' = Some s2"
      and ok: "lossless ev \<or> (\<exists>k t p c. tasks s' ! i = Task_Send k t p c \<and> \<not> can_send L (local_addrs s' ! k) t)"
      by blast
    from ok show ?thesis
    proof
      assume "\<exists>k t p c. tasks s' ! i = Task_Send k t p c \<and> \<not> can_send L (local_addrs s' ! k) t"
      then obtain k t p c where t: "tasks s' ! i = Task_Send k t p c" "\<not> can_send L (local_addrs s' ! k) t" by blast
      moreover from t(1) i have "Task_Send k t p c \<in> set (tasks s')" by (metis nth_mem)
      from can_send_reach [OF reach this] t(2) have "\<exists>ip port. resolve_target_addr L t = Inr (SockV6 ip port)" by simp
      moreover have "relay_step L (Send_Ok i) s' = None" using t i by (simp add: relay_step_def task_event_def)
      ultimately show ?thesis using ev by blast
    qed (use ev in blast)
  qed
  moreover have "tasks s' = []" if "length (filter of_task later) = 3 * length (tasks s)"
    using w that by (simp flip: work_0)
  ultimately show ?thesis using w by simp
qed

text \<open>The first datagram of a client takes all three events: parse, bind, send.\<close>

theorem udp_tasks_end_witness:
  "\<exists>s s'. relay_run no_names [Udp_Recv (build_socks5_udp_response target_a [1]) client_a] relay_init = Some s \<and>
     relay_run no_names [Task_Run 0, Bind_Ok 0, Send_Ok 0] s = Some s' \<and> tasks s' = []"
proof -
  let ?s = "relay_init\<lparr>tasks := [Task_Start (build_socks5_udp_response target_a [1]) client_a],
    received := [(build_socks5_udp_response target_a [1], client_a)]\<rparr>"
  have r: "relay_run no_names [Udp_Recv (build_socks5_udp_response target_a [1]) client_a] relay_init = Some ?s"
    by (simp add: udp_eval)
  have "\<exists>s'. relay_run no_names [Task_Run 0, Bind_Ok 0, Send_Ok 0] ?s = Some s'"
    by (simp add: udp_eval parse_build)
  then obtain s' where s': "relay_run no_names [Task_Run 0, Bind_Ok 0, Send_Ok 0] ?s = Some s'" ..
  from udp_tasks_end [OF r this] have "tasks s' = []" by simp
  with r s' show ?thesis by blast
qed

text \<open>
  C8: Whatever has happened before, a running relay can serve a client, if the target is one of
  IPv4.  From every state a run reaches, a well-formed datagram of any client, known or new, for a
  target with an IPv4 address has a continuation without failures after which its payload has
  left a socket for that address; and an answer at that socket goes to the client, as a datagram
  that is parsed to the payload of the answer, and from the target the client asked for if that
  was the first it asked for.  Datagrams are at most 65507 bytes, the most IPv4 carries; the
  answer leaves room for the header.  And no run ever sends anything to an IPv6 address, since
  every target socket is bound to 0.0.0.0.
\<close>

theorem udp_exchange:
  assumes "relay_run L evs relay_init = Some s" "running s" "wf_target t" "short_target t"
    and "length (build_socks5_udp_response t p) \<le> 65507" "resolve_target_addr L t = Inr (SockV4 ip port)"
    and "length q \<le> 65245"
  shows "(\<exists>later s1 k j s2 source. (\<forall>ev \<in> set later. lossless ev) \<and>
      relay_run L (Udp_Recv (build_socks5_udp_response t p) c # later) s = Some s1 \<and>
      to_targets s1 = to_targets s @ [(k, SockV4 ip port, p)] \<and>
      relay_step L (Response j q (SockV4 ip port)) s1 = Some s2 \<and>
      to_clients s2 = to_clients s1 @ [(k, c, build_socks5_udp_response source q)] \<and>
      parse_socks5_udp_packet (build_socks5_udp_response source q) = Inr (source, q) \<and>
      length (build_socks5_udp_response source q) \<le> 65507 \<and>
      (client_map s c = None \<longrightarrow> source = t)) \<and>
    (\<forall>k ip6 port6 p6. (k, SockV6 ip6 port6, p6) \<notin> set (to_targets s))"
proof -
  have reach: "relay_reach L s" by (rule relay_run_reach [OF reach_init assms(1)])
  obtain later s1 k where run: "relay_run L (Udp_Recv (build_socks5_udp_response t p) c # later) s = Some s1"
    and ok: "\<forall>ev \<in> set later. lossless ev" and sent: "to_targets s1 = to_targets s @ [(k, SockV4 ip port, p)]"
    and m: "client_map s1 c = Some k" and "running s1"
    and new: "client_map s c = Some k \<and> listeners s1 = listeners s \<or>
      client_map s c = None \<and> listeners s1 = listeners s @ [\<lparr>target_socket = k, client_addr = c, target_label = t\<rparr>]"
    by (rule relay_exchange [OF reach assms(2-6)])
  have "relay_inv L s1" by (rule relay_reach_inv [OF relay_run_reach [OF reach run]])
  then have map: "map_inv s1" and lst: "listener_inv s1" by (simp_all add: relay_inv_def)
  from map m obtain l where l: "l \<in> set (listeners s1)" "target_socket l = k" "client_addr l = c"
    by (auto simp: map_inv_def)
  then obtain j where j: "j < length (listeners s1)" "listeners s1 ! j = l" by (auto simp: in_set_conv_nth)
  have wf: "wf_target (target_label l)" "short_target (target_label l)"
    using lst l(1) by (auto simp: listener_inv_def asked_def dest: parse_Inr)
  have first: "target_label l = t" if "client_map s c = None"
  proof -
    let ?l = "\<lparr>target_socket = k, client_addr = c, target_label = t\<rparr>"
    have "?l \<in> set (listeners s1)" using new that by auto
    moreover have "inj_on target_socket (set (listeners s1))" using lst by (simp add: listener_inv_def distinct_map)
    ultimately have "l = ?l" using l(1,2) by (auto intro: inj_onD [of target_socket])
    then show ?thesis by (metis listener.select_convs(3))
  qed
  have fits: "length (build_socks5_udp_response (target_label l) q) \<le> 65507"
    using response_length [OF wf, of q] assms(7) by simp
  let ?s2 = "forward_response j q s1"
  have "relay_step L (Response j q (SockV4 ip port)) s1 = Some ?s2"
    using j(1) assms(7) by (simp add: relay_step_def)
  moreover have "to_clients ?s2 = to_clients s1 @ [(k, c, build_socks5_udp_response (target_label l) q)]"
    using j l by (simp add: forward_response_def Let_def)
  moreover have "(k, SockV6 ip6 port6, p6) \<notin> set (to_targets s)" for k ip6 port6 p6
    by (rule only_ipv4 [OF reach])
  ultimately show ?thesis
    using run ok sent parse_build [OF wf, of q] first fits
    by (intro conjI allI exI [of _ later] exI [of _ s1] exI [of _ k] exI [of _ j] exI [of _ ?s2]
        exI [of _ "target_label l"])
      (simp_all del: relay_run.simps)
qed

theorem udp_exchange_witness:
  "\<exists>later s1 k j s2. relay_run no_names (Udp_Recv (build_socks5_udp_response target_a [1]) client_a # later) relay_init = Some s1 \<and>
     to_targets s1 = [(k, SockV4 [8, 8, 8, 8] 53, [1])] \<and>
     relay_step no_names (Response j [7] (SockV4 [8, 8, 8, 8] 53)) s1 = Some s2 \<and>
     to_clients s2 = to_clients s1 @ [(k, client_a, build_socks5_udp_response target_a [7])]"
proof -
  have run: "relay_run no_names [] relay_init = Some relay_init" "running relay_init" by (simp_all add: relay_init_def)
  have init: "to_targets relay_init = []" "client_map relay_init client_a = None" by (simp_all add: relay_init_def)
  from udp_exchange [OF run sample_targets(1,2) _ sample_resolve(1), where p = "[1]" and q = "[7]" and c = client_a]
  show ?thesis by (simp add: init del: relay_run.simps) blast
qed

text \<open>
  A socket that the map holds for a client is one that was bound for it and whose listener
  is still running, so an answer to what is sent through it reaches the client.
\<close>

lemma udp_relay_map_live:
  assumes "relay_run L evs relay_init = Some s" and "client_map s c = Some k"
  shows "\<exists>l \<in> set (listeners s). target_socket l = k \<and> client_addr l = c \<and> owns s k c"
  using relay_reach_inv [OF relay_run_reach [OF reach_init assms(1)]] assms(2)
  by (fastforce simp: relay_inv_def map_inv_def listener_inv_def)

lemma udp_relay_map_live_witness:
  "\<exists>s. relay_run no_names two_targets relay_init = Some s \<and>
     (\<exists>l \<in> set (listeners s). target_socket l = 0 \<and> client_addr l = client_a \<and> owns s 0 client_a)"
  using udp_relay_map_live [OF two_targets_run, of client_a 0] two_targets_run by simp

text \<open>
  C11: Handled one after the other, datagrams are relayed as a table of address translation would:
  in every run in which no datagram is received while another is under way and no socket
  fails, with whatever answers in between, each client is given one socket at its first valid
  datagram, its valid datagrams leave from that socket in order for the addresses they name,
  and invalid ones and ones whose name cannot be resolved change nothing else.
\<close>

theorem udp_serial_nat:
  assumes "serial_run L relay_init evs s" and "tasks s = []"
  shows "nat_of s = fold (nat_packet L) (received s) nat_init \<and> distinct (bound s)"
proof -
  from as_nat.run_refines [OF assms(1) one_task_init] have
    "one_task s" "nat_run L (ideal L relay_init) (concat (map datagrams evs)) (ideal L s)" by auto
  moreover have "ideal L relay_init = nat_init"
    by (simp add: ideal_def nat_of_def relay_init_def nat_init_def)
  moreover have "received s = concat (map datagrams evs)"
    using serial_received [OF assms(1)] by (simp add: relay_init_def)
  ultimately show ?thesis using assms(2) by (simp add: nat_run_def ideal_def one_task_def)
qed

theorem udp_serial_nat_witness:
  "\<exists>s. serial_run no_names relay_init two_targets s \<and>
     sent_log (fold (nat_packet no_names) (received s) nat_init) = [(0, SockV4 [8, 8, 8, 8] 53, [1]), (0, server_b, [2])]"
proof -
  obtain s where s: "relay_run no_names two_targets relay_init = Some s" "tasks s = []"
    "to_targets s = [(0, SockV4 [8, 8, 8, 8] 53, [1]), (0, server_b, [2])]"
    using two_targets_run by simp
  have "serial_run no_names relay_init two_targets s"
    using s(1) by (simp add: two_targets_def udp_eval parse_build serial_step_def server_b_def)
  moreover from udp_serial_nat [OF this s(2)] have
    "fold (nat_packet no_names) (received s) nat_init = nat_of s" by simp
  ultimately show ?thesis using s(3) by (intro exI [of _ s]) (simp add: nat_of_def)
qed

text \<open>
  C24: The source that a response names is a property of the socket, not of the sender.  In every
  run, all the responses that have come through one socket name the same target and go to the
  same client, and where a response comes from does not matter.  So a client that has no socket yet and
  sends to one target and then to another is told, of an answer of the second, that it comes from
  the first: from every state of a running relay, for any two targets with IPv4 addresses.
\<close>

theorem udp_response_wrong_source:
  assumes "relay_run L evs relay_init = Some s"
  shows "((k, c1, pkt1) \<in> set (to_clients s) \<and> (k, c2, pkt2) \<in> set (to_clients s) \<longrightarrow>
      c1 = c2 \<and> (\<exists>t q1 q2. pkt1 = build_socks5_udp_response t q1 \<and> pkt2 = build_socks5_udp_response t q2)) \<and>
    relay_step L (Response j q from1) s = relay_step L (Response j q from2) s \<and>
    (running s \<and> client_map s c = None \<and>
     wf_target t1 \<and> short_target t1 \<and> resolve_target_addr L t1 = Inr (SockV4 ip1 port1) \<and>
     wf_target t2 \<and> short_target t2 \<and> resolve_target_addr L t2 = Inr (SockV4 ip2 port2) \<and>
     length (build_socks5_udp_response t1 p1) \<le> 65507 \<and> length (build_socks5_udp_response t2 p2) \<le> 65507 \<and>
     length q \<le> 65245 \<longrightarrow>
      (\<exists>run1 run2 s1 socket i s2.
         relay_run L ((Udp_Recv (build_socks5_udp_response t1 p1) c # run1) @
           (Udp_Recv (build_socks5_udp_response t2 p2) c # run2)) s = Some s1 \<and>
         to_targets s1 = to_targets s @ [(socket, SockV4 ip1 port1, p1), (socket, SockV4 ip2 port2, p2)] \<and>
         relay_step L (Response i q (SockV4 ip2 port2)) s1 = Some s2 \<and>
         to_clients s2 = to_clients s1 @ [(socket, c, build_socks5_udp_response t1 q)] \<and>
         parse_socks5_udp_packet (build_socks5_udp_response t1 q) = Inr (t1, q)))"
proof (intro conjI impI)
  have reach: "relay_reach L s" by (rule relay_run_reach [OF reach_init assms])
  assume two: "(k, c1, pkt1) \<in> set (to_clients s) \<and> (k, c2, pkt2) \<in> set (to_clients s)"
  from relay_reach_labels [OF reach] obtain f where f: "labels_inv s f" by blast
  with two show "\<exists>t q1 q2. pkt1 = build_socks5_udp_response t q1 \<and> pkt2 = build_socks5_udp_response t q2"
    by (fastforce simp: labels_inv_def)
  show "c1 = c2"
  proof -
    have "\<forall>(k, c, pkt) \<in> set (to_clients s). owns s k c"
      using relay_reach_inv [OF reach] by (auto simp: relay_inv_def back_inv_def)
    with two have "owns s k c1" "owns s k c2" by blast+
    then show ?thesis by (simp add: owns_def)
  qed
next
  show "relay_step L (Response j q from1) s = relay_step L (Response j q from2) s" by (simp add: relay_step_def)
next
  have reach: "relay_reach L s" by (rule relay_run_reach [OF reach_init assms])
  let ?d1 = "build_socks5_udp_response t1 p1" and ?d2 = "build_socks5_udp_response t2 p2"
  assume h: "running s \<and> client_map s c = None \<and>
     wf_target t1 \<and> short_target t1 \<and> resolve_target_addr L t1 = Inr (SockV4 ip1 port1) \<and>
     wf_target t2 \<and> short_target t2 \<and> resolve_target_addr L t2 = Inr (SockV4 ip2 port2) \<and>
     length ?d1 \<le> 65507 \<and> length ?d2 \<le> 65507 \<and> length q \<le> 65245"
  let ?l = "\<lambda>k. \<lparr>target_socket = k, client_addr = c, target_label = t1\<rparr>"
  obtain run1 s0 socket where r1: "relay_run L (Udp_Recv ?d1 c # run1) s = Some s0" "running s0"
    "to_targets s0 = to_targets s @ [(socket, SockV4 ip1 port1, p1)]" "client_map s0 c = Some socket"
    "listeners s0 = listeners s @ [?l socket]"
    using relay_exchange [OF reach, of t1 p1 ip1 port1 c] h by (metis option.discI)
  obtain run2 s1 where r2: "relay_run L (Udp_Recv ?d2 c # run2) s0 = Some s1"
    "to_targets s1 = to_targets s0 @ [(socket, SockV4 ip2 port2, p2)]" "listeners s1 = listeners s @ [?l socket]"
    using relay_exchange [OF relay_run_reach [OF reach r1(1)] r1(2), of t2 p2 ip2 port2 c] h r1(4,5)
    by (metis option.discI option.inject)
  have "relay_run L ((Udp_Recv ?d1 c # run1) @ (Udp_Recv ?d2 c # run2)) s = Some s1"
    using r1(1) r2(1) relay_runs.run_append by blast
  moreover have "relay_step L (Response (length (listeners s)) q (SockV4 ip2 port2)) s1 =
      Some (forward_response (length (listeners s)) q s1)"
    using h by (simp add: relay_step_def r2(3))
  moreover have "to_clients (forward_response (length (listeners s)) q s1) =
      to_clients s1 @ [(socket, c, build_socks5_udp_response t1 q)]"
    by (simp add: forward_response_def r2(3))
  ultimately show "\<exists>run1 run2 s1 socket i s2.
      relay_run L ((Udp_Recv ?d1 c # run1) @ (Udp_Recv ?d2 c # run2)) s = Some s1 \<and>
      to_targets s1 = to_targets s @ [(socket, SockV4 ip1 port1, p1), (socket, SockV4 ip2 port2, p2)] \<and>
      relay_step L (Response i q (SockV4 ip2 port2)) s1 = Some s2 \<and>
      to_clients s2 = to_clients s1 @ [(socket, c, build_socks5_udp_response t1 q)] \<and>
      parse_socks5_udp_packet (build_socks5_udp_response t1 q) = Inr (t1, q)"
    using parse_build [of t1 q] h r1(3) r2(2)
    by (metis append.assoc append_Cons append_Nil)
qed

text \<open>The answer of B is labelled A.\<close>

theorem udp_response_wrong_source_witness:
  "\<exists>run1 run2 s1 socket i s2.
     relay_run no_names ((Udp_Recv (build_socks5_udp_response target_a [1]) client_a # run1) @
       (Udp_Recv (build_socks5_udp_response target_b [2]) client_a # run2)) relay_init = Some s1 \<and>
     to_targets s1 = [(socket, SockV4 [8, 8, 8, 8] 53, [1]), (socket, server_b, [2])] \<and>
     relay_step no_names (Response i [7] server_b) s1 = Some s2 \<and>
     to_clients s2 = to_clients s1 @ [(socket, client_a, build_socks5_udp_response target_a [7])]"
proof -
  have run: "relay_run no_names [] relay_init = Some relay_init" by simp
  have init: "running relay_init" "client_map relay_init client_a = None" "to_targets relay_init = []"
    by (simp_all add: relay_init_def)
  have b: "resolve_target_addr no_names target_b = Inr (SockV4 [9, 9, 9, 9] 53)" by (simp add: server_b_def)
  from udp_response_wrong_source [OF run, THEN conjunct2, THEN conjunct2, rule_format, of client_a target_a
      "[8, 8, 8, 8]" 53 target_b "[9, 9, 9, 9]" 53 "[1]" "[2]" "[7]"]
  show ?thesis using b by (simp add: init server_b_def del: relay_run.simps) blast
qed

text \<open>
  C25: The lookup and the insertion are not one operation.  From every state of a running relay, two
  valid datagrams of a client without a socket, for any targets, can be handled at the same time:
  both find no socket, two are bound, each with a listener, and the map keeps the second.  When
  the first socket then fails, the client's entry is removed although the second socket and its
  listener are there, so the next datagram of the client will bind a third.
\<close>

theorem udp_first_datagrams_race:
  assumes "relay_run L evs relay_init = Some s" "running s" "client_map s c = None"
    and "parse_socks5_udp_packet data1 = Inr (t1, p1)" "parse_socks5_udp_packet data2 = Inr (t2, p2)"
    and "length data1 \<le> 65535" "length data2 \<le> 65535"
  shows "\<exists>later s1 s2 j. relay_run L (Udp_Recv data1 c # Udp_Recv data2 c # later) s = Some s1 \<and>
    listeners s1 = listeners s @
      [\<lparr>target_socket = length (bound s), client_addr = c, target_label = t1\<rparr>,
       \<lparr>target_socket = length (bound s) + 1, client_addr = c, target_label = t2\<rparr>] \<and>
    client_map s1 c = Some (length (bound s) + 1) \<and>
    target_socket (listeners s1 ! j) = length (bound s) \<and>
    relay_step L (Target_Recv_Error j) s1 = Some s2 \<and>
    client_map s2 c = None \<and>
    \<lparr>target_socket = length (bound s) + 1, client_addr = c, target_label = t2\<rparr> \<in> set (listeners s2) \<and>
    (\<forall>i data t p. parse_socks5_udp_packet data = Inr (t, p) \<longrightarrow>
       start_task i data c s2 = set_task i (Task_Bind t p c) s2)"
proof -
  let ?i = "length (tasks s)" and ?k = "length (bound s)"
  let ?l1 = "\<lparr>target_socket = ?k, client_addr = c, target_label = t1\<rparr>"
    and ?l2 = "\<lparr>target_socket = ?k + 1, client_addr = c, target_label = t2\<rparr>"
  let ?s1 = "s\<lparr>tasks := tasks s @ [Task_Send ?k t1 p1 c, Task_Send (?k + 1) t2 p2 c],
      received := received s @ [(data1, c), (data2, c)], bound := bound s @ [c, c],
      local_addrs := local_addrs s @ [target_bind_addr, target_bind_addr],
      client_map := (client_map s)(c \<mapsto> ?k + 1), listeners := listeners s @ [?l1, ?l2]\<rparr>"
  let ?j = "length (listeners s)"
  have "relay_run L (Udp_Recv data1 c # Udp_Recv data2 c #
      [Task_Run ?i, Task_Run (?i + 1), Bind_Ok ?i, Bind_Ok (?i + 1)]) s = Some ?s1"
    using assms by (simp add: udp_eval nth_append list_update_append)
  moreover have "relay_step L (Target_Recv_Error ?j) ?s1 = Some (end_listener ?j ?s1)"
    by (simp add: relay_step_def)
  moreover have "client_map (end_listener ?j ?s1) c = None" "?l2 \<in> set (listeners (end_listener ?j ?s1))"
    by (simp_all add: end_listener_def drop_nth_def)
  ultimately show ?thesis
    by (intro exI [of _ "[Task_Run ?i, Task_Run (?i + 1), Bind_Ok ?i, Bind_Ok (?i + 1)]"] exI [of _ ?s1]
        exI [of _ "end_listener ?j ?s1"] exI [of _ ?j] conjI) simp_all
qed

theorem udp_first_datagrams_race_witness:
  "\<exists>later s1 s2 j. relay_run no_names
       (Udp_Recv (build_socks5_udp_response target_a [1]) client_a #
        Udp_Recv (build_socks5_udp_response target_b [2]) client_a # later) relay_init = Some s1 \<and>
     map target_socket (listeners s1) = [0, 1] \<and> client_map s1 client_a = Some 1 \<and>
     relay_step no_names (Target_Recv_Error j) s1 = Some s2 \<and> client_map s2 client_a = None"
proof -
  have run: "relay_run no_names [] relay_init = Some relay_init" by simp
  have init: "running relay_init" "client_map relay_init client_a = None" "bound relay_init = []" "listeners relay_init = []"
    by (simp_all add: relay_init_def)
  from udp_first_datagrams_race [OF run init(1,2) parse_build [OF sample_targets(1,2), of "[1]"]
      parse_build [OF sample_targets(3,4), of "[2]"]]
  show ?thesis by (simp add: init del: relay_run.simps) fastforce
qed

text \<open>
  C26: After the control connection has closed the relay accepts nothing more, but its listeners
  (each with a socket) go on: in every continuation in which no socket fails, every listener is
  still there, and it still forwards to its client.
\<close>

theorem udp_listeners_outlive_session:
  assumes "relay_run L evs relay_init = Some s" and "relay_run L (Tcp_Closed # later) s = Some s'"
    and "\<forall>ev \<in> set later. \<not> socket_failure ev"
  shows "received s' = received s \<and> set (listeners s) \<subseteq> set (listeners s') \<and>
    (\<forall>l \<in> set (listeners s). \<forall>payload r. length payload \<le> 65535 \<longrightarrow>
       (\<exists>j s''. relay_step L (Response j payload r) s' = Some s'' \<and>
          to_clients s'' = to_clients s' @
            [(target_socket l, client_addr l, build_socks5_udp_response (target_label l) payload)]))"
proof -
  from assms(2) have "relay_run L later (s\<lparr>running := False\<rparr>) = Some s'"
    by (cases "running s") (simp_all add: relay_step_def)
  from stopped_run [OF _ this assms(3)] have s': "received s' = received s"
    "set (listeners s) \<subseteq> set (listeners s')" by simp_all
  have "\<exists>j s''. relay_step L (Response j payload r) s' = Some s'' \<and>
          to_clients s'' = to_clients s' @
            [(target_socket l, client_addr l, build_socks5_udp_response (target_label l) payload)]"
    if "l \<in> set (listeners s)" "length payload \<le> 65535" for l payload r
  proof -
    from that s'(2) obtain j where "j < length (listeners s')" "listeners s' ! j = l"
      by (metis in_set_conv_nth subset_iff)
    with that(2) show ?thesis
      by (intro exI [of _ j] exI [of _ "forward_response j payload s'"])
        (simp add: relay_step_def forward_response_def Let_def)
  qed
  with s' show ?thesis by blast
qed

theorem udp_listeners_outlive_session_witness:
  "\<exists>s s'. relay_run no_names two_targets relay_init = Some s \<and>
     relay_run no_names [Tcp_Closed] s = Some s' \<and> \<not> running s' \<and> listeners s' \<noteq> [] \<and>
     (\<forall>l \<in> set (listeners s). l \<in> set (listeners s'))"
proof -
  obtain s where run: "relay_run no_names two_targets relay_init = Some s" and "running s" "listeners s \<noteq> []"
    using two_targets_run by simp
  then have stop: "relay_run no_names (Tcp_Closed # []) s = Some (s\<lparr>running := False\<rparr>)"
    by (simp add: relay_step_def)
  from udp_listeners_outlive_session [OF run stop] show ?thesis
    using run stop \<open>listeners s \<noteq> []\<close> by auto
qed

text \<open>
  UDP ASSOCIATE.  An admitted client gets, after the handshake's bytes, a success reply that
  carries the address and port the relay socket is bound to, and the relay starts empty; the
  network is not dialled.
\<close>

lemma udp_associate_reply:
  assumes "conn_healthy (client w)" "conn_pending (client w) = bs @ rest" "admitted users bs req"
    and "wf_target (target req)" "short_target (target req)" "command req = UdpAssociate"
    and "udp_associate X req = bind_io (handle_udp_associate conn_ops (Inr (SockV4 ip port))) (\<lambda>s. ret ())"
  shows "\<exists>c. handle_socks5_inner conn_ops N X users w = (Inr (), w\<lparr>client := c\<rparr>) \<and>
    conn_pending c = rest \<and>
    tx_bytes c = tx_bytes (client w) @ admission_reply users @ [0x05, 0x00, 0x00, 0x01] @ ip @ to_be_bytes port"
proof (rule session_admitted [OF assms(1-5), of N X])
  fix c
  assume c: "conn_healthy c" "conn_pending c = rest" "tx_bytes c = tx_bytes (client w) @ admission_reply users"
    and run: "handle_socks5_inner conn_ops N X users w =
       (case command req of
          Connect \<Rightarrow> handle_connect conn_ops N X req
        | UdpAssociate \<Rightarrow> on_client (udp_associate X req)
        | Bind \<Rightarrow> on_client (send_reply conn_ops 0x07 req)) (w\<lparr>client := c\<rparr>)"
  obtain d where "io_write_all conn_ops ([0x05, 0x00, 0x00] @ [0x01] @ ip @ to_be_bytes port) c = (Inr (), d)"
    "conn_healthy d" "conn_pending d = conn_pending c"
    "tx_bytes d = tx_bytes c @ [0x05, 0x00, 0x00] @ [0x01] @ ip @ to_be_bytes port"
    by (rule cl.io_write_live [OF c(1)])
  with run c assms(6,7) show ?thesis
    by (intro exI [of _ d]) (simp add: on_client_def handle_udp_associate_def send_udp_reply_def)
qed

lemma udp_associate_reply_witness:
  "\<exists>c. handle_socks5_inner conn_ops table_network
      (sample_ops\<lparr>udp_associate := \<lambda>req. bind_io (handle_udp_associate conn_ops (Inr (SockV4 [0, 0, 0, 0] 4096))) (\<lambda>s. ret ())\<rparr>)
      None (sample_session (methods_wire [0x00] @ request_wire 0 (sample_request\<lparr>command := UdpAssociate\<rparr>))) =
      (Inr (), sample_session (methods_wire [0x00] @ request_wire 0 (sample_request\<lparr>command := UdpAssociate\<rparr>))
        \<lparr>client := c\<rparr>) \<and>
    tx_bytes c = [0x05, 0x00, 0x05, 0x00, 0x00, 0x01, 0, 0, 0, 0] @ to_be_bytes 4096"
proof -
  let ?req = "sample_request\<lparr>command := UdpAssociate\<rparr>"
  let ?bs = "methods_wire [0x00] @ request_wire 0 ?req"
  let ?X = "sample_ops\<lparr>udp_associate := \<lambda>req. bind_io (handle_udp_associate conn_ops (Inr (SockV4 [0, 0, 0, 0] 4096))) (\<lambda>s. ret ())\<rparr>"
  have adm: "admitted None ?bs ?req"
    unfolding admitted_def by (simp, intro exI [of _ "[0x00]"] exI [of _ 0]) auto
  have p: "conn_pending (client (sample_session ?bs)) = ?bs @ []" and h: "conn_healthy (client (sample_session ?bs))"
    by simp_all
  have t: "wf_target (target ?req)" "short_target (target ?req)" "command ?req = UdpAssociate" by simp_all
  have X: "udp_associate ?X ?req = bind_io (handle_udp_associate conn_ops (Inr (SockV4 [0, 0, 0, 0] 4096))) (\<lambda>s. ret ())"
    by simp
  from udp_associate_reply [OF h p adm t X, of table_network] show ?thesis
    by (auto simp: admission_reply_def)
qed

end
