(* ===== verification/Upstream_Http.thy ===== *)
theory Upstream_Http
  imports Upstream_Base Acl_Auth Scripted_Stream
begin

text \<open>
  \<open>src/upstream/http_proxy.rs\<close>: the connector that reaches a target through an HTTP proxy.
  It dials the proxy, wraps the connection in TLS when configured, sends one CONNECT request
  and makes one read of at most 4096 bytes, of which the status decides.
\<close>

record http_proxy_connector =
  http_proxy_addr :: string
  http_auth :: "user_credential option"
  http_use_tls :: bool

section \<open>The exchange\<close>

definition auth_header :: "(bytes \<Rightarrow> string) \<Rightarrow> user_credential option \<Rightarrow> string" where
  "auth_header b64_encode auth =
     (case auth of
        Some a \<Rightarrow>
          ''Proxy-Authorization: Basic '' @ b64_encode (as_bytes (username a @ '':'' @ password a)) @ crlf
      | None \<Rightarrow> [])"

definition connect_request ::
  "(bytes \<Rightarrow> string) \<Rightarrow> user_credential option \<Rightarrow> string \<Rightarrow> u16 \<Rightarrow> string"
where
  "connect_request b64_encode auth host port =
     ''CONNECT '' @ host @ '':'' @ show_u16 port @ '' HTTP/1.1'' @ crlf @
     ''Host: '' @ host @ '':'' @ show_u16 port @ crlf @
     auth_header b64_encode auth @ crlf"

definition status_ok :: "string \<Rightarrow> bool" where
  "status_ok response \<longleftrightarrow> prefix ''HTTP/1.1 200'' response \<or> prefix ''HTTP/1.0 200'' response"

definition connect_failed :: "string \<Rightarrow> proxy_error" where
  "connect_failed response =
     Upstream (''HTTP proxy CONNECT failed: '' @
       (case first_line response of Some l \<Rightarrow> l | None \<Rightarrow> ''empty''))"

text \<open>The body of both branches (over TLS and plain), which are the same but for the stream.\<close>

definition http_exchange ::
  "'s stream_ops \<Rightarrow> (bytes \<Rightarrow> string) \<Rightarrow> user_credential option \<Rightarrow> connect_target \<Rightarrow> ('s, unit) proxy_io"
where
  "http_exchange S b64_encode auth tgt =
     (case tgt of
        Address host port \<Rightarrow>
          bind_io (io_write_all S (as_bytes (connect_request b64_encode auth host port))) (\<lambda>_.
          bind_io (io_read S 4096) (\<lambda>buf.
          let response = utf8_lossy buf in
          if \<not> status_ok response then raise (connect_failed response) else ret ())))"

definition http_proxy_connect ::
  "('n, 's) network \<Rightarrow> 's stream_ops \<Rightarrow> (bytes \<Rightarrow> string) \<Rightarrow> http_proxy_connector
   \<Rightarrow> connect_target \<Rightarrow> ('n, 's) proxy_io"
where
  "http_proxy_connect N S b64_encode C tgt =
     bind_io
       (dial_err N (\<lambda>e. Upstream (''Failed to connect to HTTP proxy '' @ http_proxy_addr C @ '': '' @ e))
          (http_proxy_addr C)) (\<lambda>stream.
     if http_use_tls C then
       (let host = extract_host (http_proxy_addr C) in
        bind_io (lift_sum (wrap_tls N stream host)) (\<lambda>tls_stream.
        on_stream (http_exchange S b64_encode (http_auth C) tgt) tls_stream))
     else on_stream (http_exchange S b64_encode (http_auth C) tgt) stream)"

section \<open>Facts\<close>

lemma status_ok_bytes:
  "status_ok (utf8_lossy bs) \<longleftrightarrow>
     prefix (as_bytes ''HTTP/1.1 200'') bs \<or> prefix (as_bytes ''HTTP/1.0 200'') bs"
  by (simp add: status_ok_def prefix_utf8_lossy is_ascii_def del: is_ascii_Cons)

lemma snd_on_stream [simp]: "snd (on_stream m stream n) = n"
  by (metis on_stream_net prod.collapse)

lemma dial_err_snd [simp]: "snd (dial_err N f addr n) = snd (dial N addr n)"
  by (simp add: dial_err_def split: prod.split)

lemma snd_bind_io:
  "(\<And>x s'. snd (k x s') = s') \<Longrightarrow> snd (bind_io m k s) = snd (m s)"
  by (auto simp: bind_io_def split: prod.split sum.split)

text \<open>
  The shape all proxy connectors have: one dial, and then work on the stream only.
\<close>

lemma snd_dial_then:
  "(\<And>x n'. snd (k x n') = n') \<Longrightarrow> snd (bind_io (dial_err N f addr) k n) = snd (dial N addr n)"
  using snd_bind_io [of k "dial_err N f addr"] by simp

lemma dial_then_Inr:
  "bind_io (dial_err N f addr) k n = (Inr s, n') \<Longrightarrow> \<exists>s0. fst (dial N addr n) = Inr s0"
  by (auto simp: io_conv)

interpretation http: connector N "http_proxy_connect N S b64_encode C" "\<lambda>_. Some (http_proxy_addr C)"
  for N S b64_encode C
proof
  show "snd (http_proxy_connect N S b64_encode C tgt n) = snd (dial N addr n)"
    if "Some (http_proxy_addr C) = Some addr" for tgt addr n
    using that unfolding http_proxy_connect_def
    by (auto intro!: snd_dial_then simp: Let_def snd_bind_io)
  show "\<exists>s0. fst (dial N addr n) = Inr s0"
    if "Some (http_proxy_addr C) = Some addr" "http_proxy_connect N S b64_encode C tgt n = (Inr s, n')"
    for tgt addr n s n'
    using that unfolding http_proxy_connect_def by (auto dest: dial_then_Inr)
qed simp

context byte_stream begin

text \<open>
  A successful exchange has sent exactly the request, and has consumed one read, which begins
  with the status of success.
\<close>

lemma http_exchange_Inr:
  assumes "http_exchange S b64 auth (Address host port) s = (Inr u, s')"
  shows "\<exists>buf. length buf \<le> 4096 \<and> pending s = buf @ pending s' \<and>
    (prefix (as_bytes ''HTTP/1.1 200'') buf \<or> prefix (as_bytes ''HTTP/1.0 200'') buf) \<and>
    sent s' = sent s @ as_bytes (connect_request b64 auth host port)"
proof -
  from assms obtain s1 buf where
    1: "io_write_all S (as_bytes (connect_request b64 auth host port)) s = (Inr (), s1)" and
    2: "io_read S 4096 s1 = (Inr buf, s')" and ok: "status_ok (utf8_lossy buf)"
    by (auto simp: http_exchange_def Let_def io_conv split: if_splits)
  from io_write_Inr [OF 1] io_read_Inr [OF 2] ok show ?thesis
    by (auto simp: status_ok_bytes)
qed

end

end
