(* ===== verification/Upstream_Socks.thy ===== *)
theory Upstream_Socks
  imports Upstream_Http Socks_Session
begin

text \<open>
  \<open>src/upstream/socks5_proxy.rs\<close>: the connector that reaches a target through a SOCKS5 proxy,
  the client side of the handshake.
\<close>

record socks5_proxy_connector =
  socks5_proxy_addr :: string
  socks5_auth :: "user_credential option"
  socks5_use_tls :: bool

section \<open>The handshake\<close>

definition offer_methods :: "user_credential option \<Rightarrow> bytes" where
  "offer_methods auth = (if auth \<noteq> None then [0x05, 0x02, 0x00, 0x02] else [0x05, 0x01, 0x00])"

text \<open>\<open>len() as u8\<close> keeps the low eight bits.\<close>

definition auth_request :: "user_credential \<Rightarrow> bytes" where
  "auth_request a =
     [0x01] @ [of_nat (length (username a))] @ as_bytes (username a) @
     [of_nat (length (password a))] @ as_bytes (password a)"

definition client_authenticate ::
  "'s stream_ops \<Rightarrow> user_credential option \<Rightarrow> u8 \<Rightarrow> ('s, unit) proxy_io"
where
  "client_authenticate S auth meth =
     (if meth = 0x00 then ret ()
      else if meth = 0x02 then
        bind_io (lift_sum (ok_or (Socks5 ''Upstream requires auth but no credentials configured'') auth))
          (\<lambda>a.
        bind_io (io_write_all S (auth_request a)) (\<lambda>_.
        bind_io (io_read_exact S 2) (\<lambda>auth_resp.
        if auth_resp ! 1 \<noteq> 0x00 then raise AuthFailed else ret ())))
      else if meth = 0xFF then raise (Socks5 ''Upstream SOCKS5 proxy rejected all auth methods'')
      else raise (Socks5 (''Unsupported auth method from upstream: '' @ dec (unat meth))))"

definition connect_bytes :: "string \<Rightarrow> u16 \<Rightarrow> bytes" where
  "connect_bytes host port =
     [0x05, 0x01, 0x00] @
     (case parse_ipv4 host of
        Some ipv4 \<Rightarrow> [0x01] @ ipv4
      | None \<Rightarrow>
          (case parse_ipv6 host of
             Some ipv6 \<Rightarrow> [0x04] @ ipv6
           | None \<Rightarrow> [0x03] @ [of_nat (length host)] @ as_bytes host)) @
     to_be_bytes port"

definition reply_message :: "u8 \<Rightarrow> string" where
  "reply_message rep =
     (if rep = 0x01 then ''general SOCKS server failure''
      else if rep = 0x02 then ''connection not allowed by ruleset''
      else if rep = 0x03 then ''network unreachable''
      else if rep = 0x04 then ''host unreachable''
      else if rep = 0x05 then ''connection refused''
      else if rep = 0x06 then ''TTL expired''
      else if rep = 0x07 then ''command not supported''
      else if rep = 0x08 then ''address type not supported''
      else ''unknown error'')"

definition discard_bind_address :: "'s stream_ops \<Rightarrow> u8 \<Rightarrow> ('s, unit) proxy_io" where
  "discard_bind_address S atyp =
     (if atyp = 0x01 then bind_io (io_read_exact S 6) (\<lambda>_. ret ())
      else if atyp = 0x03 then
        bind_io (io_read_exact S 1) (\<lambda>len.
        bind_io (io_read_exact S (unat (len ! 0) + 2)) (\<lambda>_. ret ()))
      else if atyp = 0x04 then bind_io (io_read_exact S 18) (\<lambda>_. ret ())
      else ret ())"

definition client_connect :: "'s stream_ops \<Rightarrow> connect_target \<Rightarrow> ('s, unit) proxy_io" where
  "client_connect S tgt =
     (case tgt of
        Address host port \<Rightarrow>
          bind_io (io_write_all S (connect_bytes host port)) (\<lambda>_.
          bind_io (io_read_exact S 4) (\<lambda>reply_header.
          if reply_header ! 1 \<noteq> 0x00 then
            raise (Upstream (''SOCKS5 upstream CONNECT failed: '' @ reply_message (reply_header ! 1)))
          else discard_bind_address S (reply_header ! 3))))"

definition socks5_exchange ::
  "'s stream_ops \<Rightarrow> user_credential option \<Rightarrow> connect_target \<Rightarrow> ('s, unit) proxy_io"
where
  "socks5_exchange S auth tgt =
     bind_io (io_write_all S (offer_methods auth)) (\<lambda>_.
     bind_io (io_read_exact S 2) (\<lambda>resp.
     if resp ! 0 \<noteq> 0x05 then raise (Socks5 ''Invalid SOCKS5 version from upstream'')
     else
       bind_io (client_authenticate S auth (resp ! 1)) (\<lambda>_. client_connect S tgt)))"

definition socks5_proxy_connect ::
  "('n, 's) network \<Rightarrow> 's stream_ops \<Rightarrow> socks5_proxy_connector \<Rightarrow> connect_target \<Rightarrow> ('n, 's) proxy_io"
where
  "socks5_proxy_connect N S C tgt =
     bind_io
       (dial_err N (\<lambda>e. Upstream (''Failed to connect to SOCKS5 proxy '' @ socks5_proxy_addr C @ '': '' @ e))
          (socks5_proxy_addr C)) (\<lambda>stream.
     if socks5_use_tls C then
       (let host = extract_host (socks5_proxy_addr C) in
        bind_io (lift_sum (wrap_tls N stream host)) (\<lambda>tls_stream.
        on_stream (socks5_exchange S (socks5_auth C) tgt) tls_stream))
     else on_stream (socks5_exchange S (socks5_auth C) tgt) stream)"

interpretation socks5: connector N "socks5_proxy_connect N S C" "\<lambda>_. Some (socks5_proxy_addr C)"
  for N S C
proof
  show "snd (socks5_proxy_connect N S C tgt n) = snd (dial N addr n)"
    if "Some (socks5_proxy_addr C) = Some addr" for tgt addr n
    using that unfolding socks5_proxy_connect_def
    by (auto intro!: snd_dial_then simp: Let_def snd_bind_io)
  show "\<exists>s0. fst (dial N addr n) = Inr s0"
    if "Some (socks5_proxy_addr C) = Some addr" "socks5_proxy_connect N S C tgt n = (Inr s, n')"
    for tgt addr n s n'
    using that unfolding socks5_proxy_connect_def by (auto dest: dial_then_Inr)
qed simp

section \<open>The request on the wire\<close>

text \<open>The target a host text stands for, and the request a client makes for it.\<close>

definition host_target :: "string \<Rightarrow> u16 \<Rightarrow> target_addr" where
  "host_target host port =
     (case parse_ipv4 host of
        Some ip \<Rightarrow> Ipv4 ip port
      | None \<Rightarrow> (case parse_ipv6 host of Some ip \<Rightarrow> Ipv6 ip port | None \<Rightarrow> Domain host port))"

definition connect_request_of :: "string \<Rightarrow> u16 \<Rightarrow> socks_request" where
  "connect_request_of host port = \<lparr>command = Connect, target = host_target host port\<rparr>"

lemma connect_bytes_wire: "connect_bytes host port = request_wire 0x00 (connect_request_of host port)"
  by (simp add: connect_bytes_def request_wire_def connect_request_of_def host_target_def
      len_byte_def split: option.split)

lemma auth_request_wire: "auth_request a = auth_wire (username a) (password a)"
  by (simp add: auth_request_def auth_wire_def len_byte_def)

lemma offer_methods_wire:
  "offer_methods auth = methods_wire (if auth = None then [0x00] else [0x00, 0x02])"
  by (simp add: offer_methods_def methods_wire_def len_byte_def)

lemma host_target_wf:
  "rust_string host \<Longrightarrow> length host < 256 \<Longrightarrow>
     wf_target (host_target host port) \<and> short_target (host_target host port)"
  by (auto simp: host_target_def parse_ipv4_length parse_ipv6_length split: option.split)

text \<open>
  What the client sends when the proxy chooses method \<open>m\<close>.
\<close>

definition client_bytes :: "user_credential option \<Rightarrow> u8 \<Rightarrow> string \<Rightarrow> u16 \<Rightarrow> bytes" where
  "client_bytes auth m host port =
     offer_methods auth @ (if m = 0x02 then auth_request (the auth) else []) @ connect_bytes host port"

context byte_stream begin

lemma client_authenticate_Inr:
  assumes "client_authenticate S auth m s = (Inr (), s')"
  shows "(m = 0x00 \<and> s' = s) \<or>
    (m = 0x02 \<and> (\<exists>a v. auth = Some a \<and> sent s' = sent s @ auth_request a \<and>
       pending s = [v, 0x00] @ pending s'))"
proof -
  consider (none) "m = 0x00" | (pw) "m = 0x02"
    using assms by (auto simp: client_authenticate_def split: if_splits)
  then show ?thesis
  proof cases
    case none
    with assms show ?thesis by (simp add: client_authenticate_def)
  next
    case pw
    with assms obtain a s1 r where 1: "auth = Some a" "io_write_all S (auth_request a) s = (Inr (), s1)"
      "io_read_exact S 2 s1 = (Inr r, s')" "r ! 1 = 0x00"
      by (auto simp: client_authenticate_def io_conv split: if_splits)
    from io_read_exact_Inr [OF 1(3)] 1(4) obtain v where
      "pending s1 = [v, 0x00] @ pending s'" "sent s' = sent s1" by (auto simp: length_eq_2)
    with io_write_Inr [OF 1(2)] 1(1) pw show ?thesis by (auto intro!: exI [of _ v])
  qed
qed

lemma discard_bind_address_Inr:
  "discard_bind_address S atyp s = (Inr (), s') \<Longrightarrow> sent s' = sent s \<and> (\<exists>bs. pending s = bs @ pending s')"
  by (auto simp: discard_bind_address_def io_conv dest!: io_read_exact_Inr split: if_splits)

text \<open>
  A successful exchange: what was sent is determined by the method the proxy chose, and the
  proxy answered with the method, the status when the method has one, and a success reply.
\<close>

lemma socks5_exchange_Inr:
  assumes "socks5_exchange S auth (Address host port) s = (Inr u, s')"
  shows "\<exists>m st rsv a bs. (m = 0x00 \<and> st = [] \<or> m = 0x02 \<and> auth \<noteq> None \<and> (\<exists>v. st = [v, 0x00])) \<and>
    pending s = [0x05, m] @ st @ [hd rsv, 0x00, last rsv, a] @ bs @ pending s' \<and>
    sent s' = sent s @ client_bytes auth m host port"
proof -
  from assms obtain s1 resp s2 s3 s4 h s5 where
    1: "io_write_all S (offer_methods auth) s = (Inr (), s1)" and
    2: "io_read_exact S 2 s1 = (Inr resp, s2)" and v: "resp ! 0 = 0x05" and
    3: "client_authenticate S auth (resp ! 1) s2 = (Inr (), s3)" and
    4: "io_write_all S (connect_bytes host port) s3 = (Inr (), s4)" and
    5: "io_read_exact S 4 s4 = (Inr h, s5)" and ok: "h ! 1 = 0x00" and
    6: "discard_bind_address S (h ! 3) s5 = (Inr (), s')"
    by (auto simp: socks5_exchange_def client_connect_def io_conv split: if_splits)
  from io_read_exact_Inr [OF 2] v obtain m where
    r: "resp = [0x05, m]" "pending s1 = resp @ pending s2" "sent s2 = sent s1"
    by (auto simp: length_eq_2)
  from io_read_exact_Inr [OF 5] ok obtain x y a where
    h: "h = [x, 0x00, y, a]" "pending s4 = h @ pending s5" "sent s5 = sent s4"
    by (auto simp: length_eq_4)
  from discard_bind_address_Inr [OF 6] obtain bs where
    b: "sent s' = sent s5" "pending s5 = bs @ pending s'" by auto
  from client_authenticate_Inr [OF 3] r(1) consider
    (none) "m = 0x00" "s3 = s2" | (pw) c w where "m = 0x02" "auth = Some c"
      "sent s3 = sent s2 @ auth_request c" "pending s2 = [w, 0x00] @ pending s3" by auto
  then show ?thesis
  proof cases
    case none
    with io_write_Inr [OF 1] io_write_Inr [OF 4] r h b show ?thesis
      by (intro exI [of _ m] exI [of _ "[]"] exI [of _ "[x, y]"] exI [of _ a] exI [of _ bs])
        (simp add: client_bytes_def)
  next
    case pw
    with io_write_Inr [OF 1] io_write_Inr [OF 4] r h b show ?thesis
      by (intro exI [of _ m] exI [of _ "[w, 0x00]"] exI [of _ "[x, y]"] exI [of _ a] exI [of _ bs])
        (simp add: client_bytes_def)
  qed
qed

end

context live_stream begin

lemma client_authenticate_live:
  assumes "healthy s" "pending s = [0x01, 0x00] @ rest"
  obtains s' where "client_authenticate S (Some a) 0x02 s = (Inr (), s')" "healthy s'"
    "pending s' = rest" "sent s' = sent s @ auth_request a"
proof -
  obtain s1 where 1: "io_write_all S (auth_request a) s = (Inr (), s1)" "healthy s1"
    "pending s1 = pending s" "sent s1 = sent s @ auth_request a"
    using io_write_live [OF assms(1)] .
  from 1(3) assms(2) have "pending s1 = [0x01, 0x00] @ rest" by simp
  then obtain s2 where "io_read_exact S 2 s1 = (Inr [0x01, 0x00], s2)" "healthy s2"
    "pending s2 = rest" "sent s2 = sent s1"
    using io_read_exact_live [OF 1(2), of "[0x01, 0x00]" rest 2] by auto
  with 1 show thesis by (intro that [of s2]) (simp_all add: client_authenticate_def)
qed

lemma client_connect_live:
  assumes "healthy s" "pending s = reply_bytes rep @ rest"
  obtains s' where "client_connect S (Address host port) s =
      (if rep = 0x00 then Inr ()
       else Inl (Upstream (''SOCKS5 upstream CONNECT failed: '' @ reply_message rep)), s')"
    "healthy s'" "rep = 0x00 \<longrightarrow> pending s' = rest" "sent s' = sent s @ connect_bytes host port"
proof -
  obtain s1 where 1: "io_write_all S (connect_bytes host port) s = (Inr (), s1)" "healthy s1"
    "pending s1 = pending s" "sent s1 = sent s @ connect_bytes host port"
    using io_write_live [OF assms(1)] .
  have "pending s1 = [0x05, rep, 0x00, 0x01] @ ([0, 0, 0, 0, 0, 0] @ rest)"
    using 1(3) assms(2) by (simp add: reply_bytes_def)
  then obtain s2 where 2: "io_read_exact S 4 s1 = (Inr [0x05, rep, 0x00, 0x01], s2)" "healthy s2"
    "pending s2 = [0, 0, 0, 0, 0, 0] @ rest" "sent s2 = sent s1"
    using io_read_exact_live [OF 1(2), of "[0x05, rep, 0x00, 0x01]" "[0, 0, 0, 0, 0, 0] @ rest" 4] by auto
  show thesis
  proof (cases "rep = 0x00")
    case False
    with 1 2 show ?thesis by (intro that [of s2]) (simp_all add: client_connect_def)
  next
    case True
    obtain s3 where "io_read_exact S 6 s2 = (Inr [0, 0, 0, 0, 0, 0], s3)" "healthy s3"
      "pending s3 = rest" "sent s3 = sent s2"
      using io_read_exact_live [OF 2(2,3), of 6] by auto
    with True 1 2 show ?thesis
      by (intro that [of s3]) (simp_all add: client_connect_def discard_bind_address_def)
  qed
qed

lemma socks5_exchange_live:
  assumes h: "healthy s" and p: "pending s = admission_reply users @ reply_bytes rep @ rest"
    and a: "users \<noteq> None \<Longrightarrow> auth \<noteq> None"
  obtains s' where "socks5_exchange S auth (Address host port) s =
      (if rep = 0x00 then Inr ()
       else Inl (Upstream (''SOCKS5 upstream CONNECT failed: '' @ reply_message rep)), s')"
    "healthy s'" "rep = 0x00 \<longrightarrow> pending s' = rest"
    "sent s' = sent s @ client_bytes auth (if users = None then 0x00 else 0x02) host port"
proof -
  define m :: u8 where "m = (if users = None then 0x00 else 0x02)"
  define st :: bytes where "st = (if users = None then [] else [0x01, 0x00])"
  obtain s1 where 1: "io_write_all S (offer_methods auth) s = (Inr (), s1)" "healthy s1"
    "pending s1 = pending s" "sent s1 = sent s @ offer_methods auth"
    using io_write_live [OF h] .
  have "pending s1 = [0x05, m] @ (st @ (reply_bytes rep @ rest))"
    using 1(3) p by (simp add: admission_reply_def m_def st_def)
  then obtain s2 where 2: "io_read_exact S 2 s1 = (Inr [0x05, m], s2)" "healthy s2"
    "pending s2 = st @ (reply_bytes rep @ rest)" "sent s2 = sent s1"
    using io_read_exact_live [OF 1(2), of "[0x05, m]" "st @ (reply_bytes rep @ rest)" 2] by auto
  obtain s3 where 3: "client_authenticate S auth m s2 = (Inr (), s3)" "healthy s3"
    "pending s3 = reply_bytes rep @ rest"
    "sent s3 = sent s2 @ (if m = 0x02 then auth_request (the auth) else [])"
  proof (cases users)
    case None
    with 2 show thesis by (intro that [of s2]) (simp_all add: client_authenticate_def m_def st_def)
  next
    case (Some us)
    with a obtain c where c: "auth = Some c" by auto
    from 2(3) Some have "pending s2 = [0x01, 0x00] @ (reply_bytes rep @ rest)" by (simp add: st_def)
    from client_authenticate_live [OF 2(2) this, of c] obtain s3 where
      "client_authenticate S (Some c) 0x02 s2 = (Inr (), s3)" "healthy s3"
      "pending s3 = reply_bytes rep @ rest" "sent s3 = sent s2 @ auth_request c" .
    with Some c show thesis by (intro that [of s3]) (simp_all add: m_def)
  qed
  obtain s4 where "client_connect S (Address host port) s3 =
      (if rep = 0x00 then Inr ()
       else Inl (Upstream (''SOCKS5 upstream CONNECT failed: '' @ reply_message rep)), s4)"
    "healthy s4" "rep = 0x00 \<longrightarrow> pending s4 = rest" "sent s4 = sent s3 @ connect_bytes host port"
    using client_connect_live [OF 3(2,3)] .
  with 1 2 3 show thesis
    by (intro that [of s4]) (simp_all add: socks5_exchange_def client_bytes_def m_def)
qed

end

section \<open>Client and server\<close>

text \<open>What the client sends is what the server admits, for the same credentials.\<close>

lemma client_bytes_admitted:
  assumes "case users of None \<Rightarrow> True
    | Some us \<Rightarrow> (\<exists>a. auth = Some a \<and> verify_credentials (username a) (password a) us \<and>
        rust_string (username a) \<and> rust_string (password a) \<and>
        length (username a) < 256 \<and> length (password a) < 256)"
  shows "admitted users (client_bytes auth (if users = None then 0x00 else 0x02) host port)
    (connect_request_of host port)"
proof (cases users)
  case None
  then show ?thesis
    by (auto simp: admitted_def client_bytes_def offer_methods_wire connect_bytes_wire
        intro!: exI [of _ "if auth = None then [0x00] else [0x00, 0x02]"])
next
  case (Some us)
  with assms obtain a where "auth = Some a" "verify_credentials (username a) (password a) us"
    "rust_string (username a)" "rust_string (password a)"
    "length (username a) < 256" "length (password a) < 256" by auto
  with Some show ?thesis
    unfolding admitted_def client_bytes_def offer_methods_wire connect_bytes_wire auth_request_wire
    by (intro exI [of _ "[0x00, 0x02]"] exI [of _ 0])
      (simp, intro exI [of _ "username a"] exI [of _ "password a"], simp)
qed

end
