(* ===== verification/Upstream_Chain.thy ===== *)
theory Upstream_Chain
  imports Upstream_Socks
begin

text \<open>
  \<open>src/upstream/chain.rs\<close> and the router of \<open>src/upstream/mod.rs\<close>: a connector that goes
  through several proxies over one connection, and the choice of the connector from the
  configuration.  The chain has its own copies of the two handshakes, which work on any
  stream and drop the TLS setting; they are modelled as they are written and shown equal to
  the connectors' own.
\<close>

section \<open>Addresses\<close>

fun extract_proxy_address :: "upstream_config \<Rightarrow> proxy_error + string" where
  "extract_proxy_address Direct = Inl (Upstream ''Direct config has no proxy address'')"
| "extract_proxy_address (Http addr auth tls) = Inr addr"
| "extract_proxy_address (Socks5_Proxy addr auth tls) = Inr addr"
| "extract_proxy_address (Chain chain) = Inl (Upstream ''Nested chains not supported'')"

definition parse_addr_to_target :: "string \<Rightarrow> proxy_error + connect_target" where
  "parse_addr_to_target addr =
     (case rfind_char (CHR '':'') addr of
        Some colon_pos \<Rightarrow>
          (let host = take colon_pos addr; port_str = drop (colon_pos + 1) addr in
           case ok_or (Upstream (''Invalid port in address: '' @ addr)) (parse_u16 port_str) of
             Inl e \<Rightarrow> Inl e
           | Inr port \<Rightarrow> Inr (Address host port))
      | None \<Rightarrow> Inl (Upstream (''Address missing port: '' @ addr)))"

section \<open>Handshakes over an existing stream\<close>

definition perform_http_handshake ::
  "'s stream_ops \<Rightarrow> (bytes \<Rightarrow> string) \<Rightarrow> user_credential option \<Rightarrow> bool option \<Rightarrow> connect_target
   \<Rightarrow> ('s, unit) proxy_io"
where
  "perform_http_handshake S b64_encode auth use_tls tgt =
     (case tgt of
        Address host port \<Rightarrow>
          (let request =
             ''CONNECT '' @ host @ '':'' @ show_u16 port @ '' HTTP/1.1'' @ crlf @
             ''Host: '' @ host @ '':'' @ show_u16 port @ crlf;
             request = (case auth of
               Some a \<Rightarrow> request @ ''Proxy-Authorization: Basic '' @
                 b64_encode (as_bytes (username a @ '':'' @ password a)) @ crlf
             | None \<Rightarrow> request);
             request = request @ crlf
           in bind_io (io_write_all S (as_bytes request)) (\<lambda>_.
              bind_io (io_read S 4096) (\<lambda>buf.
              let response = utf8_lossy buf in
              if \<not> prefix ''HTTP/1.1 200'' response \<and> \<not> prefix ''HTTP/1.0 200'' response then
                raise (Upstream (''HTTP proxy CONNECT failed: '' @
                  (case first_line response of Some l \<Rightarrow> l | None \<Rightarrow> ''empty'')))
              else ret ()))))"

definition perform_socks5_handshake ::
  "'s stream_ops \<Rightarrow> user_credential option \<Rightarrow> bool option \<Rightarrow> connect_target \<Rightarrow> ('s, unit) proxy_io"
where
  "perform_socks5_handshake S auth use_tls tgt =
     bind_io (io_write_all S
       (case auth of Some _ \<Rightarrow> [0x05, 0x02, 0x00, 0x02] | None \<Rightarrow> [0x05, 0x01, 0x00])) (\<lambda>_.
     bind_io (io_read_exact S 2) (\<lambda>resp.
     if resp ! 0 \<noteq> 0x05 then raise (Socks5 ''Invalid SOCKS5 version from upstream'')
     else
       bind_io
         (if resp ! 1 = 0x00 then ret ()
          else if resp ! 1 = 0x02 then
            (case auth of
               None \<Rightarrow> raise (Socks5 ''Upstream requires auth but no credentials configured'')
             | Some a \<Rightarrow>
                 bind_io (io_write_all S
                   ([0x01, of_nat (length (username a))] @ as_bytes (username a) @
                    [of_nat (length (password a))] @ as_bytes (password a))) (\<lambda>_.
                 bind_io (io_read_exact S 2) (\<lambda>auth_resp.
                 if auth_resp ! 1 \<noteq> 0x00 then raise AuthFailed else ret ())))
          else if resp ! 1 = 0xFF then raise (Socks5 ''Upstream SOCKS5 proxy rejected all auth methods'')
          else raise (Socks5 (''Unsupported auth method from upstream: '' @ dec (unat (resp ! 1))))) (\<lambda>_.
       case tgt of
         Address host port \<Rightarrow>
           (let addr =
              (case parse_ipv4 host of
                 Some ipv4 \<Rightarrow> 0x01 # ipv4
               | None \<Rightarrow>
                   (case parse_ipv6 host of
                      Some ipv6 \<Rightarrow> 0x04 # ipv6
                    | None \<Rightarrow> 0x03 # of_nat (length host) # as_bytes host));
              req = [0x05, 0x01, 0x00] @ addr @ to_be_bytes port
            in bind_io (io_write_all S req) (\<lambda>_.
               bind_io (io_read_exact S 4) (\<lambda>reply_header.
               if reply_header ! 1 \<noteq> 0x00 then
                 raise (Upstream (''SOCKS5 upstream CONNECT failed: '' @ reply_message (reply_header ! 1)))
               else if reply_header ! 3 = 0x01 then bind_io (io_read_exact S 6) (\<lambda>_. ret ())
               else if reply_header ! 3 = 0x03 then
                 bind_io (io_read_exact S 1) (\<lambda>len.
                 bind_io (io_read_exact S (unat (len ! 0) + 2)) (\<lambda>_. ret ()))
               else if reply_header ! 3 = 0x04 then bind_io (io_read_exact S 18) (\<lambda>_. ret ())
               else ret ()))))))"

fun perform_proxy_handshake ::
  "'s stream_ops \<Rightarrow> (bytes \<Rightarrow> string) \<Rightarrow> upstream_config \<Rightarrow> connect_target \<Rightarrow> ('s, unit) proxy_io"
where
  "perform_proxy_handshake S b64_encode Direct tgt = ret ()"
| "perform_proxy_handshake S b64_encode (Http addr auth tls) tgt =
     perform_http_handshake S b64_encode auth tls tgt"
| "perform_proxy_handshake S b64_encode (Socks5_Proxy addr auth tls) tgt =
     perform_socks5_handshake S auth tls tgt"
| "perform_proxy_handshake S b64_encode (Chain chain) tgt =
     raise (Upstream ''Nested chains not supported'')"

section \<open>The chain\<close>

text \<open>The target of a hop, from the hops after it.\<close>

fun next_target :: "upstream_config list \<Rightarrow> connect_target \<Rightarrow> proxy_error + connect_target" where
  "next_target [] tgt = Inr tgt"
| "next_target (Direct # _) tgt = Inr tgt"
| "next_target (next_config # _) tgt =
     (case extract_proxy_address next_config of
        Inl e \<Rightarrow> Inl e
      | Inr next_addr \<Rightarrow> parse_addr_to_target next_addr)"

text \<open>The loop over the hops.\<close>

fun chain_hops ::
  "'s stream_ops \<Rightarrow> (bytes \<Rightarrow> string) \<Rightarrow> upstream_config list \<Rightarrow> connect_target \<Rightarrow> ('s, unit) proxy_io"
where
  "chain_hops S b64_encode [] tgt = ret ()"
| "chain_hops S b64_encode (config # rest) tgt =
     bind_io (lift_sum (next_target rest tgt)) (\<lambda>nt.
     bind_io (perform_proxy_handshake S b64_encode config nt) (\<lambda>_.
     chain_hops S b64_encode rest tgt))"

definition chain_connect ::
  "('n, 's) network \<Rightarrow> 's stream_ops \<Rightarrow> (bytes \<Rightarrow> string) \<Rightarrow> upstream_config list
   \<Rightarrow> connect_target \<Rightarrow> ('n, 's) proxy_io"
where
  "chain_connect N S b64_encode chain tgt =
     (case chain of
        [] \<Rightarrow> raise (Upstream ''Empty chain'')
      | [Direct] \<Rightarrow>
          (case tgt of
             Address host port \<Rightarrow>
               dial_err N (\<lambda>e. Upstream (''Direct connection failed: '' @ e)) (host_port host port))
      | [config] \<Rightarrow>
          bind_io (lift_sum (extract_proxy_address config)) (\<lambda>proxy_addr.
          bind_io
            (dial_err N (\<lambda>e. Upstream (''Failed to connect to proxy '' @ proxy_addr @ '': '' @ e)) proxy_addr)
            (\<lambda>stream. on_stream (perform_proxy_handshake S b64_encode config tgt) stream))
      | first # _ \<Rightarrow>
          bind_io (lift_sum (extract_proxy_address first)) (\<lambda>first_proxy_addr.
          bind_io
            (dial_err N (\<lambda>e. Upstream (''Failed to connect to first proxy '' @ first_proxy_addr @ '': '' @ e))
               first_proxy_addr)
            (\<lambda>stream. on_stream (chain_hops S b64_encode chain tgt) stream)))"

section \<open>The router\<close>

fun upstream_connect ::
  "('n, 's) network \<Rightarrow> 's stream_ops \<Rightarrow> (bytes \<Rightarrow> string) \<Rightarrow> upstream_config \<Rightarrow> connect_target
   \<Rightarrow> ('n, 's) proxy_io"
where
  "upstream_connect N S b64_encode Direct tgt = direct_connect N tgt"
| "upstream_connect N S b64_encode (Http addr auth tls) tgt =
     http_proxy_connect N S b64_encode
       \<lparr>http_proxy_addr = addr, http_auth = auth,
        http_use_tls = (case tls of Some b \<Rightarrow> b | None \<Rightarrow> False)\<rparr> tgt"
| "upstream_connect N S b64_encode (Socks5_Proxy addr auth tls) tgt =
     socks5_proxy_connect N S
       \<lparr>socks5_proxy_addr = addr, socks5_auth = auth,
        socks5_use_tls = (case tls of Some b \<Rightarrow> b | None \<Rightarrow> False)\<rparr> tgt"
| "upstream_connect N S b64_encode (Chain chain) tgt = chain_connect N S b64_encode chain tgt"

section \<open>The copies are the connectors' handshakes\<close>

lemma perform_http_handshake_eq: "perform_http_handshake S b auth tls = http_exchange S b auth"
proof (rule ext)
  fix tgt
  obtain host port where tgt: "tgt = Address host port" by (cases tgt)
  have ok: "(\<not> prefix ''HTTP/1.1 200'' r \<and> \<not> prefix ''HTTP/1.0 200'' r) = (\<not> status_ok r)" for r
    unfolding status_ok_def by blast
  show "perform_http_handshake S b auth tls tgt = http_exchange S b auth tgt"
    unfolding perform_http_handshake_def http_exchange_def tgt connect_target.case ok Let_def
      connect_failed_def connect_request_def auth_header_def
    by (cases auth) (simp_all only: option.case append_assoc append_Nil append_Nil2)
qed

lemma perform_socks5_handshake_eq: "perform_socks5_handshake S auth tls tgt = socks5_exchange S auth tgt"
proof -
  have offer: "(case auth of Some _ \<Rightarrow> [0x05, 0x02, 0x00, 0x02] | None \<Rightarrow> [0x05, 0x01, 0x00]) = offer_methods auth"
    by (simp add: offer_methods_def split: option.split)
  have conn: "connect_bytes host port =
      [0x05, 0x01, 0x00] @ (case parse_ipv4 host of
                 Some ipv4 \<Rightarrow> 0x01 # ipv4
               | None \<Rightarrow>
                   (case parse_ipv6 host of
                      Some ipv6 \<Rightarrow> 0x04 # ipv6
                    | None \<Rightarrow> 0x03 # of_nat (length host) # as_bytes host)) @ to_be_bytes port" for host port
    by (simp add: connect_bytes_def split: option.split)
  have auth: "client_authenticate S auth m =
      (if m = 0x00 then ret ()
       else if m = 0x02 then
         (case auth of
            None \<Rightarrow> raise (Socks5 ''Upstream requires auth but no credentials configured'')
          | Some a \<Rightarrow>
              bind_io (io_write_all S
                ([0x01, of_nat (length (username a))] @ as_bytes (username a) @
                 [of_nat (length (password a))] @ as_bytes (password a))) (\<lambda>_.
              bind_io (io_read_exact S 2) (\<lambda>auth_resp.
              if auth_resp ! 1 \<noteq> 0x00 then raise AuthFailed else ret ())))
       else if m = 0xFF then raise (Socks5 ''Upstream SOCKS5 proxy rejected all auth methods'')
       else raise (Socks5 (''Unsupported auth method from upstream: '' @ dec (unat m))))" for m
    by (cases auth) (simp_all add: client_authenticate_def auth_request_def fun_eq_iff bind_io_def)
  show ?thesis
    unfolding perform_socks5_handshake_def socks5_exchange_def offer auth client_connect_def
      discard_bind_address_def conn Let_def ..
qed

lemmas handshake_copies = perform_http_handshake_eq perform_socks5_handshake_eq

section \<open>The contract of the chain and of the router\<close>

text \<open>The address a chain dials: that of its first hop, and the target's for one direct hop.\<close>

fun chain_entry :: "upstream_config list \<Rightarrow> connect_target \<Rightarrow> string option" where
  "chain_entry [] tgt = None"
| "chain_entry [Direct] tgt = target_entry tgt"
| "chain_entry (config # rest) tgt =
     (case extract_proxy_address config of Inl e \<Rightarrow> None | Inr addr \<Rightarrow> Some addr)"

fun upstream_entry :: "upstream_config \<Rightarrow> connect_target \<Rightarrow> string option" where
  "upstream_entry Direct tgt = target_entry tgt"
| "upstream_entry (Http addr auth tls) tgt = Some addr"
| "upstream_entry (Socks5_Proxy addr auth tls) tgt = Some addr"
| "upstream_entry (Chain chain) tgt = chain_entry chain tgt"

text \<open>Every chain is empty, one direct hop, or a first hop and one dial of its address.\<close>

lemma chain_cases [case_names empty direct no_address dials]:
  assumes "chain = [] \<Longrightarrow> P" "chain = [Direct] \<Longrightarrow> P"
    and "\<And>e. chain \<noteq> [] \<Longrightarrow> chain \<noteq> [Direct] \<Longrightarrow> extract_proxy_address (hd chain) = Inl e \<Longrightarrow>
      chain_entry chain tgt = None \<Longrightarrow>
      (\<And>n. chain_connect N S b chain tgt n = (Inl e, n)) \<Longrightarrow> P"
    and "\<And>addr f m. chain \<noteq> [] \<Longrightarrow> chain \<noteq> [Direct] \<Longrightarrow> extract_proxy_address (hd chain) = Inr addr \<Longrightarrow>
      chain_entry chain tgt = Some addr \<Longrightarrow>
      chain_connect N S b chain tgt = bind_io (dial_err N f addr) (\<lambda>stream. on_stream m stream) \<Longrightarrow> P"
  shows P
proof (cases chain)
  case Nil
  with assms(1) show ?thesis .
next
  case (Cons c rest)
  show ?thesis
  proof (cases "chain = [Direct]")
    case True
    with assms(2) show ?thesis .
  next
    case False
    show ?thesis
    proof (cases "extract_proxy_address c")
      case (Inl e)
      with Cons False have "chain_entry chain tgt = None"
        "chain_connect N S b chain tgt n = (Inl e, n)" for n
        by (cases c; cases rest; simp add: chain_connect_def bind_io_def)+
      with assms(3) Cons False Inl show ?thesis by simp
    next
      case (Inr addr)
      with Cons False have "chain_entry chain tgt = Some addr"
        by (cases c; cases rest) simp_all
      moreover have "\<exists>f m. chain_connect N S b chain tgt = bind_io (dial_err N f addr) (\<lambda>stream. on_stream m stream)"
        using Cons Inr
        by (cases c; cases rest) (auto simp: chain_connect_def bind_io_def lift_sum_def fun_eq_iff)
      ultimately show ?thesis using assms(4) Cons False Inr by auto
    qed
  qed
qed

interpretation chain: connector N "chain_connect N S b64_encode hops" "chain_entry hops"
  for N S b64_encode hops
proof
  fix tgt n addr and s :: 'b and n'
  show "\<exists>e. chain_connect N S b64_encode hops tgt n = (Inl e, n)" if "chain_entry hops tgt = None"
    using that
    by (cases rule: chain_cases [where chain = hops and tgt = tgt and N = N and S = S and b = b64_encode]; cases tgt) (auto simp: chain_connect_def)
  show "snd (chain_connect N S b64_encode hops tgt n) = snd (dial N addr n)"
    if "chain_entry hops tgt = Some addr"
    using that
    by (cases rule: chain_cases [where chain = hops and tgt = tgt and N = N and S = S and b = b64_encode]; cases tgt)
      (auto simp: chain_connect_def snd_dial_then)
  show "\<exists>s0. fst (dial N addr n) = Inr s0"
    if "chain_entry hops tgt = Some addr" "chain_connect N S b64_encode hops tgt n = (Inr s, n')"
    using that
    by (cases rule: chain_cases [where chain = hops and tgt = tgt and N = N and S = S and b = b64_encode]; cases tgt)
      (auto simp: chain_connect_def io_conv dest: dial_then_Inr)
qed

interpretation upstream: connector N "upstream_connect N S b64_encode config" "upstream_entry config"
  for N S b64_encode config
proof (cases config)
  case Direct
  then show "connector N (upstream_connect N S b64_encode config) (upstream_entry config)"
    using direct.connector_axioms [of N] by (simp add: connector_def)
next
  case (Http a b c)
  then show "connector N (upstream_connect N S b64_encode config) (upstream_entry config)"
    using http.connector_axioms [of N S b64_encode
        "\<lparr>http_proxy_addr = a, http_auth = b, http_use_tls = (case c of Some b \<Rightarrow> b | None \<Rightarrow> False)\<rparr>"]
    by (simp add: connector_def)
next
  case (Socks5_Proxy a b c)
  then show "connector N (upstream_connect N S b64_encode config) (upstream_entry config)"
    using socks5.connector_axioms [of N S
        "\<lparr>socks5_proxy_addr = a, socks5_auth = b, socks5_use_tls = (case c of Some b \<Rightarrow> b | None \<Rightarrow> False)\<rparr>"]
    by (simp add: connector_def)
next
  case (Chain hops)
  then show "connector N (upstream_connect N S b64_encode config) (upstream_entry config)"
    using chain.connector_axioms [of N S b64_encode hops] by (simp add: connector_def)
qed

end
