(* ===== verification/Base64_Ref.thy ===== *)
theory Base64_Ref
  imports Acl_Auth
begin

text \<open>
  A reference base64 codec (RFC 4648, standard alphabet, padding required, unused bits of
  the last character zero), which is what the \<open>STANDARD\<close> engine of the \<open>base64\<close> crate
  documents.  It provides the interface \<open>base64_codec\<close>, so the laws the program relies on
  can be met, and concrete headers can be evaluated.
\<close>

definition b64_alphabet :: string where
  "b64_alphabet = ''ABCDEFGHIJKLMNOPQRSTUVWXYZabcdefghijklmnopqrstuvwxyz0123456789+/''"

definition b64_char :: "nat \<Rightarrow> char" where
  "b64_char n = b64_alphabet ! n"

definition b64_val :: "char \<Rightarrow> nat option" where
  "b64_val c = find_char c b64_alphabet"

fun ref_encode :: "bytes \<Rightarrow> string" where
  "ref_encode [] = []"
| "ref_encode [a] =
     [b64_char (unat a div 4), b64_char (unat a mod 4 * 16), CHR ''='', CHR ''='']"
| "ref_encode [a, b] =
     [b64_char (unat a div 4), b64_char (unat a mod 4 * 16 + unat b div 16),
      b64_char (unat b mod 16 * 4), CHR ''='']"
| "ref_encode (a # b # c # bs) =
     [b64_char (unat a div 4), b64_char (unat a mod 4 * 16 + unat b div 16),
      b64_char (unat b mod 16 * 4 + unat c div 64), b64_char (unat c mod 64)] @ ref_encode bs"

definition quad :: "nat \<Rightarrow> nat \<Rightarrow> nat \<Rightarrow> nat \<Rightarrow> bytes" where
  "quad v w x y =
     [of_nat (v * 4 + w div 16), of_nat (w mod 16 * 16 + x div 4), of_nat (x mod 4 * 64 + y)]"

fun ref_decode :: "string \<Rightarrow> bytes option" where
  "ref_decode [] = Some []"
| "ref_decode (p # q # r # s # cs) =
     (case (b64_val p, b64_val q) of
        (Some v, Some w) \<Rightarrow>
          (case (b64_val r, b64_val s) of
             (Some x, Some y) \<Rightarrow> map_option (\<lambda>bs. quad v w x y @ bs) (ref_decode cs)
           | (Some x, None) \<Rightarrow>
               if s = CHR ''='' \<and> cs = [] \<and> x mod 4 = 0 then Some (take 2 (quad v w x 0)) else None
           | (None, None) \<Rightarrow>
               if r = CHR ''='' \<and> s = CHR ''='' \<and> cs = [] \<and> w mod 16 = 0
               then Some (take 1 (quad v w 0 0)) else None
           | _ \<Rightarrow> None)
      | _ \<Rightarrow> None)"
| "ref_decode _ = None"

lemma distinct_alphabet: "distinct b64_alphabet"
  by (simp add: b64_alphabet_def)

lemma length_alphabet: "length b64_alphabet = 64"
  by (simp add: b64_alphabet_def)

lemma find_char_nth: "distinct s \<Longrightarrow> n < length s \<Longrightarrow> find_char (s ! n) s = Some n"
  by (induction s arbitrary: n) (auto simp: nth_Cons split: nat.splits)

lemma b64_val_char [simp]: "n < 64 \<Longrightarrow> b64_val (b64_char n) = Some n"
  by (simp add: b64_val_def b64_char_def find_char_nth distinct_alphabet length_alphabet)

lemma b64_val_pad [simp]: "b64_val (CHR ''='') = None"
  by (simp add: b64_val_def find_char_None b64_alphabet_def)

lemma b64_char_in: "n < 64 \<Longrightarrow> b64_char n \<in> base64_chars"
proof -
  assume "n < 64"
  then have "b64_char n \<in> set b64_alphabet"
    by (simp add: b64_char_def length_alphabet)
  moreover have "set b64_alphabet \<subseteq> base64_chars"
    by (simp add: b64_alphabet_def base64_chars_def)
  ultimately show ?thesis by blast
qed

lemma sextet_bounds:
  "unat (a :: u8) div 4 < 64" "unat (a :: u8) mod 4 * 16 + unat (b :: u8) div 16 < 64"
  "unat (b :: u8) mod 16 * 4 + unat (c :: u8) div 64 < 64"
  "unat (a :: u8) mod 4 * 16 < 64" "unat (b :: u8) mod 16 * 4 < 64"
  using unat_u8_less [of a] unat_u8_less [of b] unat_u8_less [of c] by linarith+

lemma join_div: "k < n \<Longrightarrow> (m * n + k) div n = (m :: nat)"
  by simp

lemma join_mod: "k < n \<Longrightarrow> (m * n + k) mod n = (k :: nat)"
  by simp

lemma byte_high_bits:
  "unat (b :: u8) div 16 < 16" "unat (b :: u8) div 64 < 4"
  using unat_u8_less [of b] by linarith+

lemma quad_sextets:
  "quad (unat a div 4) (unat a mod 4 * 16 + unat b div 16)
     (unat b mod 16 * 4 + unat c div 64) (unat c mod 64) = [a, b, c]"
  by (simp add: quad_def join_div join_mod byte_high_bits)

lemma quad_two:
  "take 2 (quad (unat a div 4) (unat a mod 4 * 16 + unat b div 16) (unat b mod 16 * 4) 0) = [a, b]"
  by (simp add: quad_def join_div join_mod byte_high_bits)

lemma quad_one: "take 1 (quad (unat a div 4) (unat a mod 4 * 16) 0 0) = [a]"
  by (simp add: quad_def)

lemma ref_decode_encode: "ref_decode (ref_encode bs) = Some bs"
proof (induction bs rule: ref_encode.induct)
  case 1
  show ?case by simp
next
  case (2 a)
  show ?case using quad_one [of a] by (simp add: sextet_bounds)
next
  case (3 a b)
  show ?case using quad_two [of a b] by (simp add: sextet_bounds)
next
  case (4 a b c bs)
  then show ?case by (simp add: sextet_bounds quad_sextets)
qed

lemma ref_encode_chars: "set (ref_encode bs) \<subseteq> base64_chars"
proof (induction bs rule: ref_encode.induct)
  case 1
  show ?case by simp
next
  case (2 a)
  show ?case by (simp add: b64_char_in sextet_bounds) (simp add: base64_chars_def)
next
  case (3 a b)
  show ?case by (simp add: b64_char_in sextet_bounds) (simp add: base64_chars_def)
next
  case (4 a b c bs)
  then show ?case by (simp add: b64_char_in sextet_bounds)
qed

lemma ref_encode_nonempty: "bs \<noteq> [] \<Longrightarrow> ref_encode bs \<noteq> []"
  by (cases bs rule: ref_encode.cases) simp_all

interpretation ref64: base64_codec ref_encode ref_decode
  by unfold_locales (simp_all add: ref_decode_encode ref_encode_chars ref_encode_nonempty)

end
