(* ===== verification/Upstream_Properties.thy ===== *)
theory Upstream_Properties
  imports Upstream_Chain Base64_Ref Socks_Properties
begin

text \<open>
  The properties of the upstream connectors: what they dial, what a chain of proxies is asked,
  how the SOCKS5 client and the program's own SOCKS5 server fit together, and what the
  connectors leave out.
\<close>

section \<open>Reading one segment\<close>

lemma take_bytes_segment:
  "length bs \<le> n \<Longrightarrow> (case evs of Byte b # _ \<Rightarrow> False | _ \<Rightarrow> True) \<Longrightarrow> take_bytes n (map Byte bs @ evs) = (bs, evs)"
proof (induction bs arbitrary: n)
  case Nil
  then show ?case by (cases n; cases evs) (auto split: rx.splits)
next
  case (Cons b bs)
  then obtain m where "n = Suc m" by (cases n) auto
  with Cons show ?case by simp
qed

text \<open>A read returns the bytes up to the peer's next pause.\<close>

lemma conn_read_segment:
  assumes "rx_script c = map Byte bs @ evs" "bs \<noteq> []" "length bs \<le> n"
    and "case evs of Byte b # _ \<Rightarrow> False | _ \<Rightarrow> True"
  shows "io_read conn_ops n c = (Inr bs, c\<lparr>rx_script := evs\<rparr>)"
proof -
  obtain b bs' where bs: "bs = b # bs'" using assms(2) by (cases bs) auto
  obtain m where n: "n = Suc m" using assms(3) bs by (cases n) auto
  have t: "take_bytes n (map Byte bs @ evs) = (bs, evs)"
    using assms(3,4) by (rule take_bytes_segment)
  have "recv_some n (map Byte bs @ evs) w = (Inr bs, evs, w)" for w
    using t by (simp add: bs n)
  then show ?thesis by (simp add: io_read_def conn_ops_def conn_read_some_def assms(1))
qed

lemma conn_write_unlimited:
  "tx_limit c = None \<Longrightarrow> io_write_all conn_ops bs c = (Inr (), c\<lparr>tx_bytes := tx_bytes c @ bs\<rparr>)"
  by (simp add: io_write_all_def conn_ops_def conn_write_all_def)

lemma http_exchange_segment:
  assumes "rx_script c = map Byte bs @ evs" "bs \<noteq> []" "length bs \<le> 4096" "tx_limit c = None"
    and "case evs of Byte b # _ \<Rightarrow> False | _ \<Rightarrow> True"
  shows "http_exchange conn_ops b64 auth (Address host port) c =
    (if status_ok (utf8_lossy bs) then Inr () else Inl (connect_failed (utf8_lossy bs)),
     c\<lparr>rx_script := evs, tx_bytes := tx_bytes c @ as_bytes (connect_request b64 auth host port)\<rparr>)"
proof -
  let ?c = "c\<lparr>tx_bytes := tx_bytes c @ as_bytes (connect_request b64 auth host port)\<rparr>"
  have "io_read conn_ops 4096 ?c = (Inr bs, ?c\<lparr>rx_script := evs\<rparr>)"
    using assms by (intro conn_read_segment) simp_all
  then show ?thesis
    by (simp add: http_exchange_def conn_write_unlimited assms(4) Let_def)
qed

text \<open>The same after a pause.\<close>

lemma recv_some_wait: "n \<noteq> 0 \<Longrightarrow> recv_some n (Wait d # evs) w = recv_some n evs (w + d)"
  by (cases n) simp_all

lemma http_exchange_wait:
  assumes "rx_script c = Wait d # evs" "tx_limit c = None"
  shows "http_exchange conn_ops b64 auth tgt c =
    http_exchange conn_ops b64 auth tgt (c\<lparr>rx_script := evs, wait_time := wait_time c + d\<rparr>)"
proof -
  have "io_read conn_ops 4096 (c\<lparr>tx_bytes := x\<rparr>) =
      io_read conn_ops 4096 (c\<lparr>rx_script := evs, wait_time := wait_time c + d, tx_bytes := x\<rparr>)" for x
    by (simp add: io_read_def conn_ops_def conn_read_some_def assms(1) recv_some_wait split: prod.split)
  then show ?thesis
    by (cases tgt) (simp add: http_exchange_def conn_write_unlimited assms(2) bind_io_def)
qed

text \<open>A peer that answers 200 to a first request, and after a pause to a second one.\<close>

definition ok_200 :: bytes where
  "ok_200 = as_bytes (''HTTP/1.1 200 OK'' @ crlf @ crlf)"

definition two_answers :: conn where
  "two_answers = \<lparr>rx_script = map Byte ok_200 @ Wait 1 # map Byte ok_200 @ [Wait 1], tx_bytes = [],
     tx_limit = None, wait_time = 0\<rparr>"

lemma ok_200_simps [simp]: "ok_200 \<noteq> []" "length ok_200 \<le> 4096" "status_ok (utf8_lossy ok_200)"
  by (simp_all add: ok_200_def crlf_def status_ok_bytes as_bytes_def)

lemma two_answers_run:
  obtains s1 s2 where "http_exchange conn_ops b64 auth1 tgt1 two_answers = (Inr (), s1)"
    "http_exchange conn_ops b64 auth2 tgt2 s1 = (Inr (), s2)"
proof -
  obtain h1 p1 h2 p2 where t: "tgt1 = Address h1 p1" "tgt2 = Address h2 p2"
    by (cases tgt1; cases tgt2) blast
  let ?s1 = "two_answers\<lparr>rx_script := Wait 1 # map Byte ok_200 @ [Wait 1],
      tx_bytes := as_bytes (connect_request b64 auth1 h1 p1)\<rparr>"
  have 1: "http_exchange conn_ops b64 auth1 tgt1 two_answers = (Inr (), ?s1)"
    unfolding t by (subst http_exchange_segment [of _ ok_200 "Wait 1 # map Byte ok_200 @ [Wait 1]"])
      (simp_all add: two_answers_def)
  let ?s = "?s1\<lparr>rx_script := map Byte ok_200 @ [Wait 1], wait_time := wait_time ?s1 + 1\<rparr>"
  have "http_exchange conn_ops b64 auth2 tgt2 ?s1 = http_exchange conn_ops b64 auth2 tgt2 ?s"
    by (rule http_exchange_wait) (simp_all add: two_answers_def)
  also have "\<dots> = (Inr (), ?s\<lparr>rx_script := [Wait 1], tx_bytes := tx_bytes ?s @ as_bytes (connect_request b64 auth2 h2 p2)\<rparr>)"
    unfolding t by (subst http_exchange_segment [of _ ok_200 "[Wait 1]"]) (simp_all add: two_answers_def)
  finally show thesis by (rule that [OF 1])
qed

section \<open>Routes of HTTP hops\<close>

type_synonym http_hop = "string \<times> u16 \<times> user_credential option \<times> bool option"

fun hop_config :: "http_hop \<Rightarrow> upstream_config" where
  "hop_config (host, port, auth, tls) = Http (host_port host port) auth tls"

text \<open>The requests a route consists of: each hop is asked for the next one, the last for the target.\<close>

fun http_route :: "(bytes \<Rightarrow> string) \<Rightarrow> http_hop list \<Rightarrow> string \<Rightarrow> u16 \<Rightarrow> bytes" where
  "http_route b64 [] host port = []"
| "http_route b64 [(h, p, auth, tls)] host port = as_bytes (connect_request b64 auth host port)"
| "http_route b64 ((h, p, auth, tls) # (h', p', auth', tls') # hops) host port =
     as_bytes (connect_request b64 auth h' p') @ http_route b64 ((h', p', auth', tls') # hops) host port"

lemma parse_addr_host_port [simp]: "parse_addr_to_target (host_port h p) = Inr (Address h p)"
  using rfind_char_append [of "CHR '':''" "show_u16 p" h]
  by (simp add: parse_addr_to_target_def host_port_def Let_def)

lemma chain_hops_route:
  "chain_hops conn_ops b64 (map hop_config hops) (Address host port) c = (Inr (), c') \<Longrightarrow>
     tx_bytes c' = tx_bytes c @ http_route b64 hops host port"
proof (induction b64 hops host port arbitrary: c rule: http_route.induct)
  case (1 b64 host port)
  then show ?case by simp
next
  case (2 b64 h p auth tls host port)
  then show ?case by (auto simp: io_conv handshake_copies dest!: cs.http_exchange_Inr)
next
  case (3 b64 h p auth tls h' p' auth' tls' hops host port)
  from 3(2) obtain c1 where
    1: "http_exchange conn_ops b64 auth (Address h' p') c = (Inr (), c1)" and
    2: "chain_hops conn_ops b64 (map hop_config ((h', p', auth', tls') # hops)) (Address host port) c1 = (Inr (), c')"
    by (auto simp: io_conv handshake_copies simp del: chain_hops.simps(2))
      (auto simp: io_conv handshake_copies chain_hops.simps(2) [of _ _ "Http (host_port h p) auth tls"])
  from 3(1) [OF 2] cs.http_exchange_Inr [OF 1] show ?case by auto
qed

text \<open>The TLS settings of the hops.\<close>

fun set_tls :: "bool option \<Rightarrow> upstream_config \<Rightarrow> upstream_config" where
  "set_tls t (Http addr auth tls) = Http addr auth t"
| "set_tls t (Socks5_Proxy addr auth tls) = Socks5_Proxy addr auth t"
| "set_tls t config = config"

lemma set_tls_address [simp]: "extract_proxy_address (set_tls t c) = extract_proxy_address c"
  by (cases c) simp_all

lemma set_tls_Direct [simp]: "set_tls t c = Direct \<longleftrightarrow> c = Direct"
  by (cases c) simp_all

lemma set_tls_handshake [simp]:
  "perform_proxy_handshake S b64 (set_tls t c) = perform_proxy_handshake S b64 c"
  by (rule ext, cases c) (simp_all add: handshake_copies)

lemma set_tls_next: "next_target (map (set_tls t) hops) tgt = next_target hops tgt"
  by (cases hops; cases "hd hops") simp_all

lemma set_tls_hops: "chain_hops S b64 (map (set_tls t) hops) tgt = chain_hops S b64 hops tgt"
  by (induction hops) (simp_all add: set_tls_next)

lemma chain_connect_one:
  assumes "extract_proxy_address c = Inr addr"
  shows "chain_connect N S b64 [c] tgt =
    bind_io (dial_err N (\<lambda>e. Upstream (''Failed to connect to proxy '' @ addr @ '': '' @ e)) addr)
      (\<lambda>stream. on_stream (perform_proxy_handshake S b64 c tgt) stream)"
  using assms by (cases c) (simp_all add: chain_connect_def fun_eq_iff bind_io_def)

lemma chain_connect_more:
  assumes "extract_proxy_address c = Inr addr"
  shows "chain_connect N S b64 (c # d # rest) tgt =
    bind_io (dial_err N (\<lambda>e. Upstream (''Failed to connect to first proxy '' @ addr @ '': '' @ e)) addr)
      (\<lambda>stream. on_stream (chain_hops S b64 (c # d # rest) tgt) stream)"
  using assms by (cases c) (simp_all add: chain_connect_def fun_eq_iff bind_io_def)

lemma chain_connect_first:
  assumes "extract_proxy_address c = Inr addr"
  shows "\<exists>f. chain_connect N S b64 (c # rest) tgt =
    bind_io (dial_err N f addr) (\<lambda>stream. on_stream (chain_hops S b64 (c # rest) tgt) stream)"
proof (cases rest)
  case Nil
  have "chain_hops S b64 [c] tgt = perform_proxy_handshake S b64 c tgt"
    by (auto simp: fun_eq_iff bind_io_def split: prod.split sum.split)
  with Nil show ?thesis by (simp add: chain_connect_one [OF assms] del: chain_hops.simps) blast
next
  case (Cons d ds)
  then show ?thesis by (simp add: chain_connect_more [OF assms] del: chain_hops.simps) blast
qed

lemma chain_connect_dial:
  assumes "dial N = dial N'"
  shows "chain_connect N S b64 hops tgt = chain_connect N' S b64 hops tgt"
proof -
  have "dial_err N = dial_err N'" by (simp add: fun_eq_iff dial_err_def assms)
  then show ?thesis by (simp only: chain_connect_def)
qed

lemma set_tls_connect: "chain_connect N S b64 (map (set_tls t) hops) tgt = chain_connect N S b64 hops tgt"
proof (cases rule: chain_cases [where chain = hops and tgt = tgt and N = N and S = S and b = b64])
  case empty
  then show ?thesis by simp
next
  case direct
  then show ?thesis by simp
next
  case (no_address e)
  then obtain c rest where h: "hops = c # rest" and e: "extract_proxy_address c = Inl e" by (cases hops) auto
  with no_address(2) have "chain_connect N S b64 (map (set_tls t) hops) tgt n = (Inl e, n)" for n
    by (cases c; cases rest) (simp_all add: chain_connect_def bind_io_def)
  with no_address(5) show ?thesis by (simp add: fun_eq_iff)
next
  case (dials addr f m)
  then obtain c rest where h: "hops = c # rest" and a: "extract_proxy_address c = Inr addr" by (cases hops) auto
  show ?thesis
  proof (cases rest)
    case Nil
    with h a show ?thesis by (simp add: chain_connect_one)
  next
    case (Cons d ds)
    have "chain_hops S b64 (set_tls t c # set_tls t d # map (set_tls t) ds) tgt = chain_hops S b64 (c # d # ds) tgt"
      using set_tls_hops [of S b64 t "c # d # ds" tgt] by simp
    with h a Cons show ?thesis by (simp add: chain_connect_more del: chain_hops.simps)
  qed
qed

section \<open>Properties\<close>

text \<open>
  C14: Whatever the upstream configuration, connecting dials at most once: nothing when the
  configuration is an empty chain or one whose first hop has no address, otherwise the target
  itself (direct), the proxy, or the first proxy of the chain; the network is left as that
  dial leaves it, and the connection succeeds only if the dial did.
\<close>

theorem upstream_dials_once:
  "snd (upstream_connect N S b64 config tgt n) =
     (case upstream_entry config tgt of None \<Rightarrow> n | Some addr \<Rightarrow> snd (dial N addr n)) \<and>
   (\<not> isl (fst (upstream_connect N S b64 config tgt n)) \<longrightarrow>
     (\<exists>addr. upstream_entry config tgt = Some addr \<and> \<not> isl (fst (dial N addr n))))"
proof (cases "upstream_entry config tgt")
  case None
  with upstream.no_entry [of config tgt N S b64 n] show ?thesis by auto
next
  case (Some addr)
  have "\<not> isl (fst (dial N addr n))" if "\<not> isl (fst (upstream_connect N S b64 config tgt n))"
  proof -
    from that obtain s n' where "upstream_connect N S b64 config tgt n = (Inr s, n')"
      by (cases "upstream_connect N S b64 config tgt n"; cases "fst (upstream_connect N S b64 config tgt n)") auto
    with upstream.needs_dial [OF Some] show ?thesis by force
  qed
  with Some upstream.one_dial [OF Some, of N S b64 n] show ?thesis by simp
qed

theorem upstream_dials_once_witness:
  "\<not> isl (fst (upstream_connect table_network conn_ops ref_encode Direct (Address ''example.org'' 443) sample_net)) \<and>
   (\<exists>addr. upstream_entry Direct (Address ''example.org'' 443) = Some addr \<and>
      \<not> isl (fst (dial table_network addr sample_net)))"
proof -
  have a: "host_port ''example.org'' 443 = ''example.org:443''" by code_simp
  have "\<not> isl (fst (upstream_connect table_network conn_ops ref_encode Direct (Address ''example.org'' 443) sample_net))"
    by (simp add: direct_connect_def dial_err_def table_network_def table_dial_def sample_net_def a)
  with upstream_dials_once [of table_network conn_ops ref_encode Direct "Address ''example.org'' 443" sample_net]
  show ?thesis by blast
qed

text \<open>
  C9: The SOCKS5 client and the program's own SOCKS5 server understand each other.  For
  matching credentials of at most 255 bytes and a host of at most 255 bytes, the bytes the
  client sends make the server's session dial the client's target, and start the tunnel after
  sending the replies; and on those replies the client succeeds, having sent those bytes.
  Neither side reads a byte of the tunnel.
\<close>

theorem socks5_client_server:
  assumes "case users of None \<Rightarrow> True
    | Some us \<Rightarrow> (\<exists>a. auth = Some a \<and> verify_credentials (username a) (password a) us \<and>
        rust_string (username a) \<and> rust_string (password a) \<and>
        length (username a) < 256 \<and> length (password a) < 256)"
    and "rust_string host" "length host < 256"
    and "conn_healthy c" "conn_pending c = admission_reply users @ reply_bytes 0x00 @ down"
    and "conn_healthy (client w)"
    and "conn_pending (client w) = client_bytes auth (if users = None then 0x00 else 0x02) host port @ up"
    and "dial N (request_addr (connect_request_of host port)) (net w) = (Inr t, n)"
  shows "(\<exists>c'. socks5_exchange conn_ops auth (Address host port) c = (Inr (), c') \<and> conn_pending c' = down \<and>
      tx_bytes c' = tx_bytes c @ client_bytes auth (if users = None then 0x00 else 0x02) host port) \<and>
    (\<exists>d. handle_socks5_inner conn_ops N X users w = tunnel_copy X t (w\<lparr>client := d, net := n\<rparr>) \<and>
      conn_pending d = up \<and>
      tx_bytes d = tx_bytes (client w) @ admission_reply users @ reply_bytes 0x00)"
proof -
  have "users \<noteq> None \<Longrightarrow> auth \<noteq> None" using assms(1) by (auto split: option.splits)
  with assms(4,5) obtain c' where "socks5_exchange conn_ops auth (Address host port) c = (Inr (), c')"
    "conn_pending c' = down"
    "tx_bytes c' = tx_bytes c @ client_bytes auth (if users = None then 0x00 else 0x02) host port"
    using cl.socks5_exchange_live [of c users 0 down auth host port] by auto
  moreover have "wf_target (target (connect_request_of host port))" "short_target (target (connect_request_of host port))"
    "command (connect_request_of host port) = Connect"
    using host_target_wf [OF assms(2,3)] by (simp_all add: connect_request_of_def)
  from session_connect_dialled [OF assms(6,7) client_bytes_admitted [OF assms(1)] this assms(8), of X]
  obtain d where "handle_socks5_inner conn_ops N X users w = tunnel_copy X t (w\<lparr>client := d, net := n\<rparr>)"
    "conn_pending d = up" "tx_bytes d = tx_bytes (client w) @ admission_reply users @ reply_bytes 0x00"
    by auto
  ultimately show ?thesis by blast
qed

definition alice :: user_credential where
  "alice = \<lparr>username = ''alice'', password = ''secret''\<rparr>"

theorem socks5_client_server_witness:
  "(\<exists>c'. socks5_exchange conn_ops (Some alice) (Address ''example.org'' 443)
       (peer_sends (admission_reply (Some [alice]) @ reply_bytes 0x00 @ [9])) = (Inr (), c') \<and> conn_pending c' = [9] \<and>
      tx_bytes c' = client_bytes (Some alice) 0x02 ''example.org'' 443) \<and>
    (\<exists>d. handle_socks5_inner conn_ops table_network sample_ops (Some [alice])
        (sample_session (client_bytes (Some alice) 0x02 ''example.org'' 443 @ [8])) =
        tunnel_copy sample_ops (peer_sends [])
          (sample_session (client_bytes (Some alice) 0x02 ''example.org'' 443 @ [8])
            \<lparr>client := d, net := sample_net\<lparr>dial_log := [''example.org:443'']\<rparr>\<rparr>) \<and> conn_pending d = [8])"
proof -
  let ?w = "sample_session (client_bytes (Some alice) 0x02 ''example.org'' 443 @ [8])"
  have s: "rust_string ''alice''" "rust_string ''secret''" "rust_string ''example.org''"
    by (simp_all add: rust_string_ascii is_ascii_def)
  have a: "case Some [alice] of None \<Rightarrow> True
    | Some us \<Rightarrow> (\<exists>a. Some alice = Some a \<and> verify_credentials (username a) (password a) us \<and>
        rust_string (username a) \<and> rust_string (password a) \<and>
        length (username a) < 256 \<and> length (password a) < 256)"
    using s by (simp add: alice_def verify_credentials_def)
  have "request_addr (connect_request_of ''example.org'' 443) = ''example.org:443''" by code_simp
  then have d: "dial table_network (request_addr (connect_request_of ''example.org'' 443)) (net ?w) =
      (Inr (peer_sends []), sample_net\<lparr>dial_log := [''example.org:443'']\<rparr>)"
    by (simp add: table_network_def table_dial_def sample_net_def)
  have p: "conn_pending (client ?w) =
      client_bytes (Some alice) (if Some [alice] = None then 0x00 else 0x02) ''example.org'' 443 @ [8]" by simp
  have l: "length ''example.org'' < 256" by simp
  from socks5_client_server [OF a s(3) l peer_sends_simps(4) peer_sends_simps(1) _ p d, where X = sample_ops and down = "[9]"]
  show ?thesis by (force simp: sample_session_def)
qed

text \<open>
  C27: A chain of HTTP proxies that succeeds has sent, over the one connection to the first proxy
  and in this order, exactly one CONNECT request per hop: each hop is asked for the host and
  port of the next one with its own credentials, and the last hop for the target.
\<close>

theorem chain_http_requests:
  assumes "chain_connect N conn_ops b64 (map hop_config hops) (Address host port) n = (Inr s, n')"
  shows "\<exists>h p auth tls rest s0. hops = (h, p, auth, tls) # rest \<and>
    dial N (host_port h p) n = (Inr s0, n') \<and>
    tx_bytes s = tx_bytes s0 @ http_route b64 hops host port"
proof -
  obtain hop rest where hops: "hops = hop # rest"
    using assms by (cases hops) (auto simp: chain_connect_def)
  obtain h p auth tls where hop: "hop = (h, p, auth, tls)" by (cases hop)
  have addr: "extract_proxy_address (hop_config hop) = Inr (host_port h p)" by (simp add: hop)
  have run: "\<exists>f. chain_connect N conn_ops b64 (map hop_config hops) (Address host port) =
      bind_io (dial_err N f (host_port h p))
        (\<lambda>stream. on_stream (chain_hops conn_ops b64 (map hop_config hops) (Address host port)) stream)"
    using chain_connect_first [OF addr, of N conn_ops b64 "map hop_config rest"] hops
    by (simp del: chain_hops.simps)
  with assms obtain s0 where d: "dial N (host_port h p) n = (Inr s0, n')"
    and "chain_hops conn_ops b64 (map hop_config hops) (Address host port) s0 = (Inr (), s)"
    by (auto simp: io_conv simp del: chain_hops.simps)
  from chain_hops_route [OF this(2)] d hops hop show ?thesis by blast
qed

text \<open>Two proxies that answer 200, the second after a pause.\<close>

definition two_hops :: "http_hop list" where
  "two_hops = [(''p1'', 8080, Some alice, None), (''p2'', 3128, None, None)]"

definition two_hop_net :: "conn table_net" where
  "two_hop_net = \<lparr>answers = [(host_port ''p1'' 8080, Inr two_answers)], dial_log = []\<rparr>"

lemma two_hop_run:
  "\<exists>s. chain_connect table_network conn_ops ref_encode (map hop_config two_hops) (Address ''t'' 443) two_hop_net
     = (Inr s, two_hop_net\<lparr>dial_log := [host_port ''p1'' 8080]\<rparr>)"
proof -
  obtain s1 s where "http_exchange conn_ops ref_encode (Some alice) (Address ''p2'' 3128) two_answers = (Inr (), s1)"
    "http_exchange conn_ops ref_encode None (Address ''t'' 443) s1 = (Inr (), s)"
    by (rule two_answers_run)
  then have "chain_hops conn_ops ref_encode (map hop_config two_hops) (Address ''t'' 443) two_answers = (Inr (), s)"
    by (simp add: two_hops_def handshake_copies)
  moreover have "dial table_network (host_port ''p1'' 8080) two_hop_net =
      (Inr two_answers, two_hop_net\<lparr>dial_log := [host_port ''p1'' 8080]\<rparr>)"
    by (simp add: table_network_def table_dial_def two_hop_net_def)
  ultimately show ?thesis
    by (intro exI [of _ s])
      (simp add: two_hops_def chain_connect_def io_conv dial_err_Inr on_stream_Inr del: chain_hops.simps)
qed

theorem chain_http_requests_witness:
  "\<exists>s n'. chain_connect table_network conn_ops ref_encode (map hop_config two_hops) (Address ''t'' 443) two_hop_net
       = (Inr s, n') \<and>
     tx_bytes s = as_bytes (connect_request ref_encode (Some alice) ''p2'' 3128) @
       as_bytes (connect_request ref_encode None ''t'' 443)"
proof -
  from two_hop_run obtain s where run: "chain_connect table_network conn_ops ref_encode (map hop_config two_hops)
      (Address ''t'' 443) two_hop_net = (Inr s, two_hop_net\<lparr>dial_log := [host_port ''p1'' 8080]\<rparr>)" ..
  from chain_http_requests [OF run] obtain s0 where
    "dial table_network (host_port ''p1'' 8080) two_hop_net = (Inr s0, two_hop_net\<lparr>dial_log := [host_port ''p1'' 8080]\<rparr>)"
    "tx_bytes s = tx_bytes s0 @ http_route ref_encode two_hops ''t'' 443"
    by (auto simp: two_hops_def)
  then have "tx_bytes s = http_route ref_encode two_hops ''t'' 443"
    by (auto simp: table_network_def table_dial_def two_hop_net_def two_answers_def)
  with run show ?thesis by (auto simp: two_hops_def)
qed

text \<open>
  C28: A chain never uses TLS.  Two chains that differ in the \<open>tls\<close> settings of their hops only, hop
  by hop and in any way, on two networks that differ in everything that is TLS (names, roots and
  handshake), connect alike; so no setting makes a chain wrap its connection, on whatever
  network.  The same hop on its own does: if no TLS handshake succeeds, an HTTP or SOCKS5 proxy
  with \<open>tls\<close> on gives no connection.
\<close>

theorem chain_ignores_tls:
  assumes "map (set_tls None) hops = map (set_tls None) hops'" and "dial N = dial N'"
  shows "upstream_connect N S b64 (Chain hops) tgt n = upstream_connect N' S b64 (Chain hops') tgt n \<and>
    ((\<forall>c h s. \<exists>e. tls_connect N' c h s = Inl e) \<longrightarrow>
      (\<exists>e. fst (upstream_connect N' S b64 (Http addr auth (Some True)) tgt n) = Inl e) \<and>
      (\<exists>e. fst (upstream_connect N' S b64 (Socks5_Proxy addr auth (Some True)) tgt n) = Inl e))"
proof -
  have "chain_connect N S b64 hops tgt = chain_connect N S b64 hops' tgt"
    using set_tls_connect [of N S b64 None hops tgt] set_tls_connect [of N S b64 None hops' tgt] assms(1) by simp
  moreover have "chain_connect N S b64 hops' tgt = chain_connect N' S b64 hops' tgt"
    by (rule chain_connect_dial [OF assms(2)])
  ultimately have "upstream_connect N S b64 (Chain hops) tgt n = upstream_connect N' S b64 (Chain hops') tgt n" by simp
  moreover have "\<exists>e. fst (upstream_connect N' S b64 config tgt n) = Inl e"
    if "\<forall>c h s. \<exists>e. tls_connect N' c h s = Inl e" "config = Http addr auth (Some True) \<or> config = Socks5_Proxy addr auth (Some True)"
    for config
  proof (cases "fst (upstream_connect N' S b64 config tgt n)")
    case (Inr s)
    then obtain n' where "upstream_connect N' S b64 config tgt n = (Inr s, n')" by (metis prod.collapse)
    with that show ?thesis
      by (auto simp: http_proxy_connect_def socks5_proxy_connect_def io_conv wrap_tls_def map_err_def Let_def
          split: if_splits sum.splits) (metis sum.distinct(1))+
  qed simp
  ultimately show ?thesis by (simp del: upstream_connect.simps)
qed

text \<open>A network on which every TLS handshake fails, and a chain with TLS on both hops.\<close>

theorem chain_ignores_tls_witness:
  "upstream_connect (table_network\<lparr>tls_connect := \<lambda>c h s. Inl ''bad certificate''\<rparr>) conn_ops ref_encode
       (Chain [Http ''a:1'' None (Some True), Http ''b:2'' None (Some True)]) (Address ''c'' 3) sample_net =
     upstream_connect table_network conn_ops ref_encode
       (Chain [Http ''a:1'' None None, Http ''b:2'' None (Some False)]) (Address ''c'' 3) sample_net"
  using chain_ignores_tls [of "[Http ''a:1'' None (Some True), Http ''b:2'' None (Some True)]"
      "[Http ''a:1'' None None, Http ''b:2'' None (Some False)]"
      "table_network\<lparr>tls_connect := \<lambda>c h s. Inl ''bad certificate''\<rparr>" table_network conn_ops ref_encode
      "Address ''c'' 3" sample_net]
  by simp

text \<open>
  A chain of one proxy is that proxy's connector without TLS: the same connections succeed,
  with the same bytes exchanged.
\<close>

lemma chain_single_hop:
  "(chain_connect N S b64 [Http addr auth tls] tgt n = (Inr s, n') \<longleftrightarrow>
      http_proxy_connect N S b64 \<lparr>http_proxy_addr = addr, http_auth = auth, http_use_tls = False\<rparr> tgt n = (Inr s, n')) \<and>
   (chain_connect N S b64 [Socks5_Proxy addr auth tls] tgt n = (Inr s, n') \<longleftrightarrow>
      socks5_proxy_connect N S \<lparr>socks5_proxy_addr = addr, socks5_auth = auth, socks5_use_tls = False\<rparr> tgt n = (Inr s, n'))"
  by (simp add: chain_connect_one http_proxy_connect_def socks5_proxy_connect_def io_conv handshake_copies)

text \<open>
  A direct hop between two proxies is no hop: the first proxy is asked for the final target,
  and what follows on that connection, now to the target, is the CONNECT request of the third
  hop with that hop's credentials.
\<close>

lemma chain_direct_in_middle:
  assumes "chain_hops conn_ops b64 [Http a1 auth1 t1, Direct, Http a2 auth2 t2] (Address host port) c = (Inr (), c')"
  shows "tx_bytes c' = tx_bytes c @ as_bytes (connect_request b64 auth1 host port) @
    as_bytes (connect_request b64 auth2 host port)"
  using assms by (auto simp: io_conv handshake_copies dest!: cs.http_exchange_Inr)

lemma chain_direct_in_middle_witness:
  "\<exists>c c'. chain_hops conn_ops ref_encode [Http (host_port ''p1'' 1) None None, Direct,
       Http (host_port ''p2'' 2) (Some alice) None]
       (Address ''t'' 443) c = (Inr (), c') \<and> tx_bytes c = [] \<and>
     tx_bytes c' = as_bytes (connect_request ref_encode None ''t'' 443) @
       as_bytes (connect_request ref_encode (Some alice) ''t'' 443)"
proof -
  let ?c = two_answers
  obtain c1 c' where 1: "http_exchange conn_ops ref_encode None (Address ''t'' 443) ?c = (Inr (), c1)"
    and 2: "http_exchange conn_ops ref_encode (Some alice) (Address ''t'' 443) c1 = (Inr (), c')"
    by (rule two_answers_run)
  have run: "chain_hops conn_ops ref_encode [Http (host_port ''p1'' 1) None None, Direct,
       Http (host_port ''p2'' 2) (Some alice) None]
       (Address ''t'' 443) ?c = (Inr (), c')"
    using 1 2 by (simp add: handshake_copies)
  from chain_direct_in_middle [OF run] run show ?thesis by (intro exI [of _ ?c] exI [of _ c']) (simp add: two_answers_def)
qed



text \<open>
  C30: The credentials a connector or chain puts into its CONNECT request are the ones a proxy
  that reads the header with \<open>parse_basic_auth\<close> gets, for a user name without a colon.
  \<open>base64_codec\<close> is the documented behaviour of the base64 library.
\<close>

theorem proxy_auth_roundtrip:
  assumes "base64_codec enc dec64" and "rust_string (username a)" "rust_string (password a)"
    and "CHR '':'' \<notin> set (username a)"
  shows "\<exists>pre v. connect_request enc (Some a) host port =
      pre @ ''Proxy-Authorization: '' @ v @ crlf @ crlf \<and>
    parse_basic_auth dec64 v = Some (username a, password a)"
proof -
  have "connect_request enc (Some a) host port =
      (''CONNECT '' @ host @ '':'' @ show_u16 port @ '' HTTP/1.1'' @ crlf @
       ''Host: '' @ host @ '':'' @ show_u16 port @ crlf) @
      ''Proxy-Authorization: '' @ basic_auth_value enc (username a) (password a) @ crlf @ crlf"
    by (simp add: connect_request_def auth_header_def basic_auth_value_def)
  with base64_codec.basic_auth_roundtrip [OF assms(1,2,4,3)] show ?thesis by blast
qed

theorem proxy_auth_roundtrip_witness:
  "\<exists>pre v. connect_request ref_encode (Some alice) ''example.org'' 443 =
      pre @ ''Proxy-Authorization: '' @ v @ crlf @ crlf \<and>
    parse_basic_auth ref_decode v = Some (''alice'', ''secret'')"
proof -
  have "rust_string (username alice)" "rust_string (password alice)" "CHR '':'' \<notin> set (username alice)"
    by (simp_all add: alice_def rust_string_ascii is_ascii_def)
  from proxy_auth_roundtrip [OF ref64.base64_codec_axioms this] show ?thesis by (simp add: alice_def)
qed

text \<open>
  A proxy address is split at its last colon: the parser inverts \<open>host:port\<close> for every host
  (an IPv6 text included) and port, and accepts nothing but a text followed by a colon and a
  decimal number of at most 65535.
\<close>

lemma chain_address_roundtrip:
  "parse_addr_to_target (host_port host port) = Inr (Address host port) \<and>
   (parse_addr_to_target addr = Inr (Address h p) \<longrightarrow>
     (\<exists>digits. addr = h @ '':'' @ digits \<and> CHR '':'' \<notin> set digits \<and> parse_u16 digits = Some p))"
proof -
  have "\<exists>digits. addr = h @ '':'' @ digits \<and> CHR '':'' \<notin> set digits \<and> parse_u16 digits = Some p"
    if ok: "parse_addr_to_target addr = Inr (Address h p)"
  proof -
    from ok obtain i where i: "rfind_char (CHR '':'') addr = Some i"
      and p: "parse_u16 (drop (i + 1) addr) = Some p" and h: "h = take i addr"
      by (auto simp: parse_addr_to_target_def Let_def split: option.splits sum.splits)
    from rfind_char_Some [OF i] p h show ?thesis
      by (intro exI [of _ "drop (Suc i) addr"]) auto
  qed
  then show ?thesis by simp
qed

lemma chain_address_roundtrip_witness:
  "\<exists>digits. ''[::1]:1080'' = ''[::1]'' @ '':'' @ digits \<and> parse_u16 digits = Some 1080"
proof -
  have "host_port ''[::1]'' 1080 = ''[::1]:1080''" by code_simp
  then have "parse_addr_to_target ''[::1]:1080'' = Inr (Address ''[::1]'' 1080)"
    by (metis parse_addr_host_port)
  with chain_address_roundtrip [of "[]" 0 "''[::1]:1080''" "''[::1]''" 1080] show ?thesis by blast
qed

end
