(* ===== verification/Duplex.thy ===== *)
theory Duplex
  imports Upstream_Properties
begin

text \<open>
  Both ends of a connection at once: a stream whose peer reacts to every write, in a world of
  addresses with a peer behind each.  A proxy that has connected its client is, from then on,
  the peer it has connected to.  The interface \<open>relay_world\<close> is what a chain of proxies needs
  of such a world; through it, a chain of any length is run to its end.
\<close>

section \<open>Streams with a reacting peer\<close>

record 'p duplex =
  peer :: 'p
  inbox :: bytes

text \<open>What a peer is after it has read some bytes, and what it answers.\<close>

type_synonym 'p reaction = "'p \<Rightarrow> bytes \<Rightarrow> 'p \<times> bytes"

definition fresh :: "'p \<Rightarrow> 'p duplex" where
  "fresh p = \<lparr>peer = p, inbox = []\<rparr>"

text \<open>
  A read of more than the peer has sent waits for bytes that do not come, which ends like a
  connection that is closed: the peers here answer at once.
\<close>

definition duplex_read_exact :: "nat \<Rightarrow> 'p duplex \<Rightarrow> (string + bytes) \<times> 'p duplex" where
  "duplex_read_exact n s =
     (if n \<le> length (inbox s) then (Inr (take n (inbox s)), s\<lparr>inbox := drop n (inbox s)\<rparr>)
      else (Inl ''early eof'', s\<lparr>inbox := []\<rparr>))"

definition duplex_write :: "'p reaction \<Rightarrow> bytes \<Rightarrow> 'p duplex \<Rightarrow> (string + unit) \<times> 'p duplex" where
  "duplex_write react bs s =
     (case react (peer s) bs of (p, reply) \<Rightarrow> (Inr (), \<lparr>peer = p, inbox = inbox s @ reply\<rparr>))"

definition duplex_ops :: "'p reaction \<Rightarrow> 'p duplex stream_ops" where
  "duplex_ops react =
     \<lparr>read_exact = duplex_read_exact,
      timeout_read_exact = (\<lambda>t n s. case duplex_read_exact n s of (r, s') \<Rightarrow> (Some r, s')),
      read_some = (\<lambda>n s. (Inr (take n (inbox s)), s\<lparr>inbox := drop n (inbox s)\<rparr>)),
      write_all = duplex_write react\<rparr>"

type_synonym 'p world = "string \<Rightarrow> 'p option"

definition duplex_network :: "'p world \<Rightarrow> (unit, 'p duplex) network" where
  "duplex_network W =
     \<lparr>dial = (\<lambda>addr n. (case W addr of Some p \<Rightarrow> Inr (fresh p) | None \<Rightarrow> Inl ''Connection refused'', n)),
      server_name_ok = (\<lambda>h. h \<noteq> []), tls_server_roots = [], tls_connect = (\<lambda>c h s. Inr s)\<rparr>"

lemma io_write_duplex:
  "react p bs = (q, reply) \<Longrightarrow>
   io_write_all (duplex_ops react) bs \<lparr>peer = p, inbox = buf\<rparr> = (Inr (), \<lparr>peer = q, inbox = buf @ reply\<rparr>)"
  by (simp add: io_write_all_def duplex_ops_def duplex_write_def)

lemma io_read_exact_duplex:
  "length bs = n \<Longrightarrow>
   io_read_exact (duplex_ops react) n \<lparr>peer = p, inbox = bs @ buf\<rparr> = (Inr bs, \<lparr>peer = p, inbox = buf\<rparr>)"
  by (simp add: io_read_exact_def duplex_ops_def duplex_read_exact_def)

lemma io_read_duplex:
  "length bs \<le> n \<Longrightarrow>
   io_read (duplex_ops react) n \<lparr>peer = p, inbox = bs\<rparr> = (Inr bs, \<lparr>peer = p, inbox = []\<rparr>)"
  by (simp add: io_read_def duplex_ops_def)

section \<open>Routes\<close>

text \<open>
  A hop is the address of a proxy and its configuration.  A route works if behind the address of
  every hop is a peer that serves the configuration, for the address of the hop after it, and
  the last for the target.
\<close>

type_synonym hop = "string \<times> u16 \<times> upstream_config"

fun hop_at :: "'p world \<Rightarrow> (upstream_config \<Rightarrow> 'p \<Rightarrow> string \<Rightarrow> u16 \<Rightarrow> bool) \<Rightarrow> hop \<Rightarrow> string \<Rightarrow> u16 \<Rightarrow> bool"
where
  "hop_at W serves (h, p, config) host port \<longleftrightarrow>
     extract_proxy_address config = Inr (host_port h p) \<and>
     (case W (host_port h p) of Some q \<Rightarrow> serves config q host port | None \<Rightarrow> False)"

fun route_works ::
  "'p world \<Rightarrow> (upstream_config \<Rightarrow> 'p \<Rightarrow> string \<Rightarrow> u16 \<Rightarrow> bool) \<Rightarrow> hop list \<Rightarrow> string \<Rightarrow> u16 \<Rightarrow> bool"
where
  "route_works W serves [] host port \<longleftrightarrow> True"
| "route_works W serves [hop] host port \<longleftrightarrow> hop_at W serves hop host port"
| "route_works W serves (hop # (h, p, config) # hops) host port \<longleftrightarrow>
     hop_at W serves hop h p \<and> route_works W serves ((h, p, config) # hops) host port"

definition hop_configs :: "hop list \<Rightarrow> upstream_config list" where
  "hop_configs = map (\<lambda>(h, p, config). config)"

lemma hop_configs_simps [simp]:
  "hop_configs [] = []" "hop_configs ((h, p, config) # hops) = config # hop_configs hops"
  by (simp_all add: hop_configs_def)

lemma next_target_hop:
  "extract_proxy_address config = Inr (host_port h p) \<Longrightarrow> next_target (config # rest) tgt = Inr (Address h p)"
  by (cases config) auto

lemma route_works_Cons:
  "route_works W serves ((h, p, config) # hops) host port \<Longrightarrow> extract_proxy_address config = Inr (host_port h p)"
  by (cases hops) auto

text \<open>
  The contract of a world: the handshake with a peer that serves a hop leads to the peer behind
  the address asked for, with nothing left to read.
\<close>

locale relay_world =
  fixes react :: "'p reaction"
    and W :: "'p world"
    and b64 :: "bytes \<Rightarrow> string"
    and serves :: "upstream_config \<Rightarrow> 'p \<Rightarrow> string \<Rightarrow> u16 \<Rightarrow> bool"
  assumes handshake: "serves config p host port \<Longrightarrow> W (host_port host port) = Some q \<Longrightarrow>
    perform_proxy_handshake (duplex_ops react) b64 config (Address host port) (fresh p) = (Inr (), fresh q)"
begin

lemma hop_peer:
  assumes "hop_at W serves (h, p, config) host port" "W (host_port host port) = Some q"
  obtains r where "W (host_port h p) = Some r" and
    "perform_proxy_handshake (duplex_ops react) b64 config (Address host port) (fresh r) = (Inr (), fresh q)"
  using assms by (auto simp: handshake split: option.splits)

lemma chain_hops_reach:
  assumes "route_works W serves (hop # hops) host port" "W (host_port host port) = Some q"
    and "tail = [] \<or> tail = [Direct]"
  shows "\<exists>r. W (host_port (fst hop) (fst (snd hop))) = Some r \<and>
    chain_hops (duplex_ops react) b64 (hop_configs (hop # hops) @ tail) (Address host port) (fresh r) = (Inr (), fresh q)"
  using assms(1)
proof (induction hops arbitrary: hop)
  case Nil
  obtain h p config where hop: "hop = (h, p, config)" by (cases hop)
  with Nil assms(2) obtain r where r: "W (host_port h p) = Some r"
    "perform_proxy_handshake (duplex_ops react) b64 config (Address host port) (fresh r) = (Inr (), fresh q)"
    by (auto elim: hop_peer simp del: hop_at.simps)
  then show ?case
    using assms(3) by (auto simp: hop bind_io_def ret_def)
next
  case (Cons hop2 hops)
  obtain h p config where hop: "hop = (h, p, config)" by (cases hop)
  obtain h2 p2 config2 where hop2: "hop2 = (h2, p2, config2)" by (cases hop2)
  have at: "hop_at W serves (h, p, config) h2 p2" and rest: "route_works W serves ((h2, p2, config2) # hops) host port"
    using Cons.prems by (simp_all add: hop hop2 del: hop_at.simps)
  from Cons.IH [of hop2] rest obtain r2 where r2: "W (host_port h2 p2) = Some r2"
    "chain_hops (duplex_ops react) b64 (hop_configs ((h2, p2, config2) # hops) @ tail) (Address host port) (fresh r2) =
      (Inr (), fresh q)"
    by (auto simp: hop2 simp del: chain_hops.simps)
  from at r2(1) obtain r where r: "W (host_port h p) = Some r"
    "perform_proxy_handshake (duplex_ops react) b64 config (Address h2 p2) (fresh r) = (Inr (), fresh r2)"
    by (rule hop_peer)
  have "next_target (config2 # hop_configs hops @ tail) (Address host port) = Inr (Address h2 p2)"
    by (rule next_target_hop) (rule route_works_Cons [OF rest])
  with r r2(2) show ?case
    by (simp add: hop hop2 bind_io_def chain_hops.simps(2) [of _ _ config] del: chain_hops.simps next_target.simps)
qed

lemma chain_connects:
  assumes "route_works W serves hops host port" "W (host_port host port) = Some q"
    and "hops \<noteq> [] \<and> tail = [] \<or> tail = [Direct]"
  shows "chain_connect (duplex_network W) (duplex_ops react) b64 (hop_configs hops @ tail) (Address host port) () =
    (Inr (fresh q), ())"
proof (cases hops)
  case Nil
  with assms show ?thesis by (simp add: chain_connect_def dial_err_def duplex_network_def)
next
  case (Cons hop rest)
  obtain h p config where hop: "hop = (h, p, config)" by (cases hop)
  from chain_hops_reach [of hop rest host port q "tail"] assms obtain r where r: "W (host_port h p) = Some r"
    "chain_hops (duplex_ops react) b64 (config # hop_configs rest @ tail) (Address host port) (fresh r) = (Inr (), fresh q)"
    by (auto simp: Cons hop simp del: chain_hops.simps)
  have "extract_proxy_address config = Inr (host_port h p)"
    by (rule route_works_Cons) (use assms(1) in \<open>simp add: Cons hop\<close>)
  from chain_connect_first [OF this, of "duplex_network W" "duplex_ops react" b64 "hop_configs rest @ tail"]
  obtain f where "chain_connect (duplex_network W) (duplex_ops react) b64 (config # hop_configs rest @ tail) (Address host port) =
      bind_io (dial_err (duplex_network W) f (host_port h p)) (\<lambda>stream.
        on_stream (chain_hops (duplex_ops react) b64 (config # hop_configs rest @ tail) (Address host port)) stream)"
    by blast
  with r show ?thesis
    by (simp add: Cons hop bind_io_def dial_err_def duplex_network_def on_stream_def del: chain_hops.simps)
qed

end

section \<open>Sending through a chain\<close>

text \<open>
  The body of the chain tests: connect through the chain, send a message, read once, and compare.
\<close>

definition sends_and_reads_back ::
  "'p reaction \<Rightarrow> 'p world \<Rightarrow> (bytes \<Rightarrow> string) \<Rightarrow> upstream_config list \<Rightarrow> connect_target \<Rightarrow> bytes \<Rightarrow> bool"
where
  "sends_and_reads_back react W b64 chain tgt message =
     (case fst (chain_connect (duplex_network W) (duplex_ops react) b64 chain tgt ()) of
        Inl e \<Rightarrow> False
      | Inr stream \<Rightarrow>
          (case write_all (duplex_ops react) message stream of
             (Inl e, stream') \<Rightarrow> False
           | (Inr _, stream') \<Rightarrow> fst (read_some (duplex_ops react) 4096 stream') = Inr message))"

text \<open>A peer that echoes.\<close>

definition echoes :: "'p reaction \<Rightarrow> 'p \<Rightarrow> bool" where
  "echoes react q \<longleftrightarrow> (\<forall>bs. react q bs = (q, bs))"

context relay_world begin

lemma chain_echoes:
  assumes "route_works W serves hops host port" "W (host_port host port) = Some q" "echoes react q"
    and "hops \<noteq> [] \<and> tail = [] \<or> tail = [Direct]" and "length message \<le> 4096"
  shows "sends_and_reads_back react W b64 (hop_configs hops @ tail) (Address host port) message"
  using chain_connects [OF assms(1,2,4)] assms(3,5)
  by (simp add: sends_and_reads_back_def fresh_def duplex_ops_def duplex_write_def echoes_def)

end

end
