(* ===== verification/Rust_Words.thy ===== *)
theory Rust_Words
  imports Acl_Auth
begin

text \<open>
  White space at the ends of a text and between its words: what \<open>trim\<close> leaves, how it treats
  the space, and \<open>str::split_whitespace\<close>.
\<close>

section \<open>Trimming the space\<close>

lemma spaces:
  "'' '' \<in> set white_chars"
  "w \<in> set white_chars \<Longrightarrow> hd w = CHR '' '' \<Longrightarrow> w = '' ''"
  "w \<in> set white_chars \<Longrightarrow> last w = CHR '' '' \<Longrightarrow> w = '' ''"
proof -
  have "list_all (\<lambda>w. (hd w = CHR '' '' \<longrightarrow> w = '' '') \<and> (last w = CHR '' '' \<longrightarrow> w = '' '')) white_chars"
    by code_simp
  then show "w \<in> set white_chars \<Longrightarrow> hd w = CHR '' '' \<Longrightarrow> w = '' ''"
    "w \<in> set white_chars \<Longrightarrow> last w = CHR '' '' \<Longrightarrow> w = '' ''" by (simp_all add: list_all_iff)
  show "'' '' \<in> set white_chars" by code_simp
qed

lemma trim_with_step:
  assumes "w \<in> set ws" "w \<noteq> []" and "\<And>v. v \<in> set ws \<Longrightarrow> v \<noteq> [] \<Longrightarrow> prefix v (w @ s) \<Longrightarrow> v = w"
  shows "trim_with ws (w @ s) = trim_with ws s"
proof -
  have "List.find (\<lambda>v. v \<noteq> [] \<and> prefix v (w @ s)) ws = Some w"
  proof (cases "List.find (\<lambda>v. v \<noteq> [] \<and> prefix v (w @ s)) ws")
    case None
    with assms(1,2) show ?thesis by (auto simp: find_None_iff)
  next
    case (Some v)
    then have "v \<in> set ws" "v \<noteq> []" "prefix v (w @ s)" by (auto simp: find_Some_iff)
    with assms(3) Some show ?thesis by simp
  qed
  then show ?thesis by (subst trim_with.simps) simp
qed

lemma prefix_hd: "prefix v (c # s) \<Longrightarrow> v \<noteq> [] \<Longrightarrow> hd v = c"
  by (cases v) auto

lemma trim_start_space [simp]: "trim_start (CHR '' '' # s) = trim_start s"
proof -
  have "v = '' ''" if "v \<in> set white_chars" "v \<noteq> []" "prefix v ('' '' @ s)" for v
    using spaces(2) [OF that(1)] prefix_hd [of v "CHR '' ''" s] that(2,3) by simp
  from trim_with_step [OF spaces(1) _ this] show ?thesis by (simp only: trim_start_def append.simps) simp
qed

lemma trim_end_space [simp]: "trim_end (s @ '' '') = trim_end s"
proof -
  have mem: "'' '' \<in> set (map rev white_chars)"
    unfolding set_map by (rule image_eqI [OF _ spaces(1)]) simp
  have "v = '' ''" if "v \<in> set (map rev white_chars)" "v \<noteq> []" "prefix v ('' '' @ rev s)" for v
  proof -
    from that(1) obtain w where w: "w \<in> set white_chars" "v = rev w" unfolding set_map by blast
    with prefix_hd [of v "CHR '' ''" "rev s"] that(2,3) have "last w = CHR '' ''" by (simp add: hd_rev)
    with spaces(3) [OF w(1)] w(2) show ?thesis by simp
  qed
  from trim_with_step [OF mem _ this] have "trim_with (map rev white_chars) (rev (s @ '' '')) =
      trim_with (map rev white_chars) (rev s)" by simp
  then show ?thesis by (simp only: trim_end_def)
qed

lemma trim_start_id:
  assumes "32 < (of_char c :: nat)" "(of_char c :: nat) < 127"
  shows "trim_start (c # s) = c # s"
  unfolding trim_start_def
proof (rule trim_with_id)
  fix w assume w: "w \<in> set white_chars" "w \<noteq> []"
  show "\<not> prefix w (c # s)" using prefix_hd [OF _ w(2), of c s] white_chars_ends(2) [OF w(1)] assms by metis
qed

text \<open>Spaces around a text that begins and ends in a visible character.\<close>

lemma trim_spaces:
  assumes "s \<noteq> []"
    and "32 < (of_char (hd s) :: nat)" "(of_char (hd s) :: nat) < 127"
    and "32 < (of_char (last s) :: nat)" "(of_char (last s) :: nat) < 127"
  shows "trim (''  '' @ s @ ''  '') = s"
proof -
  have start: "trim_start (s @ t) = s @ t" for t
    using assms(1-3) trim_start_id [of "hd s" "tl s @ t"] by (cases s) simp_all
  have "trim (''  '' @ s @ ''  '') = trim_end ((s @ '' '') @ '' '')"
    using start [of "''  ''"] by (simp add: trim_def)
  also have "\<dots> = trim_end s" by (simp only: trim_end_space)
  also have "\<dots> = s" using trim_id [OF assms] start [of "[]"] by (simp add: trim_def)
  finally show ?thesis .
qed

section \<open>Words of a text\<close>

definition at_white :: "string \<Rightarrow> bool" where
  "at_white s \<longleftrightarrow> list_ex (\<lambda>w. prefix w s) white_chars"

fun take_word :: "string \<Rightarrow> string \<times> string" where
  "take_word [] = ([], [])"
| "take_word (c # cs) =
     (if at_white (c # cs) then ([], c # cs)
      else (case take_word cs of (w, rest) \<Rightarrow> (c # w, rest)))"

lemma take_word_le: "take_word s = (w, rest) \<Longrightarrow> length rest \<le> length s"
  by (induction s arbitrary: w) (auto split: if_splits prod.splits)

lemma trim_with_spec:
  "length (trim_with ws s) \<le> length s \<and> (\<forall>w \<in> set ws. w \<noteq> [] \<longrightarrow> \<not> prefix w (trim_with ws s))"
proof (induction ws s rule: trim_with.induct)
  case (1 ws s)
  show ?case
  proof (cases "List.find (\<lambda>w. w \<noteq> [] \<and> prefix w s) ws")
    case None
    then have "trim_with ws s = s" by (simp add: trim_with.simps)
    with None show ?thesis by (auto simp: find_None_iff)
  next
    case (Some w)
    with "1.IH" [OF Some] show ?thesis by (subst (1 2) trim_with.simps) (auto intro: order_trans)
  qed
qed

lemma trim_start_not_white: "trim_start s = t \<Longrightarrow> t \<noteq> [] \<Longrightarrow> \<not> at_white t"
  using trim_with_spec [of white_chars s] white_chars_ends(1)
  by (auto simp: trim_start_def at_white_def list_ex_iff)

text \<open>\<open>str::split_whitespace\<close>.\<close>

function split_whitespace :: "string \<Rightarrow> string list" where
  "split_whitespace s =
     (let t = trim_start s in
      if t = [] then [] else fst (take_word t) # split_whitespace (snd (take_word t)))"
  by pat_completeness auto
termination
proof (relation "measure length", simp)
  fix s t assume t: "t = trim_start s" "t \<noteq> []"
  from t(2) obtain c cs where c: "t = c # cs" by (cases t) auto
  have "\<not> at_white (c # cs)" using trim_start_not_white [OF t(1) [symmetric] t(2)] c by simp
  then have "length (snd (take_word t)) \<le> length cs"
    using take_word_le [of cs] by (auto simp: c split: prod.split)
  moreover have "length t \<le> length s" using trim_with_spec [of white_chars s] t by (simp add: trim_start_def)
  ultimately show "(snd (take_word t), s) \<in> measure length" using c by simp
qed

declare split_whitespace.simps [simp del]

end
