(* ===== verification/Chain_World.thy ===== *)
theory Chain_World
  imports Duplex Rust_Words
begin

text \<open>
  The servers against which \<open>src/upstream/chain.rs\<close> tests its chain: an echo server and an HTTP
  proxy that serves CONNECT, as peers of a stream in a world of addresses.  On them the chain
  of proxies can be run to its end, through any number of hops.
\<close>

section \<open>The servers\<close>

text \<open>
  What is behind a stream.  A proxy that has answered 200 is the server it has connected to
  from then on, since it copies both ways; \<open>Gone\<close> is a task that has ended.
\<close>

datatype mock_peer = Echo_Server | Mock_Http_Proxy | Gone

text \<open>\<open>nth(i)\<close> with \<open>unwrap_or\<close>.\<close>

definition nth_or :: "'a \<Rightarrow> nat \<Rightarrow> 'a list \<Rightarrow> 'a" where
  "nth_or d i xs = (if i < length xs then xs ! i else d)"

definition mock_http_proxy :: "mock_peer world \<Rightarrow> bytes \<Rightarrow> mock_peer \<times> bytes" where
  "mock_http_proxy W buf =
     (let request = utf8_lossy (take 4096 buf) in
      if prefix ''CONNECT'' request then
        (let target = nth_or [] 1 (split_whitespace request);
             parts = split_on (CHR '':'') target;
             host = parts ! 0;
             port = (if 1 < length parts
                     then (case parse_u16 (parts ! 1) of Some p \<Rightarrow> p | None \<Rightarrow> 80) else 80)
         in case W (host_port host port) of
              Some target_peer \<Rightarrow>
                (target_peer, as_bytes (''HTTP/1.1 200 Connection Established'' @ crlf @ crlf))
            | None \<Rightarrow> (Gone, as_bytes (''HTTP/1.1 502 Bad Gateway'' @ crlf @ crlf)))
      else (Gone, []))"

fun mock_react :: "mock_peer world \<Rightarrow> mock_peer reaction" where
  "mock_react W Echo_Server bs = (Echo_Server, bs)"
| "mock_react W Mock_Http_Proxy bs = mock_http_proxy W bs"
| "mock_react W Gone bs = (Gone, [])"

section \<open>A proxy and a CONNECT request\<close>

text \<open>Hosts without white space, colons or bytes outside ASCII.\<close>

definition plain_char :: "char \<Rightarrow> bool" where
  "plain_char c \<longleftrightarrow> 32 < (of_char c :: nat) \<and> (of_char c :: nat) < 127"

definition plain_host :: "string \<Rightarrow> bool" where
  "plain_host h \<longleftrightarrow> list_all plain_char h \<and> CHR '':'' \<notin> set h"

lemma plain_not_white: "plain_char c \<Longrightarrow> \<not> at_white (c # cs)"
  using white_chars_ends by (fastforce simp: at_white_def list_ex_iff plain_char_def prefix_Cons)

lemma white_space_char: "at_white (CHR '' '' # cs)"
  using bexI [of "\<lambda>w. prefix w (CHR '' '' # cs)", OF _ spaces(1)]
  by (simp add: at_white_def list_ex_iff)

lemma take_word_plain:
  "list_all plain_char w \<Longrightarrow> take_word (w @ CHR '' '' # rest) = (w, CHR '' '' # rest)"
  by (induction w) (simp_all add: white_space_char plain_not_white)

lemma trim_start_plain: "plain_char c \<Longrightarrow> trim_start (c # cs) = c # cs"
  by (simp add: plain_char_def trim_start_id)

lemma split_two_words:
  assumes "list_all plain_char v" "v \<noteq> []" "list_all plain_char w" "w \<noteq> []"
  shows "\<exists>ws. split_whitespace (v @ CHR '' '' # w @ CHR '' '' # rest) = v # w # ws"
proof -
  obtain c cs d ds where c: "v = c # cs" "plain_char c" and d: "w = d # ds" "plain_char d"
    using assms by (cases v; cases w) auto
  let ?r = "w @ CHR '' '' # rest"
  have "split_whitespace (v @ CHR '' '' # ?r) = v # split_whitespace (CHR '' '' # ?r)"
    using trim_start_plain [OF c(2)] take_word_plain [OF assms(1), of ?r] assms(2)
    by (subst split_whitespace.simps) (simp add: Let_def c(1))
  also have "split_whitespace (CHR '' '' # ?r) = w # split_whitespace (CHR '' '' # rest)"
    using trim_start_plain [OF d(2)] take_word_plain [OF assms(3), of rest] assms(4)
    by (subst split_whitespace.simps) (simp add: Let_def d(1))
  finally show ?thesis by blast
qed

lemma plain_char_digits: "list_all plain_char (show_u16 p)"
proof -
  have "plain_char (digit_char d)" if "d < 10" for d
    using that by (auto simp: plain_char_def digit_char_def of_char_of)
  then show ?thesis by (auto simp: show_u16_def list_all_iff dest!: set_dec)
qed

lemma plain_host_port: "plain_host h \<Longrightarrow> list_all plain_char (host_port h p) \<and> host_port h p \<noteq> []"
  using plain_char_digits [of p] by (simp add: plain_host_def host_port_def plain_char_def)

lemma plain_ascii: "list_all plain_char s \<Longrightarrow> is_ascii s"
  by (auto simp: is_ascii_def plain_char_def list_all_iff)

text \<open>What the proxy reads out of a CONNECT request: the host and the port it names.\<close>

lemma mock_proxy_connects:
  assumes "plain_host h" and "length (connect_request b64 auth h p) \<le> 4096"
    and "W (host_port h p) = Some q"
  shows "mock_http_proxy W (as_bytes (connect_request b64 auth h p)) =
    (q, as_bytes (''HTTP/1.1 200 Connection Established'' @ crlf @ crlf))"
proof -
  let ?hp = "host_port h p"
  let ?rest = "''HTTP/1.1'' @ crlf @ ''Host: '' @ h @ '':'' @ show_u16 p @ crlf @ auth_header b64 auth @ crlf"
  have req: "connect_request b64 auth h p = (''CONNECT'' @ CHR '' '' # ?hp @ '' '') @ ?rest"
    by (simp add: connect_request_def host_port_def)
  have "is_ascii (''CONNECT'' @ CHR '' '' # ?hp @ '' '')"
    using plain_host_port [OF assms(1), of p] by (simp add: plain_ascii)
  then have lossy: "utf8_lossy (as_bytes (connect_request b64 auth h p)) =
      ''CONNECT'' @ CHR '' '' # ?hp @ CHR '' '' # utf8_lossy (as_bytes ?rest)"
    unfolding req as_bytes_append [of _ ?rest] by (subst utf8_lossy_ascii) simp_all
  have "list_all plain_char ''CONNECT''" by (simp add: plain_char_def)
  with split_two_words [of "''CONNECT''" ?hp "utf8_lossy (as_bytes ?rest)"] plain_host_port [OF assms(1), of p]
  obtain ws where "split_whitespace (utf8_lossy (as_bytes (connect_request b64 auth h p))) = ''CONNECT'' # ?hp # ws"
    unfolding lossy by auto
  then have t: "nth_or [] (Suc 0) (split_whitespace (utf8_lossy (as_bytes (connect_request b64 auth h p)))) = ?hp"
    by (simp add: nth_or_def)
  have parts: "split_on (CHR '':'') ?hp = [h, show_u16 p]"
    using assms(1) by (simp add: plain_host_def host_port_def split_on_append split_on_none colon_not_in_show_u16)
  have "take 4096 (as_bytes (connect_request b64 auth h p)) = as_bytes (connect_request b64 auth h p)"
    using assms(2) by simp
  moreover have "prefix ''CONNECT'' (utf8_lossy (as_bytes (connect_request b64 auth h p)))"
    unfolding lossy by simp
  ultimately show ?thesis
    using assms(3) by (simp add: mock_http_proxy_def t parts parse_show_u16 Let_def)
qed

section \<open>Any number of proxies\<close>

text \<open>The proxy serves a hop with a plain host whose request fits into one read.\<close>

fun mock_serves :: "(bytes \<Rightarrow> string) \<Rightarrow> upstream_config \<Rightarrow> mock_peer \<Rightarrow> string \<Rightarrow> u16 \<Rightarrow> bool" where
  "mock_serves b64 (Http addr auth tls) Mock_Http_Proxy host port \<longleftrightarrow>
     plain_host host \<and> length (connect_request b64 auth host port) \<le> 4096"
| "mock_serves b64 _ _ host port \<longleftrightarrow> False"

lemma http_exchange_mock:
  assumes "plain_host h" "length (connect_request b64 auth h p) \<le> 4096" "W (host_port h p) = Some q"
  shows "http_exchange (duplex_ops (mock_react W)) b64 auth (Address h p) (fresh Mock_Http_Proxy) = (Inr (), fresh q)"
proof -
  let ?reply = "as_bytes (''HTTP/1.1 200 Connection Established'' @ crlf @ crlf)"
  have "length ?reply \<le> 4096" "status_ok (utf8_lossy ?reply)"
    by (simp_all add: crlf_def status_ok_bytes as_bytes_def)
  moreover have "mock_react W Mock_Http_Proxy (as_bytes (connect_request b64 auth h p)) = (q, ?reply)"
    using mock_proxy_connects [of h b64 auth p W q] assms by simp
  ultimately show ?thesis
    by (simp add: http_exchange_def fresh_def io_write_duplex io_read_duplex bind_io_def Let_def ret_def
        del: as_bytes_append)
qed

interpretation mock: relay_world "mock_react W" W b64 "mock_serves b64" for W b64
proof
  fix config p host port q
  assume "mock_serves b64 config p host port" "W (host_port host port) = Some q"
  then show "perform_proxy_handshake (duplex_ops (mock_react W)) b64 config (Address host port) (fresh p) =
      (Inr (), fresh q)"
    by (cases "(b64, config, p, host, port)" rule: mock_serves.cases)
      (auto simp: handshake_copies http_exchange_mock)
qed

text \<open>
  In a world of the proxies and the echo server of the repository's tests, a chain of any
  number of HTTP proxies, each with or without credentials and a \<open>tls\<close> setting, followed by a
  direct hop or not, connects to the target, and what is written comes back.
\<close>

lemma chain_reaches_target:
  assumes "route_works W (mock_serves b64) hops host port" and "W (host_port host port) = Some Echo_Server"
    and "hops \<noteq> [] \<and> tail = [] \<or> tail = [Direct]" and "length message \<le> 4096"
  shows "sends_and_reads_back (mock_react W) W b64 (hop_configs hops @ tail) (Address host port) message"
  using assms by (intro mock.chain_echoes) (auto simp: echoes_def)

section \<open>The tests of the chain\<close>

text \<open>
  The tests listen on ports of the local host that the system chooses, so each is a statement
  about all ports that are different.
\<close>

definition localhost :: string where
  "localhost = ''127.0.0.1''"

definition start_servers :: "(u16 \<times> mock_peer) list \<Rightarrow> mock_peer world" where
  "start_servers servers = map_of (map (\<lambda>(port, p). (host_port localhost port, p)) servers)"

definition test_http_hop :: "u16 \<Rightarrow> upstream_config" where
  "test_http_hop port = Http (host_port localhost port) None None"

definition test_chain_connector_empty_chain_fails :: "u16 \<Rightarrow> bool" where
  "test_chain_connector_empty_chain_fails echo_port =
     (let W = start_servers [(echo_port, Echo_Server)] in
      case fst (chain_connect (duplex_network W) (duplex_ops (mock_react W)) ref_encode [] (Address localhost echo_port) ()) of
        Inl e \<Rightarrow> sublist ''Empty chain'' (display_error e)
      | Inr stream \<Rightarrow> False)"

definition test_chain_connector_single_direct_hop :: "u16 \<Rightarrow> bool" where
  "test_chain_connector_single_direct_hop echo_port =
     (let W = start_servers [(echo_port, Echo_Server)] in
      sends_and_reads_back (mock_react W) W ref_encode [Direct]
       (Address localhost echo_port) (as_bytes ''Hello via chain (direct)!''))"

definition test_chain_connector_two_hop_http_to_direct :: "u16 \<Rightarrow> u16 \<Rightarrow> bool" where
  "test_chain_connector_two_hop_http_to_direct echo_port http_proxy_port =
     (let W = start_servers [(echo_port, Echo_Server), (http_proxy_port, Mock_Http_Proxy)] in
      sends_and_reads_back (mock_react W) W ref_encode [test_http_hop http_proxy_port, Direct]
       (Address localhost echo_port) (as_bytes ''Hello via two-hop chain!''))"

definition test_chain_connector_three_hop :: "u16 \<Rightarrow> u16 \<Rightarrow> u16 \<Rightarrow> bool" where
  "test_chain_connector_three_hop echo_port http_proxy1_port http_proxy2_port =
     (let W = start_servers [(echo_port, Echo_Server), (http_proxy1_port, Mock_Http_Proxy),
                             (http_proxy2_port, Mock_Http_Proxy)] in
      sends_and_reads_back (mock_react W) W ref_encode [test_http_hop http_proxy1_port, test_http_hop http_proxy2_port, Direct]
       (Address localhost echo_port) (as_bytes ''Hello via three-hop chain!''))"

lemma length_dec: "n < 10 ^ Suc k \<Longrightarrow> length (dec n) \<le> Suc k"
proof (induction k arbitrary: n)
  case 0
  then show ?case by (simp add: dec.simps)
next
  case (Suc k)
  then have "n div 10 < 10 ^ Suc k" by (simp add: less_mult_imp_div_less mult.commute)
  with Suc.IH show ?case by (subst dec.simps) simp
qed

lemma length_show_u16: "length (show_u16 p) \<le> 5"
proof -
  have "unat p < 2 ^ 16" using unsigned_less [of p] by simp
  then show ?thesis using length_dec [of "unat p" 4] by (simp add: show_u16_def)
qed

lemma localhost_request:
  "plain_host localhost \<and>
   (length (auth_header b64 auth) \<le> 4000 \<longrightarrow> length (connect_request b64 auth localhost p) \<le> 4096)"
  using length_show_u16 [of p]
  by (simp add: localhost_def plain_host_def plain_char_def connect_request_def crlf_def)

lemma auth_header_lengths: "length (auth_header b64 None) \<le> 4000" "length (auth_header ref_encode (Some alice)) \<le> 4000"
  by (simp add: auth_header_def) code_simp

text \<open>A test through hops on the local host, as an instance of the lemma above.\<close>

lemma local_route:
  assumes "W (host_port localhost e) = Some Echo_Server" "route_works W (mock_serves ref_encode) hops localhost e"
    and "length message \<le> 4096"
  shows "sends_and_reads_back (mock_react W) W ref_encode (hop_configs hops @ [Direct]) (Address localhost e) message"
  using assms by (intro mock.chain_echoes [where q = Echo_Server]) (simp_all add: echoes_def)

lemma chain_tests_pass:
  "test_chain_connector_empty_chain_fails e"
  "test_chain_connector_single_direct_hop e"
  "e \<noteq> p \<Longrightarrow> test_chain_connector_two_hop_http_to_direct e p"
  "e \<noteq> p \<Longrightarrow> e \<noteq> q \<Longrightarrow> p \<noteq> q \<Longrightarrow> test_chain_connector_three_hop e p q"
proof -
  note test_simps = start_servers_def as_bytes_def host_port_inject localhost_request auth_header_lengths
    test_http_hop_def Let_def
  show "test_chain_connector_empty_chain_fails e"
    by (simp add: test_chain_connector_empty_chain_fails_def chain_connect_def Let_def)
      (auto simp: sublist_def intro: exI [of _ "''Upstream error: ''"])
  show "test_chain_connector_single_direct_hop e"
    using local_route [where hops = "[]"] by (simp add: test_chain_connector_single_direct_hop_def test_simps)
  show "test_chain_connector_two_hop_http_to_direct e p" if "e \<noteq> p"
    using that local_route [where hops = "[(localhost, p, test_http_hop p)]"]
    by (simp add: test_chain_connector_two_hop_http_to_direct_def test_simps)
  show "test_chain_connector_three_hop e p q" if "e \<noteq> p" "e \<noteq> q" "p \<noteq> q"
    using that local_route [where hops = "[(localhost, p, test_http_hop p), (localhost, q, test_http_hop q)]"]
    by (simp add: test_chain_connector_three_hop_def test_simps)
qed

lemma chain_reaches_target_witness:
  "\<exists>W. W = start_servers [(9, Echo_Server), (1, Mock_Http_Proxy), (2, Mock_Http_Proxy)] \<and>
     sends_and_reads_back (mock_react W) W ref_encode
       [Http (host_port localhost 1) (Some alice) None, Http (host_port localhost 2) None (Some True), Direct]
       (Address localhost 9) (as_bytes ''hello'')"
  using chain_reaches_target [of "start_servers [(9, Echo_Server), (1, Mock_Http_Proxy), (2, Mock_Http_Proxy)]" ref_encode
    "[(localhost, 1, Http (host_port localhost 1) (Some alice) None), (localhost, 2, Http (host_port localhost 2) None (Some True))]"
    localhost 9 "[Direct]" "as_bytes ''hello''"]
  by (simp add: start_servers_def as_bytes_def host_port_inject localhost_request auth_header_lengths)

end
