(* ===== verification/Detect.thy ===== *)
theory Detect
  imports Rust_Text
begin

text \<open>
  \<open>src/protocol/detect.rs\<close>: which protocol a connection speaks, from its first bytes.
\<close>

datatype detected_protocol = Detected_Http | Detected_Socks5 | Detected_Unknown

definition http_methods_wire :: "bytes list" where
  "http_methods_wire = map as_bytes
     [''GET '', ''POST '', ''PUT '', ''DELETE '', ''HEAD '', ''OPTIONS '', ''PATCH '', ''CONNECT '', ''TRACE '']"

text \<open>The loop over the methods, with its two tests.\<close>

fun method_loop :: "bytes list \<Rightarrow> bytes \<Rightarrow> bool" where
  "method_loop [] buf = False"
| "method_loop (meth # rest) buf =
     (if length meth \<le> length buf \<and> take (length meth) buf = meth then True
      else if length buf < length meth \<and> prefix buf meth then True
      else method_loop rest buf)"

definition is_http_method_prefix :: "bytes \<Rightarrow> bool" where
  "is_http_method_prefix buf = method_loop http_methods_wire buf"

definition detect_protocol :: "bytes \<Rightarrow> detected_protocol" where
  "detect_protocol buf =
     (if buf = [] then Detected_Unknown
      else if buf ! 0 = 0x05 then Detected_Socks5
      else if is_http_method_prefix buf then Detected_Http
      else Detected_Unknown)"

section \<open>Facts\<close>

lemma method_loop_iff: "method_loop ms buf \<longleftrightarrow> (\<exists>m \<in> set ms. prefix m buf \<or> strict_prefix buf m)"
proof (induction ms)
  case Nil
  then show ?case by simp
next
  case (Cons m ms)
  have "(length m \<le> length buf \<and> take (length m) buf = m) \<longleftrightarrow> prefix m buf"
    by (metis append_eq_conv_conj prefix_def prefix_length_le take_is_prefix)
  moreover have "(length buf < length m \<and> prefix buf m) \<longleftrightarrow> strict_prefix buf m"
    by (auto simp: strict_prefix_def prefix_def)
  ultimately show ?case using Cons by auto
qed

lemma http_methods_length: "m \<in> set http_methods_wire \<Longrightarrow> m \<noteq> [] \<and> length m \<le> 8"
  by (auto simp: http_methods_wire_def as_bytes_def)

text \<open>No method starts with the version byte of SOCKS5.\<close>

lemma http_methods_not_socks: "m \<in> set http_methods_wire \<Longrightarrow> hd m \<noteq> 0x05"
  by (auto simp: http_methods_wire_def as_bytes_def)

lemma is_http_method_prefix_iff:
  "is_http_method_prefix buf \<longleftrightarrow> (\<exists>m \<in> set http_methods_wire. prefix m buf \<or> strict_prefix buf m)"
  by (simp add: is_http_method_prefix_def method_loop_iff)

lemma prefix_take: "length p \<le> n \<Longrightarrow> prefix p (take n xs) \<longleftrightarrow> prefix p xs"
  by (auto simp: prefix_def append_eq_conv_conj min_def) (metis append_eq_conv_conj take_take min_def)

text \<open>Eight bytes decide.\<close>

lemma is_http_take8: "8 \<le> length bs \<Longrightarrow> is_http_method_prefix (take 8 bs) = is_http_method_prefix bs"
proof -
  assume l: "8 \<le> length bs"
  have "(prefix m (take 8 bs) \<or> strict_prefix (take 8 bs) m) = (prefix m bs \<or> strict_prefix bs m)"
    if "m \<in> set http_methods_wire" for m
  proof -
    have "length m \<le> 8" using http_methods_length [OF that] by simp
    then have "\<not> strict_prefix (take 8 bs) m" "\<not> strict_prefix bs m"
      using l by (auto dest!: prefix_length_less)
    with \<open>length m \<le> 8\<close> show ?thesis by (simp add: prefix_take)
  qed
  then show ?thesis by (auto simp: is_http_method_prefix_iff)
qed

lemma detect_take8: "8 \<le> length bs \<Longrightarrow> detect_protocol (take 8 bs) = detect_protocol bs"
  using is_http_take8 [of bs] by (auto simp: detect_protocol_def)

end
