(* ===== verification/Proxy_Stream.thy ===== *)
theory Proxy_Stream
  imports Scripted_Stream
begin

text \<open>
  \<open>ProxyStream\<close> of \<open>src/server.rs\<close> and its implementations of \<open>AsyncRead\<close> and \<open>AsyncWrite\<close>:
  a stream that is either plain or behind TLS, and hands every poll to the stream inside.
  A poll is an operation of the inner stream that is ready with a result, or pending; the
  task context it registers is the scheduler's and has no value here.
\<close>

datatype ('p, 't) proxy_stream = Plain 'p | Tls 't

datatype 'a poll = Pending | Ready 'a

text \<open>
  \<open>poll_read\<close> appends to a buffer with room for \<open>n\<close> more bytes, so its result is what it
  appends; \<open>poll_write\<close> says how many of the bytes it took.
\<close>

record 's poll_ops =
  poll_read :: "nat \<Rightarrow> 's \<Rightarrow> (string + bytes) poll \<times> 's"
  poll_write :: "bytes \<Rightarrow> 's \<Rightarrow> (string + nat) poll \<times> 's"
  poll_flush :: "'s \<Rightarrow> (string + unit) poll \<times> 's"
  poll_shutdown :: "'s \<Rightarrow> (string + unit) poll \<times> 's"

fun proxy_poll_read ::
  "'p poll_ops \<Rightarrow> 't poll_ops \<Rightarrow> nat \<Rightarrow> ('p, 't) proxy_stream
   \<Rightarrow> (string + bytes) poll \<times> ('p, 't) proxy_stream"
where
  "proxy_poll_read P T n (Plain stream) = apsnd Plain (poll_read P n stream)"
| "proxy_poll_read P T n (Tls stream) = apsnd Tls (poll_read T n stream)"

fun proxy_poll_write ::
  "'p poll_ops \<Rightarrow> 't poll_ops \<Rightarrow> bytes \<Rightarrow> ('p, 't) proxy_stream
   \<Rightarrow> (string + nat) poll \<times> ('p, 't) proxy_stream"
where
  "proxy_poll_write P T buf (Plain stream) = apsnd Plain (poll_write P buf stream)"
| "proxy_poll_write P T buf (Tls stream) = apsnd Tls (poll_write T buf stream)"

fun proxy_poll_flush ::
  "'p poll_ops \<Rightarrow> 't poll_ops \<Rightarrow> ('p, 't) proxy_stream
   \<Rightarrow> (string + unit) poll \<times> ('p, 't) proxy_stream"
where
  "proxy_poll_flush P T (Plain stream) = apsnd Plain (poll_flush P stream)"
| "proxy_poll_flush P T (Tls stream) = apsnd Tls (poll_flush T stream)"

fun proxy_poll_shutdown ::
  "'p poll_ops \<Rightarrow> 't poll_ops \<Rightarrow> ('p, 't) proxy_stream
   \<Rightarrow> (string + unit) poll \<times> ('p, 't) proxy_stream"
where
  "proxy_poll_shutdown P T (Plain stream) = apsnd Plain (poll_shutdown P stream)"
| "proxy_poll_shutdown P T (Tls stream) = apsnd Tls (poll_shutdown T stream)"

definition proxy_poll_ops :: "'p poll_ops \<Rightarrow> 't poll_ops \<Rightarrow> ('p, 't) proxy_stream poll_ops" where
  "proxy_poll_ops P T =
     \<lparr>poll_read = proxy_poll_read P T, poll_write = proxy_poll_write P T,
      poll_flush = proxy_poll_flush P T, poll_shutdown = proxy_poll_shutdown P T\<rparr>"

section \<open>The contract of polling\<close>

text \<open>
  What tokio documents of the two traits, over the same two views as \<open>byte_stream\<close>: a
  pending or failed poll has moved no bytes, a ready read has taken the next bytes and no
  more than there is room for, a ready write has sent a beginning of what it was given.
\<close>

locale poll_stream =
  fixes P :: "'s poll_ops"
    and pending :: "'s \<Rightarrow> bytes"
    and sent :: "'s \<Rightarrow> bytes"
  assumes poll_read_law: "poll_read P n s = (r, s') \<Longrightarrow>
      sent s' = sent s \<and>
      (\<forall>bs. r = Ready (Inr bs) \<longrightarrow> length bs \<le> n \<and> pending s = bs @ pending s') \<and>
      (r = Pending \<longrightarrow> pending s' = pending s)"
    and poll_write_law: "poll_write P buf s = (w, s') \<Longrightarrow>
      pending s' = pending s \<and>
      (case w of Ready (Inr k) \<Rightarrow> k \<le> length buf \<and> sent s' = sent s @ take k buf
       | _ \<Rightarrow> sent s' = sent s)"
    and poll_flush_law: "poll_flush P s = (f, s') \<Longrightarrow> pending s' = pending s \<and> sent s' = sent s"
    and poll_shutdown_law: "poll_shutdown P s = (f, s') \<Longrightarrow> pending s' = pending s \<and> sent s' = sent s"
begin

text \<open>
  Writing a buffer by polling \<open>k\<close> times, as \<open>write_all\<close> does: what is left to write, and the
  stream.  However the polls split the buffer, its bytes are sent once and in order.
\<close>

fun write_polls :: "nat \<Rightarrow> bytes \<Rightarrow> 's \<Rightarrow> bytes \<times> 's" where
  "write_polls 0 buf s = (buf, s)"
| "write_polls (Suc k) buf s =
     (if buf = [] then ([], s)
      else
        (case poll_write P buf s of
           (Ready (Inr n), s') \<Rightarrow> write_polls k (drop n buf) s'
         | (Ready (Inl e), s') \<Rightarrow> (buf, s')
         | (Pending, s') \<Rightarrow> write_polls k buf s'))"

lemma write_polls_sent:
  "write_polls k buf s = (rest, s') \<Longrightarrow>
     pending s' = pending s \<and> (\<exists>done. buf = done @ rest \<and> sent s' = sent s @ done)"
proof (induction k buf s rule: write_polls.induct)
  case (1 buf s)
  then show ?case by simp
next
  case (2 k buf s)
  obtain w s1 where w: "poll_write P buf s = (w, s1)" by force
  note law = poll_write_law [OF w]
  show ?case
  proof (cases "buf = []")
    case True
    with "2.prems" show ?thesis by simp
  next
    case False
    show ?thesis
    proof (cases w)
      case Pending
      with False w "2.prems" have "write_polls k buf s1 = (rest, s')" by simp
      with "2.IH"(1) [OF False w [symmetric] Pending] law Pending show ?thesis by simp
    next
      case (Ready r)
      show ?thesis
      proof (cases r)
        case (Inl e)
        with False w Ready "2.prems" law show ?thesis by simp
      next
        case (Inr n)
        with False w Ready "2.prems" have "write_polls k (drop n buf) s1 = (rest, s')" by simp
        from "2.IH"(2) [OF False w [symmetric] Ready Inr this] obtain d where
          d: "pending s' = pending s1" "drop n buf = d @ rest" "sent s' = sent s1 @ d" by blast
        have "buf = (take n buf @ d) @ rest" using d(2) by (metis append_assoc append_take_drop_id)
        with law Ready Inr d show ?thesis by (intro conjI exI [of _ "take n buf @ d"]) auto
      qed
    qed
  qed
qed

end

text \<open>Both streams of a \<open>ProxyStream\<close> keep the contract; then so does the \<open>ProxyStream\<close>.\<close>

fun proxy_view :: "('p \<Rightarrow> 'a) \<Rightarrow> ('t \<Rightarrow> 'a) \<Rightarrow> ('p, 't) proxy_stream \<Rightarrow> 'a" where
  "proxy_view f g (Plain stream) = f stream"
| "proxy_view f g (Tls stream) = g stream"

locale proxy_pair =
  plain: poll_stream P pp ps + tls: poll_stream T tp ts
  for P :: "'p poll_ops" and pp ps and T :: "'t poll_ops" and tp ts

sublocale proxy_pair \<subseteq> proxy: poll_stream "proxy_poll_ops P T" "proxy_view pp tp" "proxy_view ps ts"
proof
  fix n buf s s' and r :: "(string + bytes) poll" and w :: "(string + nat) poll"
    and f :: "(string + unit) poll"
  show "proxy_view ps ts s' = proxy_view ps ts s \<and>
      (\<forall>bs. r = Ready (Inr bs) \<longrightarrow> length bs \<le> n \<and> proxy_view pp tp s = bs @ proxy_view pp tp s') \<and>
      (r = Pending \<longrightarrow> proxy_view pp tp s' = proxy_view pp tp s)"
    if "poll_read (proxy_poll_ops P T) n s = (r, s')"
    using that by (cases s) (auto simp: proxy_poll_ops_def apsnd_def map_prod_def
        split: prod.splits dest: plain.poll_read_law tls.poll_read_law)
  show "proxy_view pp tp s' = proxy_view pp tp s \<and>
      (case w of Ready (Inr k) \<Rightarrow> k \<le> length buf \<and> proxy_view ps ts s' = proxy_view ps ts s @ take k buf
       | _ \<Rightarrow> proxy_view ps ts s' = proxy_view ps ts s)"
    if "poll_write (proxy_poll_ops P T) buf s = (w, s')"
    using that by (cases s) (auto simp: proxy_poll_ops_def apsnd_def map_prod_def
        split: prod.splits poll.splits sum.splits dest!: plain.poll_write_law tls.poll_write_law)
  show "proxy_view pp tp s' = proxy_view pp tp s \<and> proxy_view ps ts s' = proxy_view ps ts s"
    if "poll_flush (proxy_poll_ops P T) s = (f, s')"
    using that by (cases s) (auto simp: proxy_poll_ops_def apsnd_def map_prod_def
        split: prod.splits dest: plain.poll_flush_law tls.poll_flush_law)
  show "proxy_view pp tp s' = proxy_view pp tp s \<and> proxy_view ps ts s' = proxy_view ps ts s"
    if "poll_shutdown (proxy_poll_ops P T) s = (f, s')"
    using that by (cases s) (auto simp: proxy_poll_ops_def apsnd_def map_prod_def
        split: prod.splits dest: plain.poll_shutdown_law tls.poll_shutdown_law)
qed

section \<open>On scripted connections\<close>

text \<open>
  The polls of a scripted connection: a silence of the peer is a pending poll.
\<close>

fun script_poll :: "nat \<Rightarrow> rx list \<Rightarrow> nat \<Rightarrow> (string + bytes) poll \<times> rx list \<times> nat" where
  "script_poll n (Wait d # evs) w = (Pending, evs, w + d)"
| "script_poll n (Fault e # evs) w = (Ready (Inl e), evs, w)"
| "script_poll n evs w = (let (bs, rest) = take_bytes n evs in (Ready (Inr bs), rest, w))"

definition conn_poll_read :: "nat \<Rightarrow> conn \<Rightarrow> (string + bytes) poll \<times> conn" where
  "conn_poll_read n c =
     (case script_poll n (rx_script c) (wait_time c) of
        (r, evs, w) \<Rightarrow> (r, c\<lparr>rx_script := evs, wait_time := w\<rparr>))"

definition conn_poll_write :: "bytes \<Rightarrow> conn \<Rightarrow> (string + nat) poll \<times> conn" where
  "conn_poll_write buf c =
     (case tx_limit c of
        None \<Rightarrow> (Ready (Inr (length buf)), c\<lparr>tx_bytes := tx_bytes c @ buf\<rparr>)
      | Some 0 \<Rightarrow> (Ready (Inl ''Broken pipe''), c)
      | Some k \<Rightarrow>
          (Ready (Inr (min k (length buf))),
           c\<lparr>tx_bytes := tx_bytes c @ take k buf, tx_limit := Some (k - length buf)\<rparr>))"

definition conn_poll_ops :: "conn poll_ops" where
  "conn_poll_ops =
     \<lparr>poll_read = conn_poll_read, poll_write = conn_poll_write,
      poll_flush = (\<lambda>c. (Ready (Inr ()), c)), poll_shutdown = (\<lambda>c. (Ready (Inr ()), c))\<rparr>"

lemma script_poll_law:
  "script_poll n evs w = (r, evs', w') \<Longrightarrow>
     (\<forall>bs. r = Ready (Inr bs) \<longrightarrow> length bs \<le> n \<and> script_bytes evs = bs @ script_bytes evs') \<and>
     (r = Pending \<longrightarrow> script_bytes evs' = script_bytes evs)"
  by (induction n evs w rule: script_poll.induct)
    (auto simp: Let_def dest: take_bytes_ok split: prod.splits)

interpretation cp: poll_stream conn_poll_ops conn_pending tx_bytes
proof
  fix n buf s s' and r :: "(string + bytes) poll" and w :: "(string + nat) poll"
    and f :: "(string + unit) poll"
  show "tx_bytes s' = tx_bytes s \<and>
      (\<forall>bs. r = Ready (Inr bs) \<longrightarrow> length bs \<le> n \<and> conn_pending s = bs @ conn_pending s') \<and>
      (r = Pending \<longrightarrow> conn_pending s' = conn_pending s)"
    if "poll_read conn_poll_ops n s = (r, s')"
    using that by (auto simp: conn_poll_ops_def conn_poll_read_def conn_pending_def
        split: prod.splits dest: script_poll_law)
  show "conn_pending s' = conn_pending s \<and>
      (case w of Ready (Inr k) \<Rightarrow> k \<le> length buf \<and> tx_bytes s' = tx_bytes s @ take k buf
       | _ \<Rightarrow> tx_bytes s' = tx_bytes s)"
    if "poll_write conn_poll_ops buf s = (w, s')"
    using that by (auto simp: conn_poll_ops_def conn_poll_write_def conn_pending_def min_def
        split: option.splits nat.splits if_splits)
qed (simp_all add: conn_poll_ops_def)

interpretation pp: proxy_pair conn_poll_ops conn_pending tx_bytes conn_poll_ops conn_pending tx_bytes
  by unfold_locales

end
