(* ===== verification/Http_Handler.thy ===== *)
theory Http_Handler
  imports Upstream_Base Acl_Auth Socks_Session
begin

text \<open>
  \<open>src/protocol/http_handler.rs\<close>: the HTTP side.  hyper parses requests and serializes
  responses, so a request here is what hyper hands to the service: the parts of its URI, its
  headers (names in lower case) in order, and its body.  The hyper client is the record
  \<open>http_client\<close>: its handshake on a stream, and sending one request and collecting the answer.
\<close>

record http_request =
  req_method :: string
  uri_authority :: "string option"
  uri_host :: "string option"
  uri_port :: "u16 option"
  uri_path_and_query :: "string option"
  req_version :: string
  req_headers :: "(string \<times> bytes) list"
  req_body :: bytes

record http_response =
  resp_status :: nat
  resp_headers :: "(string \<times> bytes) list"
  resp_body :: bytes

record 's http_client =
  client_handshake :: "'s \<Rightarrow> string + 's"
  send_request :: "http_request \<Rightarrow> 's \<Rightarrow> string + http_response"

definition plain_response :: "nat \<Rightarrow> string \<Rightarrow> http_response" where
  "plain_response status body =
     \<lparr>resp_status = status, resp_headers = [], resp_body = as_bytes body\<rparr>"

section \<open>Forwarding\<close>

definition hop_by_hop_headers :: "string list" where
  "hop_by_hop_headers =
     [''proxy-authorization'', ''proxy-connection'', ''proxy-authenticate'', ''te'', ''trailer'',
      ''transfer-encoding'', ''upgrade'', ''keep-alive'', ''connection'']"

definition is_hop_by_hop :: "(string \<Rightarrow> string) \<Rightarrow> string \<Rightarrow> bool" where
  "is_hop_by_hop to_lowercase header \<longleftrightarrow> to_lowercase header \<in> set hop_by_hop_headers"

text \<open>The loop over the headers, with the builder's list as accumulator.\<close>

fun copy_headers ::
  "(string \<Rightarrow> string) \<Rightarrow> (string \<times> bytes) list \<Rightarrow> (string \<times> bytes) list \<Rightarrow> (string \<times> bytes) list"
where
  "copy_headers to_lowercase [] acc = acc"
| "copy_headers to_lowercase ((k, v) # hs) acc =
     (if \<not> is_hop_by_hop to_lowercase k then copy_headers to_lowercase hs (acc @ [(k, v)])
      else copy_headers to_lowercase hs acc)"

definition forward_request ::
  "(string \<Rightarrow> string) \<Rightarrow> http_request \<Rightarrow> string \<Rightarrow> u16 \<Rightarrow> http_request"
where
  "forward_request to_lowercase req host port =
     (let headers = copy_headers to_lowercase (req_headers req) [];
          headers = (if \<not> list_ex (\<lambda>(k, v). k = ''host'') (req_headers req)
                     then headers @ [(''host'', as_bytes (host_port host port))] else headers)
      in \<lparr>req_method = req_method req, uri_authority = None, uri_host = None, uri_port = None,
          uri_path_and_query = Some (case uri_path_and_query req of Some pq \<Rightarrow> pq | None \<Rightarrow> ''/''),
          req_version = req_version req, req_headers = headers, req_body = req_body req\<rparr>)"

text \<open>The error of the service is hyper's, as its text.\<close>

definition proxy_request ::
  "('n, 't) network \<Rightarrow> 't http_client \<Rightarrow> (string \<Rightarrow> string) \<Rightarrow> http_request
   \<Rightarrow> ('n, string, http_response) io"
where
  "proxy_request N C to_lowercase req =
     (case uri_host req of
        None \<Rightarrow> ret (plain_response 400 ''Missing host in request URI'')
      | Some host \<Rightarrow>
          (let port = (case uri_port req of Some p \<Rightarrow> p | None \<Rightarrow> 80) in
           match_io (direct_connect N (Address host port))
             (\<lambda>e. ret (plain_response 502 (''Failed to connect to upstream: '' @ display_error e)))
             (\<lambda>target_stream.
                bind_io (lift_sum (client_handshake C target_stream)) (\<lambda>sender.
                lift_sum (send_request C (forward_request to_lowercase req host port) sender)))))"

section \<open>CONNECT\<close>

definition parse_host_port :: "string \<Rightarrow> (string \<times> u16) option" where
  "parse_host_port authority =
     (case rfind_char (CHR '':'') authority of
        Some colon_pos \<Rightarrow>
          (let host = take colon_pos authority in
           case parse_u16 (drop (colon_pos + 1) authority) of
             None \<Rightarrow> None
           | Some port \<Rightarrow> Some (host, port))
      | None \<Rightarrow> None)"

definition connect_destination :: "http_request \<Rightarrow> string \<times> u16" where
  "connect_destination req =
     (let target = (case uri_authority req of Some a \<Rightarrow> a | None \<Rightarrow> []) in
      case parse_host_port target of Some hp \<Rightarrow> hp | None \<Rightarrow> (target, 443))"

text \<open>
  The task that runs after the response: \<open>upgraded\<close> is the outcome of \<open>hyper::upgrade::on\<close>, the
  session's client is the upgraded stream.
\<close>

definition connect_tunnel ::
  "('n, 't) network \<Rightarrow> ('s, 't, 'n) session_ops \<Rightarrow> bool \<Rightarrow> string \<times> u16 \<Rightarrow> ('s, 't, 'n, unit) session_io"
where
  "connect_tunnel N X upgraded dest =
     (if upgraded then
        (case dest of (host, port) \<Rightarrow>
           match_io (on_net (direct_connect N (Address host port)))
             (\<lambda>e. ret ())
             (\<lambda>target_stream. tunnel_copy X target_stream))
      else ret ())"

text \<open>The response, and the destination of the task that is spawned.\<close>

definition handle_http_connect :: "http_request \<Rightarrow> http_response \<times> (string \<times> u16)" where
  "handle_http_connect req = (plain_response 200 [], connect_destination req)"

section \<open>The service\<close>

text \<open>
  The closure both \<open>handle_http\<close> and \<open>handle_http_generic\<close> give to hyper: the response, and the
  tunnel to run after it, if any.
\<close>

definition http_service ::
  "('n, 't) network \<Rightarrow> 't http_client \<Rightarrow> (string \<Rightarrow> string) \<Rightarrow> http_request
   \<Rightarrow> ('n, string, http_response \<times> (string \<times> u16) option) io"
where
  "http_service N C to_lowercase req =
     (if req_method req = ''CONNECT'' then
        (case handle_http_connect req of (resp, dest) \<Rightarrow> ret (resp, Some dest))
      else bind_io (proxy_request N C to_lowercase req) (\<lambda>resp. ret (resp, None)))"

text \<open>The error of a connection is logged unless its text contains \<open>connection closed\<close>.\<close>

definition log_connection_error :: "string \<Rightarrow> string option" where
  "log_connection_error e =
     (if sublist ''connection closed'' e then None else Some (''HTTP connection error: '' @ e))"

text \<open>
  hyper's \<open>http1\<close> server, \<open>serve_connection(io, service).with_upgrades()\<close>, is the argument
  \<open>serve\<close>: it gets the options of the builder, the service and the session, and returns the
  outcome of the connection, the session, and what a request has left behind: the tunnel task
  that the service has spawned, with the outcome of its upgrade and its destination.  The task
  waits for the upgrade, which is when the connection is over; it is not part of it.
\<close>

record http1_options =
  preserve_header_case :: bool
  title_case_headers :: bool
  with_upgrades :: bool

type_synonym http_answer = "http_response \<times> (string \<times> u16) option"

type_synonym tunnel_task = "bool \<times> (string \<times> u16)"

type_synonym ('s, 't, 'n) serve_connection =
  "http1_options \<Rightarrow> (http_request \<Rightarrow> ('n, string, http_answer) io)
   \<Rightarrow> ('s, 't, 'n) session \<Rightarrow> (string + unit) \<times> ('s, 't, 'n) session \<times> tunnel_task option"

text \<open>What is logged, if anything, the session after the connection, and the task left behind.\<close>

definition handle_http ::
  "('s, 't, 'n) serve_connection \<Rightarrow> ('n, 't) network \<Rightarrow> 't http_client \<Rightarrow> (string \<Rightarrow> string)
   \<Rightarrow> ('s, 't, 'n) session \<Rightarrow> string option \<times> ('s, 't, 'n) session \<times> tunnel_task option"
where
  "handle_http serve N C to_lowercase w =
     (case serve \<lparr>preserve_header_case = True, title_case_headers = True, with_upgrades = True\<rparr>
         (http_service N C to_lowercase) w of
        (Inl e, w', spawned) \<Rightarrow> (log_connection_error e, w', spawned)
      | (Inr _, w', spawned) \<Rightarrow> (None, w', spawned))"

text \<open>The same body for any stream; it serves the TLS streams.\<close>

definition handle_http_generic ::
  "('s, 't, 'n) serve_connection \<Rightarrow> ('n, 't) network \<Rightarrow> 't http_client \<Rightarrow> (string \<Rightarrow> string)
   \<Rightarrow> ('s, 't, 'n) session \<Rightarrow> string option \<times> ('s, 't, 'n) session \<times> tunnel_task option"
where
  "handle_http_generic serve N C to_lowercase w =
     (case serve \<lparr>preserve_header_case = True, title_case_headers = True, with_upgrades = True\<rparr>
         (http_service N C to_lowercase) w of
        (Inl e, w', spawned) \<Rightarrow> (log_connection_error e, w', spawned)
      | (Inr _, w', spawned) \<Rightarrow> (None, w', spawned))"

lemma handle_http_generic_eq: "handle_http_generic serve N C lower = handle_http serve N C lower"
  by (simp add: fun_eq_iff handle_http_def handle_http_generic_def)

text \<open>The task that was left behind, on the session the connection has ended with.\<close>

definition run_tunnel ::
  "('n, 't) network \<Rightarrow> ('s, 't, 'n) session_ops \<Rightarrow> tunnel_task option \<Rightarrow> ('s, 't, 'n) session \<Rightarrow> ('s, 't, 'n) session"
where
  "run_tunnel N X spawned w =
     (case spawned of
        Some (upgraded, dest) \<Rightarrow> snd (connect_tunnel N X upgraded dest w)
      | None \<Rightarrow> w)"

section \<open>Proxy authentication\<close>

text \<open>\<open>HeaderValue::to_str\<close>: visible ASCII, space and tab.\<close>

definition header_to_str :: "bytes \<Rightarrow> string option" where
  "header_to_str bs =
     (if list_all (\<lambda>b. b = 0x09 \<or> (0x20 \<le> b \<and> b < 0x7F)) bs then Some (of_bytes bs) else None)"

definition get_header :: "string \<Rightarrow> http_request \<Rightarrow> bytes option" where
  "get_header name req = map_of (req_headers req) name"

definition check_proxy_auth ::
  "(string \<Rightarrow> bytes option) \<Rightarrow> http_request \<Rightarrow> user_credential list \<Rightarrow> bool"
where
  "check_proxy_auth b64_decode req users =
     (case get_header ''proxy-authorization'' req of
        None \<Rightarrow> False
      | Some header_value \<Rightarrow>
          (case header_to_str header_value of
             None \<Rightarrow> False
           | Some auth_str \<Rightarrow>
               (case parse_basic_auth b64_decode auth_str of
                  None \<Rightarrow> False
                | Some (user, pass) \<Rightarrow> verify_credentials user pass users)))"

definition make_407_response :: http_response where
  "make_407_response =
     \<lparr>resp_status = 407,
      resp_headers = [(''proxy-authenticate'',
        as_bytes (''Basic realm='' @ [CHR 0x22] @ ''Peregrine Proxy'' @ [CHR 0x22]))],
      resp_body = as_bytes ''Proxy Authentication Required''\<rparr>"

section \<open>Facts\<close>

lemma copy_headers_eq:
  "copy_headers lower hs acc = acc @ filter (\<lambda>(k, v). \<not> is_hop_by_hop lower k) hs"
  by (induction lower hs acc rule: copy_headers.induct) simp_all

lemma parse_host_port_of [simp]: "parse_host_port (host_port h p) = Some (h, p)"
  using rfind_char_append [of "CHR '':''" "show_u16 p" h]
  by (simp add: parse_host_port_def host_port_def Let_def)

lemma parse_host_port_no_colon: "CHR '':'' \<notin> set a \<Longrightarrow> parse_host_port a = None"
  by (simp add: parse_host_port_def rfind_char_None [THEN iffD2])

lemma base64_visible: "c \<in> base64_chars \<Longrightarrow> (0x20 :: u8) \<le> of_char c \<and> (of_char c :: u8) < 0x7F"
  by (drule base64_char_bounds) (simp add: word_le_nat_alt word_less_nat_alt unat_of_char)

lemma header_to_str_basic:
  assumes "base64_codec enc dec64"
  shows "header_to_str (as_bytes (basic_auth_value enc user pass)) = Some (basic_auth_value enc user pass)"
proof -
  have "\<forall>c \<in> set (enc bs). (0x20 :: u8) \<le> of_char c \<and> (of_char c :: u8) < 0x7F" for bs
    using base64_codec.encode_chars [OF assms] base64_visible by blast
  then have "list_all (\<lambda>b. b = 0x09 \<or> (0x20 \<le> b \<and> b < 0x7F)) (as_bytes (basic_auth_value enc user pass))"
    by (auto simp: basic_auth_value_def list_all_iff as_bytes_def)
  then show ?thesis by (simp add: header_to_str_def)
qed

end
