(* ===== verification/Http_Connection.thy ===== *)
theory Http_Connection
  imports Http_Handler
begin

text \<open>
  One HTTP connection from its first request to its end: the requests of the client in order,
  each answered by the service.  What the handler relies on of hyper's server is the locale
  \<open>http_server\<close>; what a connection does to the network follows from it.
\<close>

section \<open>What hyper's server promises\<close>

text \<open>
  The requests are served one at a time and in order.  Each response is sent before the next
  request is served; an error of the service ends the connection without a response; a
  request that is upgraded is the last one, and the connection is over: the stream is its task's.
\<close>

fun serve_requests ::
  "(http_response \<Rightarrow> 's \<Rightarrow> 's) \<Rightarrow> (http_request \<Rightarrow> ('n, string, http_answer) io)
   \<Rightarrow> http_request list \<Rightarrow> ('s, 't, 'n) session
   \<Rightarrow> (string + unit) \<times> ('s, 't, 'n) session \<times> tunnel_task option"
where
  "serve_requests respond service [] w = (Inr (), w, None)"
| "serve_requests respond service (req # reqs) w =
     (case service req (net w) of
        (Inl e, n) \<Rightarrow> (Inl e, w\<lparr>net := n\<rparr>, None)
      | (Inr (resp, None), n) \<Rightarrow>
          serve_requests respond service reqs (w\<lparr>net := n, client := respond resp (client w)\<rparr>)
      | (Inr (resp, Some dest), n) \<Rightarrow>
          (Inr (), w\<lparr>net := n, client := respond resp (client w)\<rparr>, Some (True, dest)))"

text \<open>
  \<open>requests\<close> is what the client will have sent by the end of the connection; it is a client that
  takes its responses.
\<close>

locale http_server =
  fixes serve :: "('s, 't, 'n) serve_connection"
    and requests :: "'s \<Rightarrow> http_request list"
    and respond :: "http_response \<Rightarrow> 's \<Rightarrow> 's"
  assumes serves: "with_upgrades opts \<Longrightarrow>
    serve opts service w = serve_requests respond service (requests (client w)) w"

section \<open>What a request does to the network\<close>

text \<open>The address a request makes the proxy dial, and the network after that.\<close>

definition request_entry :: "http_request \<Rightarrow> string option" where
  "request_entry req =
     (if req_method req = ''CONNECT''
      then Some (case connect_destination req of (host, port) \<Rightarrow> host_port host port)
      else map_option (\<lambda>host. host_port host (case uri_port req of Some p \<Rightarrow> p | None \<Rightarrow> 80)) (uri_host req))"

definition dial_for :: "('n, 't) network \<Rightarrow> http_request \<Rightarrow> 'n \<Rightarrow> 'n" where
  "dial_for N req n = (case request_entry req of None \<Rightarrow> n | Some addr \<Rightarrow> snd (dial N addr n))"

lemma snd_direct_connect: "snd (direct_connect N (Address host port) n) = snd (dial N (host_port host port) n)"
  by (simp add: direct_connect_def dial_err_def split: prod.split)

lemma snd_proxy_request:
  "req_method req \<noteq> ''CONNECT'' \<Longrightarrow> snd (proxy_request N C lower req n) = dial_for N req n"
proof (cases "uri_host req")
  case None
  then show "req_method req \<noteq> ''CONNECT'' \<Longrightarrow> ?thesis"
    by (simp add: proxy_request_def dial_for_def request_entry_def)
next
  case (Some host)
  let ?p = "case uri_port req of Some p \<Rightarrow> p | None \<Rightarrow> 80"
  assume "req_method req \<noteq> ''CONNECT''"
  then have "dial_for N req n = snd (direct_connect N (Address host ?p) n)"
    using Some by (simp add: dial_for_def request_entry_def snd_direct_connect)
  moreover have "snd (proxy_request N C lower req n) = snd (direct_connect N (Address host ?p) n)"
    using Some by (auto simp: proxy_request_def Let_def match_io_def bind_io_def ret_def lift_sum_def
        split: prod.splits sum.splits)
  ultimately show ?thesis by simp
qed

lemma http_service_plain:
  assumes "req_method req \<noteq> ''CONNECT''" "http_service N C lower req n = (r, n')"
  shows "n' = dial_for N req n \<and> (\<forall>resp up. r = Inr (resp, up) \<longrightarrow> up = None)"
proof -
  have "snd (http_service N C lower req n) = snd (proxy_request N C lower req n)"
    using assms(1) by (auto simp: http_service_def bind_io_def ret_def split: prod.splits sum.splits)
  with assms snd_proxy_request [OF assms(1), of N C lower n] show ?thesis
    by (auto simp: http_service_def bind_io_def ret_def split: prod.splits sum.splits)
qed

lemma http_service_connect:
  assumes "req_method req = ''CONNECT''"
  shows "http_service N C lower req n = (Inr (plain_response 200 [], Some (connect_destination req)), n)"
  using assms by (simp add: http_service_def handle_http_connect_def ret_def)

lemma connect_tunnel_net:
  assumes "req_method req = ''CONNECT''"
  shows "net (snd (connect_tunnel N X True (connect_destination req) w)) = dial_for N req (net w)"
  using assms
  by (auto simp: connect_tunnel_def dial_for_def request_entry_def match_io_def on_net_def ret_def
      tunnel_copy_def direct_connect_def dial_err_def split: prod.splits sum.splits)

section \<open>What a connection does to the network\<close>

text \<open>
  \<open>stops N C lower reqs n k\<close>: a connection that has served the first \<open>k\<close> of the requests ends
  there, because there are no more, or the last one opened a tunnel or failed.
\<close>

definition stops ::
  "('n, 't) network \<Rightarrow> 't http_client \<Rightarrow> (string \<Rightarrow> string) \<Rightarrow> http_request list \<Rightarrow> 'n \<Rightarrow> nat \<Rightarrow> bool"
where
  "stops N C lower reqs n k \<longleftrightarrow> k = length reqs \<or>
     (0 < k \<and> k < length reqs \<and>
      (req_method (reqs ! (k - 1)) = ''CONNECT'' \<or>
       (\<exists>e n'. http_service N C lower (reqs ! (k - 1)) (fold (dial_for N) (take (k - 1) reqs) n) = (Inl e, n'))))"

lemma stops_Cons: "stops N C lower reqs (dial_for N req n) k \<Longrightarrow> stops N C lower (req # reqs) n (Suc k)"
  by (cases k) (auto simp: stops_def)

lemma serve_requests_net:
  "\<exists>k. stops N C lower reqs (net w) k \<and>
     (case serve_requests respond (http_service N C lower) reqs w of
        (r, w', spawned) \<Rightarrow> net (run_tunnel N X spawned w')) = fold (dial_for N) (take k reqs) (net w)"
proof (induction reqs arbitrary: w)
  case Nil
  then show ?case by (simp add: stops_def run_tunnel_def)
next
  case (Cons req reqs)
  show ?case
  proof (cases "req_method req = ''CONNECT''")
    case True
    then show ?thesis
      using connect_tunnel_net [OF True, of N X "w\<lparr>client := respond (plain_response 200 []) (client w)\<rparr>"]
      by (intro exI [of _ 1]) (simp add: stops_def http_service_connect run_tunnel_def)
  next
    case False
    obtain r n where s: "http_service N C lower req (net w) = (r, n)" by force
    note plain = http_service_plain [OF False s]
    show ?thesis
    proof (cases r)
      case (Inl e)
      with s plain show ?thesis by (intro exI [of _ 1]) (auto simp: stops_def run_tunnel_def)
    next
      case (Inr a)
      with plain obtain resp where a: "a = (resp, None)" by (cases a) auto
      from Cons.IH [of "w\<lparr>net := n, client := respond resp (client w)\<rparr>"] obtain k where
        "stops N C lower reqs n k" "(case serve_requests respond (http_service N C lower) reqs
             (w\<lparr>net := n, client := respond resp (client w)\<rparr>) of
           (r, w', spawned) \<Rightarrow> net (run_tunnel N X spawned w')) = fold (dial_for N) (take k reqs) n" by auto
      with s Inr a plain stops_Cons [of N C lower reqs req "net w" k] show ?thesis
        by (intro exI [of _ "Suc k"]) simp
    qed
  qed
qed

context http_server begin

lemma handle_http_served:
  "snd (handle_http serve N C lower w) =
     snd (serve_requests respond (http_service N C lower) (requests (client w)) w)"
  by (simp add: handle_http_def serves split: prod.split sum.split)

lemma handle_http_net:
  "\<exists>k. stops N C lower (requests (client w)) (net w) k \<and>
     (case handle_http serve N C lower w of (r, w', spawned) \<Rightarrow> net (run_tunnel N X spawned w')) =
       fold (dial_for N) (take k (requests (client w))) (net w)"
proof -
  have "(case handle_http serve N C lower w of (r, w', spawned) \<Rightarrow> net (run_tunnel N X spawned w')) =
      (case serve_requests respond (http_service N C lower) (requests (client w)) w of
        (r, w', spawned) \<Rightarrow> net (run_tunnel N X spawned w'))"
    using handle_http_served [of N C lower w] by (simp add: case_prod_beta)
  then show ?thesis by (simp add: serve_requests_net)
qed

text \<open>
  A CONNECT as the first request ends the connection with the answer 200; the network has not
  been touched, and the destination is what the task it leaves behind will dial.
\<close>

lemma handle_http_connect_first:
  assumes "requests (client w) = req # reqs" "req_method req = ''CONNECT''"
  shows "handle_http serve N C lower w =
    (None, w\<lparr>client := respond (plain_response 200 []) (client w)\<rparr>, Some (True, connect_destination req))"
  using assms by (simp add: handle_http_def serves http_service_connect)

end

section \<open>A scripted HTTP client\<close>

text \<open>A peer that has requests to send and keeps the responses it gets.\<close>

record http_peer =
  to_send :: "http_request list"
  got :: "http_response list"

definition peer_respond :: "http_response \<Rightarrow> http_peer \<Rightarrow> http_peer" where
  "peer_respond resp p = p\<lparr>got := got p @ [resp]\<rparr>"

definition scripted_serve :: "(http_peer, 't, 'n) serve_connection" where
  "scripted_serve opts service w = serve_requests peer_respond service (to_send (client w)) w"

interpretation scripted: http_server scripted_serve to_send peer_respond
  by unfold_locales (simp add: scripted_serve_def)

end
