(* ===== verification/Server.thy ===== *)
theory Server
  imports Detect Proxy_Stream Http_Connection Socks_Session Config_Model
begin

text \<open>
  \<open>src/server.rs\<close>: loading the TLS identity of a listener, and what happens to one accepted
  connection.  The stream type is in \<open>Proxy_Stream\<close>, start-up in \<open>Server_Start\<close>, the accept
  loops, the semaphore and the shutdown in \<open>Server_Life\<close>.
\<close>

section \<open>TLS\<close>

text \<open>
  The file system and the PEM and TLS libraries: opening a file, the certificates and the
  private key in it, and building the acceptor.  Errors are their texts.
\<close>

record ('file, 'cert, 'key, 'acceptor) tls_files =
  open_file :: "string \<Rightarrow> string + 'file"
  pem_certs :: "'file \<Rightarrow> string + 'cert list"
  pem_private_key :: "'file \<Rightarrow> string + 'key option"
  build_acceptor :: "'cert list \<Rightarrow> 'key \<Rightarrow> string + 'acceptor"

definition load_tls_acceptor ::
  "('file, 'cert, 'key, 'acceptor) tls_files \<Rightarrow> tls_config \<Rightarrow> string + 'acceptor"
where
  "load_tls_acceptor F config =
     (case map_err (\<lambda>e. ''Failed to open cert file '' @ cert config @ '': '' @ e) (open_file F (cert config)) of
        Inl e \<Rightarrow> Inl e
      | Inr cert_file \<Rightarrow>
     (case map_err (\<lambda>e. ''Failed to open key file '' @ key config @ '': '' @ e) (open_file F (key config)) of
        Inl e \<Rightarrow> Inl e
      | Inr key_file \<Rightarrow>
     (case map_err (\<lambda>e. ''Failed to parse certificates: '' @ e) (pem_certs F cert_file) of
        Inl e \<Rightarrow> Inl e
      | Inr certs \<Rightarrow>
          if certs = [] then Inl (''No certificates found in '' @ cert config)
          else
     (case map_err (\<lambda>e. ''Failed to parse private key: '' @ e) (pem_private_key F key_file) of
        Inl e \<Rightarrow> Inl e
      | Inr k \<Rightarrow>
     (case ok_or (''No private key found in '' @ key config) k of
        Inl e \<Rightarrow> Inl e
      | Inr private_key \<Rightarrow>
          map_err (\<lambda>e. ''Failed to build TLS config: '' @ e) (build_acceptor F certs private_key))))))"

text \<open>The identity is usable, with the outcome: both files open, with certificates and a key.\<close>

definition tls_identity ::
  "('file, 'cert, 'key, 'acceptor) tls_files \<Rightarrow> tls_config \<Rightarrow> 'acceptor \<Rightarrow> bool"
where
  "tls_identity F config a \<longleftrightarrow>
     (\<exists>cert_file key_file certs k.
        open_file F (cert config) = Inr cert_file \<and> open_file F (key config) = Inr key_file \<and>
        pem_certs F cert_file = Inr certs \<and> certs \<noteq> [] \<and>
        pem_private_key F key_file = Inr (Some k) \<and> build_acceptor F certs k = Inr a)"

lemma load_tls_acceptor_Inr: "load_tls_acceptor F config = Inr a \<longleftrightarrow> tls_identity F config a"
  by (auto simp: load_tls_acceptor_def tls_identity_def map_err_def ok_or_def
      split: sum.splits option.splits if_splits)

section \<open>One connection\<close>

text \<open>
  \<open>peek\<close> waits for the first bytes and leaves them in the stream; the buffer it fills is eight
  zero bytes.  The handlers own the stream with the network, so what is inside a \<open>ProxyStream\<close>
  here is a session.
\<close>

type_synonym 's peek = "nat \<Rightarrow> 's \<Rightarrow> (string + bytes) \<times> 's"

type_synonym ('s, 't, 'n) proxied = "(('s, 't, 'n) session, ('s, 't, 'n) session) proxy_stream"

fun proxy_peek ::
  "'p peek \<Rightarrow> nat \<Rightarrow> ('p, 't) proxy_stream \<Rightarrow> (string + bytes) \<times> ('p, 't) proxy_stream"
where
  "proxy_peek peek n (Plain stream) = apsnd Plain (peek n stream)"
| "proxy_peek peek n (Tls stream) = (Inl ''Peek not supported on TLS streams'', Tls stream)"

definition client_peek :: "'s peek \<Rightarrow> ('s, 't, 'n) session peek" where
  "client_peek peek n w = (case peek n (client w) of (r, c) \<Rightarrow> (r, w\<lparr>client := c\<rparr>))"

definition fill_buf :: "nat \<Rightarrow> bytes \<Rightarrow> bytes" where
  "fill_buf n bs = bs @ replicate (n - length bs) 0x00"

text \<open>What runs a connection: the stream operations, the network, the peek, and hyper.\<close>

record ('s, 't, 'n) connection_env =
  stream :: "'s stream_ops"
  network_of :: "('n, 't) network"
  session_of :: "('s, 't, 'n) session_ops"
  peek_of :: "'s peek"
  serve_of :: "('s, 't, 'n) serve_connection"
  http_client_of :: "'t http_client"
  to_lowercase :: "string \<Rightarrow> string"

text \<open>A connection ends with its session, and with the tunnel task that it leaves behind, if any.\<close>

fun handle_http_with_stream ::
  "('s, 't, 'n) connection_env \<Rightarrow> ('s, 't, 'n) proxied \<Rightarrow> ('s, 't, 'n) session \<times> tunnel_task option"
where
  "handle_http_with_stream E (Plain w) =
     snd (handle_http (serve_of E) (network_of E) (http_client_of E) (to_lowercase E) w)"
| "handle_http_with_stream E (Tls w) =
     snd (handle_http_generic (serve_of E) (network_of E) (http_client_of E) (to_lowercase E) w)"

fun handle_socks5_with_stream ::
  "('s, 't, 'n) connection_env \<Rightarrow> user_credential list option \<Rightarrow> ('s, 't, 'n) proxied \<Rightarrow> ('s, 't, 'n) session"
where
  "handle_socks5_with_stream E users (Plain w) =
     snd (handle_socks5 (stream E) (network_of E) (session_of E) users w)"
| "handle_socks5_with_stream E users (Tls w) = w"

text \<open>\<open>None\<close> where the function returns before a protocol is detected.\<close>

definition detect_connection ::
  "('s, 't, 'n) connection_env \<Rightarrow> ('s, 't, 'n) proxied \<Rightarrow> detected_protocol option \<times> ('s, 't, 'n) proxied"
where
  "detect_connection E ps =
     (case ps of
        Plain _ \<Rightarrow>
          (case proxy_peek (client_peek (peek_of E)) 8 ps of
             (Inr bs, ps1) \<Rightarrow>
               (if bs = [] then None else Some (detect_protocol (fill_buf 8 bs)), ps1)
           | (Inl e, ps1) \<Rightarrow> (None, ps1))
      | Tls _ \<Rightarrow> (Some Detected_Http, ps))"

text \<open>The session of a stream that is dropped.\<close>

fun dropped :: "('s, 't, 'n) proxied \<Rightarrow> ('s, 't, 'n) session" where
  "dropped (Plain w) = w"
| "dropped (Tls w) = w"

definition handle_connection ::
  "('s, 't, 'n) connection_env \<Rightarrow> ('s, 't, 'n) proxied \<Rightarrow> ('s, 't, 'n) session \<times> tunnel_task option"
where
  "handle_connection E ps =
     (case detect_connection E ps of
        (Some Detected_Http, ps1) \<Rightarrow> handle_http_with_stream E ps1
      | (Some Detected_Socks5, ps1) \<Rightarrow> (handle_socks5_with_stream E None ps1, None)
      | (Some Detected_Unknown, ps1) \<Rightarrow> (dropped ps1, None)
      | (None, ps1) \<Rightarrow> (dropped ps1, None))"

text \<open>
  The task the accept loop spawns: the TLS handshake when the listener has an acceptor (its
  failure ends the task), then the connection.  The permit is dropped at its end.
\<close>

definition connection_task ::
  "('s, 't, 'n) connection_env \<Rightarrow> ('acceptor \<Rightarrow> 's \<Rightarrow> string + 's) \<Rightarrow> 'acceptor option
   \<Rightarrow> ('s, 't, 'n) session \<Rightarrow> ('s, 't, 'n) session \<times> tunnel_task option"
where
  "connection_task E tls_accept tls_acceptor w =
     (case tls_acceptor of
        Some acceptor \<Rightarrow>
          (case tls_accept acceptor (client w) of
             Inr tls_stream \<Rightarrow> handle_connection E (Tls (w\<lparr>client := tls_stream\<rparr>))
           | Inl e \<Rightarrow> (w, None))
      | None \<Rightarrow> handle_connection E (Plain w))"

text \<open>The connection, and then the tunnel it may have left behind.\<close>

definition connection_and_tunnel ::
  "('s, 't, 'n) connection_env \<Rightarrow> ('acceptor \<Rightarrow> 's \<Rightarrow> string + 's) \<Rightarrow> 'acceptor option
   \<Rightarrow> ('s, 't, 'n) session \<Rightarrow> ('s, 't, 'n) session"
where
  "connection_and_tunnel E tls_accept tls_acceptor w =
     (case connection_task E tls_accept tls_acceptor w of
        (w', spawned) \<Rightarrow> run_tunnel (network_of E) (session_of E) spawned w')"

end
