(* ===== verification/Server_Life.thy ===== *)
theory Server_Life
  imports Transitions
begin

text \<open>
  \<open>run\<close>, \<open>accept_loop\<close> and \<open>wait_for_connections\<close> of \<open>src/server.rs\<close> as a transition system.
  An accept loop is between two of its await points: not yet started, in the \<open>select!\<close> (where
  it is registered for the shutdown notification, and possibly has been notified), waiting for
  a permit, or stopped.  The scheduler and the clients choose the steps.

  tokio's rules are the ones of its documentation: \<open>notify_waiters\<close> reaches the \<open>Notified\<close>
  futures that exist at that moment and is not stored for later ones; a \<open>select!\<close> with two
  ready branches takes either, and drops the other; the semaphore is never closed.

  A connection ends, and its permit with it, when \<open>handle_connection\<close> returns.  For an HTTP
  CONNECT this is when the connection has been upgraded (\<open>Conn_Upgraded\<close>): the tunnel is in a task
  of its own, spawned in \<open>src/protocol/http_handler.rs\<close>, that goes on without a permit.  \<open>tunnels\<close>
  counts those tasks.
\<close>

datatype loop_state = Starting | Selecting bool | Acquiring | Stopped

datatype main_phase = Serving | Failed | Joining | Draining | Exited

text \<open>The phases are ordered as \<open>run\<close> goes through them.\<close>

fun phase_rank :: "main_phase \<Rightarrow> nat" where
  "phase_rank Serving = 0"
| "phase_rank Failed = 1"
| "phase_rank Joining = 2"
| "phase_rank Draining = 3"
| "phase_rank Exited = 4"

instantiation main_phase :: linorder
begin

definition less_eq_main_phase :: "main_phase \<Rightarrow> main_phase \<Rightarrow> bool" where
  "less_eq_main_phase p q \<longleftrightarrow> phase_rank p \<le> phase_rank q"

definition less_main_phase :: "main_phase \<Rightarrow> main_phase \<Rightarrow> bool" where
  "less_main_phase p q \<longleftrightarrow> phase_rank p < phase_rank q"

instance
proof
  fix p q :: main_phase
  show "p \<le> q \<Longrightarrow> q \<le> p \<Longrightarrow> p = q"
    by (cases p; cases q) (simp_all add: less_eq_main_phase_def)
qed (auto simp: less_eq_main_phase_def less_main_phase_def)

end

record server_state =
  loops :: "loop_state list"
  permits :: nat
  in_flight :: nat
  tunnels :: nat
  main :: main_phase

datatype server_event =
    Loop_Start nat
  | Accept_Ok nat
  | Accept_Error nat
  | Permit nat
  | Notice nat
  | Conn_Done
  | Conn_Upgraded
  | Tunnel_Done
  | Ctrl_C
  | Signal_Error
  | Joined
  | Drained
  | Drain_Timeout

definition server_init :: "nat \<Rightarrow> nat \<Rightarrow> server_state" where
  "server_init max_conn n =
     \<lparr>loops = replicate n Starting, permits = max_conn, in_flight = 0, tunnels = 0, main = Serving\<rparr>"

definition set_loop :: "nat \<Rightarrow> loop_state \<Rightarrow> server_state \<Rightarrow> server_state" where
  "set_loop i l s = s\<lparr>loops := (loops s)[i := l]\<rparr>"

text \<open>\<open>shutdown.notify_waiters()\<close>.\<close>

fun notify :: "loop_state \<Rightarrow> loop_state" where
  "notify (Selecting _) = Selecting True"
| "notify l = l"

text \<open>
  \<open>max_conn\<close> is a \<open>usize\<close>; the drain asks for \<open>max_conn as u32\<close> permits and gives them back.
  \<open>Failed\<close> is \<open>run\<close> returning the error of the signal handler.
\<close>

inductive server_step :: "nat \<Rightarrow> server_state \<Rightarrow> server_event \<Rightarrow> server_state \<Rightarrow> bool"
  for max_conn
where
  loop_start: "i < length (loops s) \<Longrightarrow> loops s ! i = Starting \<Longrightarrow>
     server_step max_conn s (Loop_Start i) (set_loop i (Selecting False) s)"
| accept_ok: "i < length (loops s) \<Longrightarrow> loops s ! i = Selecting w \<Longrightarrow>
     server_step max_conn s (Accept_Ok i) (set_loop i Acquiring s)"
| accept_error: "i < length (loops s) \<Longrightarrow> loops s ! i = Selecting w \<Longrightarrow>
     server_step max_conn s (Accept_Error i) (set_loop i (Selecting False) s)"
| permit: "i < length (loops s) \<Longrightarrow> loops s ! i = Acquiring \<Longrightarrow> 0 < permits s \<Longrightarrow>
     server_step max_conn s (Permit i)
       (set_loop i (Selecting False) (s\<lparr>permits := permits s - 1, in_flight := in_flight s + 1\<rparr>))"
| notice: "i < length (loops s) \<Longrightarrow> loops s ! i = Selecting True \<Longrightarrow>
     server_step max_conn s (Notice i) (set_loop i Stopped s)"
| conn_done: "0 < in_flight s \<Longrightarrow>
     server_step max_conn s Conn_Done (s\<lparr>permits := permits s + 1, in_flight := in_flight s - 1\<rparr>)"
| conn_upgraded: "0 < in_flight s \<Longrightarrow>
     server_step max_conn s Conn_Upgraded
       (s\<lparr>permits := permits s + 1, in_flight := in_flight s - 1, tunnels := tunnels s + 1\<rparr>)"
| tunnel_done: "0 < tunnels s \<Longrightarrow> server_step max_conn s Tunnel_Done (s\<lparr>tunnels := tunnels s - 1\<rparr>)"
| ctrl_c: "main s = Serving \<Longrightarrow>
     server_step max_conn s Ctrl_C (s\<lparr>main := Joining, loops := map notify (loops s)\<rparr>)"
| signal_error: "main s = Serving \<Longrightarrow>
     server_step max_conn s Signal_Error (s\<lparr>main := Failed\<rparr>)"
| joined: "main s = Joining \<Longrightarrow> \<forall>l \<in> set (loops s). l = Stopped \<Longrightarrow>
     server_step max_conn s Joined
       (s\<lparr>main := (if 0 < max_conn - permits s then Draining else Exited)\<rparr>)"
| drained: "main s = Draining \<Longrightarrow> max_conn mod 2 ^ 32 \<le> permits s \<Longrightarrow>
     server_step max_conn s Drained (s\<lparr>main := Exited\<rparr>)"
| drain_timeout: "main s = Draining \<Longrightarrow>
     server_step max_conn s Drain_Timeout (s\<lparr>main := Exited\<rparr>)"

inductive_cases server_stepE: "server_step m s ev s'"

inductive_simps permit_iff: "server_step m s (Permit i) s'"
inductive_simps joined_iff: "server_step m s Joined s'"
inductive_simps drained_iff: "server_step m s Drained s'"

inductive server_run :: "nat \<Rightarrow> server_state \<Rightarrow> server_event list \<Rightarrow> server_state \<Rightarrow> bool"
  for max_conn
where
  run_done: "server_run max_conn s [] s"
| run_step: "server_step max_conn s ev s1 \<Longrightarrow> server_run max_conn s1 evs s2 \<Longrightarrow>
     server_run max_conn s (ev # evs) s2"

inductive_simps server_run_Nil: "server_run m s [] s'"
inductive_simps server_run_Cons: "server_run m s (ev # evs) s'"

interpretation life: transitions "server_step m" "server_run m" for m
  by unfold_locales (auto simp: server_run_Nil server_run_Cons)

section \<open>Capacity\<close>

definition capacity_inv :: "nat \<Rightarrow> server_state \<Rightarrow> bool" where
  "capacity_inv m s \<longleftrightarrow> permits s + in_flight s = m"

lemma set_loop_simps [simp]:
  "permits (set_loop i l s) = permits s" "in_flight (set_loop i l s) = in_flight s"
  "tunnels (set_loop i l s) = tunnels s"
  "main (set_loop i l s) = main s" "loops (set_loop i l s) = (loops s)[i := l]"
  by (simp_all add: set_loop_def)

lemma capacity_step: "server_step m s ev s' \<Longrightarrow> capacity_inv m s \<Longrightarrow> capacity_inv m s'"
  by (erule server_stepE) (auto simp: capacity_inv_def)

lemma capacity_run: "server_run m s evs s' \<Longrightarrow> capacity_inv m s \<Longrightarrow> capacity_inv m s'"
  by (erule life.run_keeps) (auto intro: capacity_step)

text \<open>
  While a loop accepts, the tunnels can become one more without another connection in flight: a
  connection becomes one and gives its permit back.
\<close>

lemma one_more_tunnel:
  assumes "capacity_inv m s" "0 < m" "i < length (loops s)" "loops s ! i = Selecting b"
  obtains later s' b' where "server_run m s later s'" "tunnels s' = tunnels s + 1" "in_flight s' \<le> in_flight s"
    "main s' = main s" "length (loops s') = length (loops s)" "loops s' ! i = Selecting b'"
proof (cases "permits s = 0")
  case True
  then have "0 < in_flight s" using assms(1,2) by (simp add: capacity_inv_def)
  then have "server_run m s [Conn_Upgraded]
      (s\<lparr>permits := permits s + 1, in_flight := in_flight s - 1, tunnels := tunnels s + 1\<rparr>)"
    unfolding life.run_single by (rule conn_upgraded)
  then show thesis by (rule that) (use assms(4) in simp_all)
next
  case False
  let ?s1 = "set_loop i Acquiring s"
  let ?s2 = "set_loop i (Selecting False) (?s1\<lparr>permits := permits ?s1 - 1, in_flight := in_flight ?s1 + 1\<rparr>)"
  let ?s3 = "?s2\<lparr>permits := permits ?s2 + 1, in_flight := in_flight ?s2 - 1, tunnels := tunnels ?s2 + 1\<rparr>"
  have "server_step m s (Accept_Ok i) ?s1" using assms(3,4) by (rule accept_ok)
  moreover have "server_step m ?s1 (Permit i) ?s2" using assms(3) False by (intro permit) simp_all
  moreover have "server_step m ?s2 Conn_Upgraded ?s3" by (rule conn_upgraded) simp
  ultimately have "server_run m s [Accept_Ok i, Permit i, Conn_Upgraded] ?s3" by (blast intro: run_step run_done)
  then show thesis by (rule that [where b' = False]) (use assms(3) in simp_all)
qed

lemma more_tunnels:
  assumes "capacity_inv m s" "0 < m" "i < length (loops s)" "loops s ! i = Selecting b"
  shows "\<exists>later s'. server_run m s later s' \<and> tunnels s' = tunnels s + n \<and> in_flight s' \<le> in_flight s"
  using assms
proof (induction n arbitrary: s b)
  case 0
  then show ?case by (intro exI [of _ "[]"] exI [of _ s]) (simp add: run_done)
next
  case (Suc n)
  obtain l1 s1 b1 where 1: "server_run m s l1 s1" "tunnels s1 = tunnels s + 1" "in_flight s1 \<le> in_flight s"
    "length (loops s1) = length (loops s)" "loops s1 ! i = Selecting b1"
    by (rule one_more_tunnel [OF Suc.prems])
  from Suc.IH [OF capacity_run [OF 1(1) Suc.prems(1)] Suc.prems(2) _ 1(5)] 1(4) Suc.prems(3) obtain l2 s2 where
    "server_run m s1 l2 s2" "tunnels s2 = tunnels s1 + n" "in_flight s2 \<le> in_flight s1" by auto
  with 1 life.run_append [of m s l1 l2 s2] show ?case by (intro exI [of _ "l1 @ l2"] exI [of _ s2]) auto
qed

section \<open>Shutdown\<close>

text \<open>
  Once the notification has been sent, a loop that has not been notified never stops: it is
  not stopped, and no step can notify it any more.
\<close>

definition missed :: "nat \<Rightarrow> server_state \<Rightarrow> bool" where
  "missed i s \<longleftrightarrow> main s = Joining \<and> i < length (loops s) \<and>
     loops s ! i \<in> {Starting, Selecting False, Acquiring}"

lemma missed_step: "server_step m s ev s' \<Longrightarrow> missed i s \<Longrightarrow> missed i s'"
  by (erule server_stepE) (auto simp: missed_def nth_list_update dest!: nth_mem)

lemma missed_run: "server_run m s evs s' \<Longrightarrow> missed i s \<Longrightarrow> missed i s'"
  by (erule life.run_keeps) (auto intro: missed_step)

text \<open>After the notification, loops only stop, or go on without it; none is started anew.\<close>

definition all_stopped :: "server_state \<Rightarrow> bool" where
  "all_stopped s \<longleftrightarrow> (\<forall>i < length (loops s). loops s ! i = Stopped)"

definition stopped_from :: "server_state \<Rightarrow> bool" where
  "stopped_from s \<longleftrightarrow> (main s = Draining \<or> main s = Exited \<longrightarrow> all_stopped s)"

lemma all_stopped_set: "all_stopped s \<longleftrightarrow> (\<forall>l \<in> set (loops s). l = Stopped)"
  by (auto simp: all_stopped_def all_set_conv_all_nth)

lemma stopped_from_step: "server_step m s ev s' \<Longrightarrow> stopped_from s \<Longrightarrow> stopped_from s'"
proof (induction rule: server_step.induct)
  case (joined s)
  then show ?case by (simp add: stopped_from_def all_stopped_set)
qed (auto simp: stopped_from_def all_stopped_def)

text \<open>\<open>run\<close> goes through its phases in order, and what has ended stays so.\<close>

lemma phase_step: "server_step m s ev s' \<Longrightarrow> main s \<le> main s'"
  by (erule server_stepE) (auto simp: less_eq_main_phase_def)

lemma phase_run: "server_run m s evs s' \<Longrightarrow> main s \<le> main s'"
  by (erule life.run_mono) (rule phase_step)

lemma exited_run: "server_run m s evs s' \<Longrightarrow> main s = Exited \<Longrightarrow> main s' = Exited"
  by (drule phase_run, cases "main s'") (simp_all add: less_eq_main_phase_def)

definition quiet :: "server_state \<Rightarrow> bool" where
  "quiet s \<longleftrightarrow> in_flight s = 0 \<and> all_stopped s"

text \<open>Tunnels are no part of it: they can only end, since there is nothing left to become one.\<close>

lemma quiet_step: "server_step m s ev s' \<Longrightarrow> quiet s \<Longrightarrow> quiet s'"
  by (erule server_stepE) (auto simp: quiet_def all_stopped_def)

lemma quiet_tunnels: "server_run m s evs s' \<Longrightarrow> quiet s \<Longrightarrow> quiet s' \<and> tunnels s' \<le> tunnels s"
proof (induction rule: server_run.induct)
  case (run_step s ev s1 evs s2)
  then have "tunnels s1 \<le> tunnels s" by (auto elim!: server_stepE simp: quiet_def)
  with run_step quiet_step show ?case by fastforce
qed simp

text \<open>Idle loops: every loop is in its \<open>select!\<close>; then the notification reaches them all.\<close>

lemma notice_all:
  assumes "\<forall>l \<in> set ls. l = Selecting True"
  shows "server_run m (s\<lparr>loops := us @ ls\<rparr>) (map Notice [length us ..< length us + length ls])
    (s\<lparr>loops := us @ replicate (length ls) Stopped\<rparr>)"
  using assms
proof (induction ls arbitrary: us)
  case Nil
  then show ?case by (simp add: run_done)
next
  case (Cons l ls)
  let ?s = "s\<lparr>loops := us @ l # ls\<rparr>"
  have "server_step m ?s (Notice (length us)) (set_loop (length us) Stopped ?s)"
    using Cons.prems by (intro notice) simp_all
  moreover have "set_loop (length us) Stopped ?s = s\<lparr>loops := (us @ [Stopped]) @ ls\<rparr>"
    by (simp add: set_loop_def)
  moreover have "server_run m (s\<lparr>loops := (us @ [Stopped]) @ ls\<rparr>)
      (map Notice [length (us @ [Stopped]) ..< length (us @ [Stopped]) + length ls])
      (s\<lparr>loops := (us @ [Stopped]) @ replicate (length ls) Stopped\<rparr>)"
    using Cons by (intro Cons.IH) simp
  ultimately have "server_run m ?s (Notice (length us) # map Notice [Suc (length us) ..< Suc (length us) + length ls])
      (s\<lparr>loops := us @ Stopped # replicate (length ls) Stopped\<rparr>)"
    by (auto intro: run_step)
  moreover have "map Notice [length us ..< length us + length (l # ls)] =
      Notice (length us) # map Notice [Suc (length us) ..< Suc (length us) + length ls]"
    by (simp add: upt_rec)
  ultimately show ?case by simp
qed

end
