(* ===== verification/Server_Start.thy ===== *)
theory Server_Start
  imports Server Server_Life
begin

text \<open>
  \<open>run\<close> of \<open>src/server.rs\<close> up to the accept loops: the semaphore, the listeners with their TLS
  identities, and the task that reloads the configuration on SIGHUP.  Binding a listener
  changes the state \<open>'w\<close> of the operating system's sockets.
\<close>

section \<open>Listeners\<close>

fun protocol_name :: "protocol_cfg \<Rightarrow> string" where
  "protocol_name Protocol_Http = ''HTTP''"
| "protocol_name Protocol_Socks5 = ''SOCKS5''"

definition protocol_label :: "'acceptor option \<Rightarrow> protocol_cfg \<Rightarrow> string" where
  "protocol_label tls_acceptor protocol =
     (if tls_acceptor \<noteq> None then protocol_name protocol @ '' with TLS''
      else protocol_name protocol)"

text \<open>A listener whose accept loop is spawned, with what has been logged about it.\<close>

record ('l, 'acceptor) started =
  listener_of :: 'l
  acceptor_of :: "'acceptor option"
  announced :: string

definition start_listener ::
  "(string \<Rightarrow> ('w, string, 'l) io) \<Rightarrow> ('file, 'cert, 'key, 'acceptor) tls_files
   \<Rightarrow> listen_config \<Rightarrow> ('w, string, ('l, 'acceptor) started) io"
where
  "start_listener bind F listen_cfg =
     bind_io (bind (listen_addr listen_cfg)) (\<lambda>listener.
     bind_io
       (case listen_tls listen_cfg of
          Some tls_config \<Rightarrow> bind_io (lift_sum (load_tls_acceptor F tls_config)) (\<lambda>a. ret (Some a))
        | None \<Rightarrow> ret None) (\<lambda>tls_acceptor.
     ret \<lparr>listener_of = listener, acceptor_of = tls_acceptor,
          announced = ''Listening on '' @ listen_addr listen_cfg @ '' ('' @
            protocol_label tls_acceptor (listen_protocol listen_cfg) @ '')''\<rparr>))"

fun start_listeners ::
  "(string \<Rightarrow> ('w, string, 'l) io) \<Rightarrow> ('file, 'cert, 'key, 'acceptor) tls_files
   \<Rightarrow> listen_config list \<Rightarrow> ('w, string, ('l, 'acceptor) started list) io"
where
  "start_listeners bind F [] = ret []"
| "start_listeners bind F (listen_cfg # cfgs) =
     bind_io (start_listener bind F listen_cfg) (\<lambda>task.
     bind_io (start_listeners bind F cfgs) (\<lambda>listener_tasks. ret (task # listener_tasks)))"

section \<open>The start of the server\<close>

definition max_conn :: "app_config \<Rightarrow> nat" where
  "max_conn config = (case max_connections (server config) of Some m \<Rightarrow> unat m | None \<Rightarrow> 10000)"

text \<open>\<open>Semaphore::new\<close> panics above tokio's \<open>MAX_PERMITS\<close>, which is \<open>usize::MAX >> 3\<close>.\<close>

definition max_permits :: nat where
  "max_permits = (2 ^ 64 - 1) div 2 ^ 3"

datatype run_failure = Run_Error string | Run_Panic

definition run ::
  "(string \<Rightarrow> ('w, string, 'l) io) \<Rightarrow> ('file, 'cert, 'key, 'acceptor) tls_files
   \<Rightarrow> app_config \<Rightarrow> ('w, run_failure, ('l, 'acceptor) started list \<times> server_state) io"
where
  "run bind F config =
     (if max_permits < max_conn config then raise Run_Panic
      else
        (\<lambda>w. case start_listeners bind F (listen (server config)) w of
           (Inl e, w') \<Rightarrow> (Inl (Run_Error e), w')
         | (Inr tasks, w') \<Rightarrow> (Inr (tasks, server_init (max_conn config) (length tasks)), w')))"

text \<open>
  The whole of \<open>main\<close>: the configuration and the logging, then \<open>run\<close> with the configuration.  An
  error of either is the error of the program.
\<close>

definition main_program ::
  "(string \<Rightarrow> string + string) \<Rightarrow> (string \<Rightarrow> string + app_config) \<Rightarrow> string option
   \<Rightarrow> (string \<Rightarrow> ('w, string, 'l) io) \<Rightarrow> ('file, 'cert, 'key, 'acceptor) tls_files \<Rightarrow> cli_args
   \<Rightarrow> ('w, run_failure, log_setup \<times> ('l, 'acceptor) started list \<times> server_state) io"
where
  "main_program read_file parse_yaml env_filter bind F args =
     (case main_start read_file parse_yaml env_filter args of
        Inl e \<Rightarrow> raise (Run_Error e)
      | Inr (setup, config, config_path) \<Rightarrow>
          bind_io (run bind F config) (\<lambda>(tasks, s). ret (setup, tasks, s)))"

section \<open>Reloading\<close>

text \<open>
  The watched configuration after one SIGHUP, and after several, each with the content the
  file has at that moment.
\<close>

definition sighup ::
  "(string \<Rightarrow> string + string) \<Rightarrow> (string \<Rightarrow> string + app_config) \<Rightarrow> string \<Rightarrow> app_config \<Rightarrow> app_config"
where
  "sighup read_file parse_yaml path watched =
     (case reload read_file parse_yaml path of Inr new_config \<Rightarrow> new_config | Inl e \<Rightarrow> watched)"

fun sighup_loop ::
  "(string \<Rightarrow> string + app_config) \<Rightarrow> string \<Rightarrow> (string \<Rightarrow> string + string) list \<Rightarrow> app_config \<Rightarrow> app_config"
where
  "sighup_loop parse_yaml path [] watched = watched"
| "sighup_loop parse_yaml path (read_file # later) watched =
     sighup_loop parse_yaml path later (sighup read_file parse_yaml path watched)"

text \<open>
  The task that \<open>run\<close> spawns: without a signal handler it ends at once.  A send does not fail,
  since \<open>run\<close> keeps the receiver until it returns.
\<close>

definition sighup_task ::
  "string + unit \<Rightarrow> (string \<Rightarrow> string + app_config) \<Rightarrow> string \<Rightarrow> (string \<Rightarrow> string + string) list
   \<Rightarrow> app_config \<Rightarrow> app_config"
where
  "sighup_task handler parse_yaml config_path reads watched =
     (case handler of
        Inl e \<Rightarrow> watched
      | Inr _ \<Rightarrow> sighup_loop parse_yaml config_path reads watched)"

section \<open>Facts\<close>

text \<open>
  What a listener of the configuration is once it has been started: bound, to its address, with
  an acceptor made from its identity exactly if it has one.
\<close>

definition started_for ::
  "(string \<Rightarrow> ('w, string, 'l) io) \<Rightarrow> ('file, 'cert, 'key, 'acceptor) tls_files
   \<Rightarrow> 'w \<Rightarrow> listen_config \<Rightarrow> ('l, 'acceptor) started \<Rightarrow> 'w \<Rightarrow> bool"
where
  "started_for bind F w cfg t w' \<longleftrightarrow>
     bind (listen_addr cfg) w = (Inr (listener_of t), w') \<and>
     (case (listen_tls cfg, acceptor_of t) of
        (None, None) \<Rightarrow> True
      | (Some identity, Some a) \<Rightarrow> tls_identity F identity a
      | _ \<Rightarrow> False) \<and>
     announced t = ''Listening on '' @ listen_addr cfg @ '' ('' @
       protocol_name (listen_protocol cfg) @ (if listen_tls cfg = None then '')'' else '' with TLS)'')"

text \<open>Listeners started one after the other, each in the state the one before it has left.\<close>

inductive listening ::
  "(string \<Rightarrow> ('w, string, 'l) io) \<Rightarrow> ('file, 'cert, 'key, 'acceptor) tls_files
   \<Rightarrow> 'w \<Rightarrow> listen_config list \<Rightarrow> ('l, 'acceptor) started list \<Rightarrow> 'w \<Rightarrow> bool"
  for bind F
where
  none_left: "listening bind F w [] [] w"
| one_more: "started_for bind F w cfg t w1 \<Longrightarrow> listening bind F w1 cfgs ts w' \<Longrightarrow>
     listening bind F w (cfg # cfgs) (t # ts) w'"

inductive_simps listening_Nil: "listening bind F w [] ts w'"
inductive_simps listening_Cons: "listening bind F w (cfg # cfgs) ts w'"

text \<open>Why an identity is not usable, with the error.\<close>

inductive tls_fault :: "('file, 'cert, 'key, 'acceptor) tls_files \<Rightarrow> tls_config \<Rightarrow> string \<Rightarrow> bool"
  for F config
where
  no_cert_file: "open_file F (cert config) = Inl e \<Longrightarrow>
     tls_fault F config (''Failed to open cert file '' @ cert config @ '': '' @ e)"
| no_key_file: "open_file F (cert config) = Inr f \<Longrightarrow> open_file F (key config) = Inl e \<Longrightarrow>
     tls_fault F config (''Failed to open key file '' @ key config @ '': '' @ e)"
| bad_certs: "open_file F (cert config) = Inr f \<Longrightarrow> open_file F (key config) = Inr g \<Longrightarrow>
     pem_certs F f = Inl e \<Longrightarrow> tls_fault F config (''Failed to parse certificates: '' @ e)"
| no_certs: "open_file F (cert config) = Inr f \<Longrightarrow> open_file F (key config) = Inr g \<Longrightarrow>
     pem_certs F f = Inr [] \<Longrightarrow> tls_fault F config (''No certificates found in '' @ cert config)"
| bad_key: "open_file F (cert config) = Inr f \<Longrightarrow> open_file F (key config) = Inr g \<Longrightarrow>
     pem_certs F f = Inr cs \<Longrightarrow> cs \<noteq> [] \<Longrightarrow> pem_private_key F g = Inl e \<Longrightarrow>
     tls_fault F config (''Failed to parse private key: '' @ e)"
| no_key: "open_file F (cert config) = Inr f \<Longrightarrow> open_file F (key config) = Inr g \<Longrightarrow>
     pem_certs F f = Inr cs \<Longrightarrow> cs \<noteq> [] \<Longrightarrow> pem_private_key F g = Inr None \<Longrightarrow>
     tls_fault F config (''No private key found in '' @ key config)"
| not_built: "open_file F (cert config) = Inr f \<Longrightarrow> open_file F (key config) = Inr g \<Longrightarrow>
     pem_certs F f = Inr cs \<Longrightarrow> cs \<noteq> [] \<Longrightarrow> pem_private_key F g = Inr (Some k) \<Longrightarrow>
     build_acceptor F cs k = Inl e \<Longrightarrow> tls_fault F config (''Failed to build TLS config: '' @ e)"

lemma load_tls_acceptor_Inl: "load_tls_acceptor F config = Inl e \<Longrightarrow> tls_fault F config e"
  by (auto simp: load_tls_acceptor_def map_err_def ok_or_def intro: tls_fault.intros [simplified]
      split: sum.splits option.splits if_splits)

text \<open>The address cannot be bound, or it is bound but the identity is not usable.\<close>

definition not_started ::
  "(string \<Rightarrow> ('w, string, 'l) io) \<Rightarrow> ('file, 'cert, 'key, 'acceptor) tls_files
   \<Rightarrow> 'w \<Rightarrow> listen_config \<Rightarrow> string \<Rightarrow> 'w \<Rightarrow> bool"
where
  "not_started bind F w cfg e w' \<longleftrightarrow>
     bind (listen_addr cfg) w = (Inl e, w') \<or>
     (\<exists>l identity. bind (listen_addr cfg) w = (Inr l, w') \<and> listen_tls cfg = Some identity \<and>
        tls_fault F identity e)"

lemma start_listener_Inr: "start_listener bind F cfg w = (Inr t, w') \<Longrightarrow> started_for bind F w cfg t w'"
  by (auto simp: start_listener_def io_conv started_for_def protocol_label_def
      load_tls_acceptor_Inr split: option.splits)

lemma start_listener_Inl: "start_listener bind F cfg w = (Inl e, w') \<Longrightarrow> not_started bind F w cfg e w'"
  by (auto simp: start_listener_def io_conv not_started_def dest!: load_tls_acceptor_Inl split: option.splits)

lemma start_listeners_Inr: "start_listeners bind F cfgs w = (Inr ts, w') \<Longrightarrow> listening bind F w cfgs ts w'"
  by (induction cfgs arbitrary: w ts) (auto simp: io_conv intro: listening.intros dest: start_listener_Inr)

lemma listening_length: "listening bind F w cfgs ts w' \<Longrightarrow> length ts = length cfgs"
  by (induction rule: listening.induct) simp_all

lemma start_listeners_Inl:
  "start_listeners bind F cfgs w = (Inl e, w') \<Longrightarrow>
     \<exists>us cfg vs ts w1. cfgs = us @ cfg # vs \<and> listening bind F w us ts w1 \<and> not_started bind F w1 cfg e w'"
proof (induction cfgs arbitrary: w)
  case Nil
  then show ?case by simp
next
  case (Cons cfg cfgs)
  show ?case
  proof (cases "start_listener bind F cfg w")
    case (Pair r w1)
    show ?thesis
    proof (cases r)
      case (Inl d)
      with Pair Cons.prems have "start_listener bind F cfg w = (Inl e, w')" by simp
      then show ?thesis
        by (intro exI [of _ "[]"] exI [of _ cfg] exI [of _ cfgs])
          (auto dest: start_listener_Inl intro: none_left)
    next
      case (Inr t)
      with Pair Cons.prems have "start_listeners bind F cfgs w1 = (Inl e, w')"
        by (auto simp: io_conv)
      from Cons.IH [OF this] obtain us c vs ts w2 where
        "cfgs = us @ c # vs" "listening bind F w1 us ts w2" "not_started bind F w2 c e w'" by blast
      with Pair Inr start_listener_Inr [of bind F cfg w t w1] show ?thesis
        by (intro exI [of _ "cfg # us"] exI [of _ c] exI [of _ vs] exI [of _ "t # ts"] exI [of _ w2])
          (simp add: one_more)
    qed
  qed
qed

lemma max_permits_eq: "max_permits = 2 ^ 61 - 1"
  by (simp add: max_permits_def)

text \<open>After any number of signals: the last configuration that could be loaded.\<close>

lemma sighup_loop_last:
  "sighup_loop py path (rfs @ [rf]) watched =
     (case reload rf py path of Inr c \<Rightarrow> c | Inl e \<Rightarrow> sighup_loop py path rfs watched)"
proof (induction rfs arbitrary: watched)
  case Nil
  then show ?case by (simp add: sighup_def split: sum.split)
next
  case (Cons r rfs)
  then show ?case by (simp split: sum.split)
qed

end
