(* ===== verification/Server_Spec.thy ===== *)
theory Server_Spec
  imports Server_Life
begin

text \<open>
  What the server promises as a whole: it is a pool of at most \<open>max_conn\<close> connections (those that
  hold a permit; a CONNECT tunnel does not) that admits while it is open and is closed once, and
  its drain ends.  The server's life refines the pool.
\<close>

section \<open>The pool\<close>

record pool =
  members :: nat
  admitting :: bool

datatype pool_event = Admit | Leave | Close

definition pool_step :: "nat \<Rightarrow> pool \<Rightarrow> pool_event \<Rightarrow> pool \<Rightarrow> bool" where
  "pool_step m p ev p' \<longleftrightarrow>
     (case ev of
        Admit \<Rightarrow> admitting p \<and> members p < m \<and> p' = p\<lparr>members := members p + 1\<rparr>
      | Leave \<Rightarrow> 0 < members p \<and> p' = p\<lparr>members := members p - 1\<rparr>
      | Close \<Rightarrow> admitting p \<and> p' = p\<lparr>admitting := False\<rparr>)"

fun pool_run :: "nat \<Rightarrow> pool \<Rightarrow> pool_event list \<Rightarrow> pool \<Rightarrow> bool" where
  "pool_run m p [] p' \<longleftrightarrow> p' = p"
| "pool_run m p (ev # evs) p' \<longleftrightarrow> (\<exists>p1. pool_step m p ev p1 \<and> pool_run m p1 evs p')"

interpretation pool: transitions "pool_step m" "pool_run m" for m
  by unfold_locales auto

lemma pool_step_bound: "pool_step m p ev p' \<Longrightarrow> members p \<le> m \<Longrightarrow> members p' \<le> m"
  by (auto simp: pool_step_def split: pool_event.splits)

lemma pool_step_closed: "pool_step m p ev p' \<Longrightarrow> \<not> admitting p \<Longrightarrow> \<not> admitting p' \<and> members p' < members p"
  by (auto simp: pool_step_def split: pool_event.splits)

text \<open>A closed pool only empties: in as many steps as it has members, at most.\<close>

lemma pool_closed_run:
  assumes "pool_run m p evs p'" "\<not> admitting p"
  shows "\<not> admitting p' \<and> length evs + members p' \<le> members p"
  using assms by (rule pool.run_length) (rule pool_step_closed)

section \<open>The server as a pool\<close>

definition pool_of :: "server_state \<Rightarrow> pool" where
  "pool_of s = \<lparr>members = in_flight s, admitting = main s < Draining\<rparr>"

fun pool_events :: "server_event \<Rightarrow> pool_event list" where
  "pool_events (Permit i) = [Admit]"
| "pool_events Conn_Done = [Leave]"
| "pool_events Conn_Upgraded = [Leave]"
| "pool_events Joined = [Close]"
| "pool_events _ = []"

definition life_inv :: "nat \<Rightarrow> server_state \<Rightarrow> bool" where
  "life_inv m s \<longleftrightarrow> capacity_inv m s \<and> stopped_from s"

lemma life_inv_init: "life_inv m (server_init m k)"
  by (simp add: life_inv_def capacity_inv_def stopped_from_def server_init_def)

lemma life_inv_step: "server_step m s ev s' \<Longrightarrow> life_inv m s \<Longrightarrow> life_inv m s'"
  unfolding life_inv_def by (blast intro: capacity_step stopped_from_step)

lemma less_Draining: "p < Draining \<longleftrightarrow> p \<noteq> Draining \<and> p \<noteq> Exited"
  by (cases p) (simp_all add: less_main_phase_def)

lemma pool_simulates:
  assumes "server_step m s ev s'" "life_inv m s"
  shows "pool_run m (pool_of s) (pool_events ev) (pool_of s')"
  using assms
  by (cases rule: server_step.cases)
    (auto simp: pool_of_def pool_step_def less_Draining life_inv_def capacity_inv_def
      stopped_from_def all_stopped_def)

interpretation as_pool: refines "server_step m" "server_run m" "pool_step m" "pool_run m"
  "life_inv m" pool_of pool_events for m
  by unfold_locales (auto intro: life_inv_step pool_simulates)

section \<open>The drain\<close>

text \<open>
  From the drain on, a step ends a connection, a tunnel or \<open>run\<close>; what can still happen is
  counted by the connections and, while \<open>run\<close> has not returned, one, and the tunnels, which a
  connection may still become.
\<close>

definition drain_measure :: "server_state \<Rightarrow> nat" where
  "drain_measure s = in_flight s + (if main s = Draining then 1 else 0)"

definition tunnel_measure :: "server_state \<Rightarrow> nat" where
  "tunnel_measure s = tunnels s + in_flight s + drain_measure s"

definition drains :: "server_state \<Rightarrow> bool" where
  "drains s \<longleftrightarrow> all_stopped s \<and> Draining \<le> main s"

lemma Draining_le: "Draining \<le> p \<longleftrightarrow> p = Draining \<or> p = Exited"
  by (cases p) (simp_all add: less_eq_main_phase_def)

lemma drains_step:
  assumes "server_step m s ev s'" "drains s"
  shows "drains s'" "tunnel_measure s' < tunnel_measure s"
    "ev \<noteq> Tunnel_Done \<Longrightarrow> drain_measure s' < drain_measure s" "drain_measure s' \<le> drain_measure s"
  using assms
  by (auto elim!: server_stepE simp: drains_def Draining_le drain_measure_def tunnel_measure_def all_stopped_def)

lemma drains_run:
  assumes "server_run m s evs s'" "drains s"
  shows "drains s' \<and> length evs + tunnel_measure s' \<le> tunnel_measure s"
  using assms by (rule life.run_length) (auto intro: drains_step)

lemma drains_run_connections:
  assumes "server_run m s evs s'" "drains s"
  shows "length (filter (\<lambda>ev. ev \<noteq> Tunnel_Done) evs) + drain_measure s' \<le> drain_measure s"
  using assms
proof (induction rule: server_run.induct)
  case (run_step s ev s1 evs s2)
  with drains_step [OF run_step(1,4)] show ?case by (cases "ev = Tunnel_Done") auto
qed simp

text \<open>And it is never stuck: the next connection can end, and when none is left, so can the drain.\<close>

lemma drain_progress:
  assumes "main s = Draining" "life_inv m s"
  shows "if in_flight s = 0 then server_step m s Drained (s\<lparr>main := Exited\<rparr>)
    else \<exists>s'. server_step m s Conn_Done s'"
proof (cases "in_flight s = 0")
  case True
  with assms(2) have "m mod 2 ^ 32 \<le> permits s" by (simp add: life_inv_def capacity_inv_def)
  with True drained [OF assms(1)] show ?thesis by simp
next
  case False
  then have "0 < in_flight s" by simp
  with False conn_done [OF this] show ?thesis by auto
qed

end
