(* ===== verification/Server_Properties.thy ===== *)
theory Server_Properties
  imports Server Server_Start Server_Spec Socks_Properties
begin

text \<open>
  The properties of the server: protocol detection and what it is applied to, what an accepted
  connection may do, the bound on connections in every run, and when a shutdown ends.
\<close>

section \<open>Peeking at a scripted connection\<close>

text \<open>\<open>peek\<close> waits like \<open>read\<close>, and leaves the bytes.\<close>

fun settle :: "rx list \<Rightarrow> nat \<Rightarrow> rx list \<times> nat" where
  "settle (Wait d # evs) w = settle evs (w + d)"
| "settle evs w = (evs, w)"

definition conn_peek :: "conn peek" where
  "conn_peek n c =
     (case settle (rx_script c) (wait_time c) of
        (evs, w) \<Rightarrow> (fst (recv_some n evs w), c\<lparr>rx_script := evs, wait_time := w\<rparr>))"

lemma settle_Bytes [simp]: "settle (map Byte bs) w = (map Byte bs, w)"
  by (cases bs) simp_all

lemma take_bytes_all: "take_bytes n (map Byte bs) = (take n bs, map Byte (drop n bs))"
proof (induction n arbitrary: bs)
  case 0
  then show ?case by (cases bs) simp_all
next
  case (Suc n)
  then show ?case by (cases bs) simp_all
qed

lemma conn_peek_healthy:
  assumes "conn_healthy c" "n \<noteq> 0"
  shows "conn_peek n c = (Inr (take n (conn_pending c)), c)"
proof -
  from assms(1) obtain bs where bs: "rx_script c = map Byte bs"
    by (auto simp: conn_healthy_def only_bytes_iff)
  have "fst (recv_some n (map Byte bs) w) = Inr (take n bs)" for w
  proof (cases bs)
    case Nil
    with assms(2) show ?thesis by (cases n) simp_all
  next
    case (Cons b bs')
    obtain m where m: "n = Suc m" using assms(2) by (cases n) auto
    from take_bytes_all [of "Suc m" bs] show ?thesis
      by (simp add: Cons m del: take_bytes.simps)
  qed
  then show ?thesis by (simp add: conn_peek_def bs conn_pending_def)
qed

definition sample_env :: "(conn, conn, conn table_net) connection_env" where
  "sample_env = \<lparr>stream = conn_ops, network_of = table_network, session_of = sample_ops,
     peek_of = conn_peek, serve_of = (\<lambda>opts service w. (Inr (), w, None)),
     http_client_of = \<lparr>client_handshake = Inr, send_request = (\<lambda>req s. Inl ''closed'')\<rparr>,
     to_lowercase = ascii_lower\<rparr>"

lemma handle_connection_socks:
  assumes "peek_of E = conn_peek" "conn_healthy (client w)" "conn_pending (client w) = 0x05 # bs"
  shows "handle_connection E (Plain w) =
    (snd (handle_socks5 (stream E) (network_of E) (session_of E) None w), None)"
proof -
  have "detect_connection E (Plain w) = (Some Detected_Socks5, Plain w)"
    using assms(1,3) conn_peek_healthy [OF assms(2), of 8]
    by (simp add: detect_connection_def client_peek_def detect_protocol_def fill_buf_def)
  then show ?thesis
    by (simp add: handle_connection_def)
qed

text \<open>No method begins another, and none has a zero byte.\<close>

lemma methods_prefix_free:
  "m \<in> set http_methods_wire \<Longrightarrow> m' \<in> set http_methods_wire \<Longrightarrow> \<not> strict_prefix m' m"
  by (auto simp: http_methods_wire_def as_bytes_def)

lemma methods_no_zero: "m \<in> set http_methods_wire \<Longrightarrow> 0x00 \<notin> set m"
  by (auto simp: http_methods_wire_def as_bytes_def)

lemma prefix_append_zeros: "prefix m (bs @ replicate k 0x00) \<Longrightarrow> 0x00 \<notin> set m \<Longrightarrow> prefix m bs"
proof (induction bs arbitrary: m)
  case Nil
  then show ?case by (cases m; cases k) auto
next
  case (Cons b bs)
  then show ?case by (cases m) auto
qed

lemma padded_not_http:
  assumes m: "m \<in> set http_methods_wire" and bs: "strict_prefix bs m" "bs \<noteq> []"
  shows "detect_protocol (fill_buf 8 bs) = Detected_Unknown"
proof -
  have "length (fill_buf 8 bs) \<ge> 8" by (simp add: fill_buf_def)
  then have "\<not> strict_prefix (fill_buf 8 bs) m'" if "m' \<in> set http_methods_wire" for m'
    using http_methods_length [OF that] by (auto dest!: prefix_length_less)
  moreover have "\<not> prefix m' (fill_buf 8 bs)" if "m' \<in> set http_methods_wire" for m'
  proof
    assume "prefix m' (fill_buf 8 bs)"
    then have "prefix m' bs"
      unfolding fill_buf_def by (rule prefix_append_zeros) (rule methods_no_zero [OF that])
    then have "strict_prefix m' m" using bs(1) by (rule prefix_order.le_less_trans)
    with methods_prefix_free [OF m that] show False ..
  qed
  moreover have "hd (fill_buf 8 bs) = hd m"
    using bs by (auto simp: fill_buf_def strict_prefix_def prefix_def)
  ultimately show ?thesis
    using http_methods_not_socks [OF m] bs(2)
    by (auto simp: detect_protocol_def is_http_method_prefix_iff hd_conv_nth fill_buf_def)
qed

text \<open>A method with its space is HTTP, whatever follows it in the buffer.\<close>

lemma detect_http_prefix:
  assumes "m \<in> set http_methods_wire" "prefix m bs"
  shows "bs \<noteq> [] \<and> detect_protocol (fill_buf 8 bs) = Detected_Http"
proof -
  have m: "m \<noteq> []" using http_methods_length [OF assms(1)] by simp
  with assms(2) have bs: "bs \<noteq> []" "hd bs = hd m" by (auto simp: prefix_def)
  have "prefix m (fill_buf 8 bs)" using assms(2) by (auto simp: fill_buf_def prefix_def)
  with bs http_methods_not_socks [OF assms(1)] assms(1) show ?thesis
    by (auto simp: detect_protocol_def is_http_method_prefix_iff fill_buf_def hd_conv_nth nth_append)
qed

section \<open>Properties\<close>

text \<open>
  C37: Detection decides by the first bytes: 5 is SOCKS5, a complete HTTP method name with its
  space or a proper beginning of one is HTTP, anything else and no bytes at all are unknown;
  the cases exclude each other, and the first eight bytes decide as the whole stream would.
\<close>

theorem detect_protocol_spec:
  "(detect_protocol bs = Detected_Socks5 \<longleftrightarrow> bs \<noteq> [] \<and> hd bs = 0x05) \<and>
   (detect_protocol bs = Detected_Http \<longleftrightarrow>
      bs \<noteq> [] \<and> (\<exists>m \<in> set http_methods_wire. prefix m bs \<or> strict_prefix bs m)) \<and>
   (8 \<le> length bs \<longrightarrow> detect_protocol (take 8 bs) = detect_protocol bs)"
proof -
  have "hd bs \<noteq> 0x05" if "bs \<noteq> []" "m \<in> set http_methods_wire" "prefix m bs \<or> strict_prefix bs m" for m
  proof -
    have "hd bs = hd m"
      using that http_methods_length [OF that(2)] by (auto simp: strict_prefix_def prefix_def)
    with http_methods_not_socks [OF that(2)] show ?thesis by simp
  qed
  then have "detect_protocol bs = Detected_Http \<longleftrightarrow>
      bs \<noteq> [] \<and> (\<exists>m \<in> set http_methods_wire. prefix m bs \<or> strict_prefix bs m)"
    by (auto simp: detect_protocol_def is_http_method_prefix_iff hd_conv_nth)
  moreover have "detect_protocol bs = Detected_Socks5 \<longleftrightarrow> bs \<noteq> [] \<and> hd bs = 0x05"
    by (simp add: detect_protocol_def hd_conv_nth)
  ultimately show ?thesis by (simp add: detect_take8)
qed

theorem detect_protocol_spec_witness:
  "detect_protocol (as_bytes ''CONNECT example.org'') = Detected_Http \<and>
   detect_protocol (take 8 (as_bytes ''CONNECT example.org'')) = detect_protocol (as_bytes ''CONNECT example.org'')"
proof -
  have "as_bytes ''CONNECT '' \<in> set http_methods_wire" "prefix (as_bytes ''CONNECT '') (as_bytes ''CONNECT example.org'')"
    by (simp_all add: http_methods_wire_def as_bytes_def)
  moreover have "as_bytes ''CONNECT example.org'' \<noteq> []" "8 \<le> length (as_bytes ''CONNECT example.org'')"
    by (simp_all add: as_bytes_def)
  ultimately show ?thesis using detect_protocol_spec [of "as_bytes ''CONNECT example.org''"] by blast
qed

text \<open>
  C38: The server asks for detection on eight bytes of which only the ones that have arrived are
  the client's, the rest are zero.  A client whose first segment is a proper beginning of a
  method name (of at most seven bytes) is therefore dropped, although \<open>detect_protocol\<close> on the
  bytes that have arrived says HTTP.
\<close>

theorem short_first_segment_dropped:
  assumes "m \<in> set http_methods_wire" "strict_prefix bs m" "bs \<noteq> []"
    and "peek_of E 8 (client w) = (Inr bs, client w)"
  shows "handle_connection E (Plain w) = (w, None) \<and> detect_protocol bs = Detected_Http"
proof
  show "handle_connection E (Plain w) = (w, None)"
    using assms(3,4) padded_not_http [OF assms(1-3)]
    by (simp add: handle_connection_def detect_connection_def client_peek_def)
  have "hd bs = hd m" using assms by (auto simp: strict_prefix_def prefix_def)
  then show "detect_protocol bs = Detected_Http"
    using assms http_methods_not_socks [OF assms(1)]
    by (auto simp: detect_protocol_def is_http_method_prefix_iff hd_conv_nth)
qed

theorem short_first_segment_dropped_witness:
  "handle_connection sample_env (Plain (sample_session (as_bytes ''GET''))) = (sample_session (as_bytes ''GET''), None) \<and>
   detect_protocol (as_bytes ''GET'') = Detected_Http"
proof -
  have "as_bytes ''GET '' \<in> set http_methods_wire" "strict_prefix (as_bytes ''GET'') (as_bytes ''GET '')"
    "as_bytes ''GET'' \<noteq> []"
    by (simp_all add: http_methods_wire_def as_bytes_def)
  moreover have "peek_of sample_env 8 (client (sample_session (as_bytes ''GET''))) =
      (Inr (as_bytes ''GET''), client (sample_session (as_bytes ''GET'')))"
    using conn_peek_healthy [of "peer_sends (as_bytes ''GET'')" 8]
    by (simp add: sample_env_def as_bytes_def)
  ultimately show ?thesis by (rule short_first_segment_dropped)
qed

text \<open>
  C31: The server is an open SOCKS5 proxy.  On a listener without TLS, a client that offers no
  authentication and asks for any reachable address is connected to it, whatever the
  configuration says about access, users or upstreams: the connection task gets no part of it.
\<close>

theorem server_open_proxy:
  assumes "peek_of E = conn_peek" "stream E = conn_ops"
    and "conn_healthy (client w)"
    and "conn_pending (client w) = methods_wire [0x00] @ request_wire rsv req @ rest"
    and "wf_target (target req)" "short_target (target req)" "command req = Connect"
    and "dial (network_of E) (request_addr req) (net w) = (Inr t, n)"
  shows "\<exists>c. connection_task E tls_accept None w = (snd (tunnel_copy (session_of E) t (w\<lparr>client := c, net := n\<rparr>)), None) \<and>
    conn_pending c = rest \<and> tx_bytes c = tx_bytes (client w) @ [0x05, 0x00] @ reply_bytes 0x00"
proof -
  have adm: "admitted None (methods_wire [0x00] @ request_wire rsv req) req"
    unfolding admitted_def by (simp, intro exI [of _ "[0x00]"] exI [of _ rsv]) auto
  have p: "conn_pending (client w) = (methods_wire [0x00] @ request_wire rsv req) @ rest"
    using assms(4) by simp
  from session_connect_dialled [OF assms(3) p adm assms(5-8), of "session_of E"] obtain c where
    c: "conn_pending c = rest" "tx_bytes c = tx_bytes (client w) @ admission_reply None @ reply_bytes 0x00"
    "handle_socks5_inner conn_ops (network_of E) (session_of E) None w =
       tunnel_copy (session_of E) t (w\<lparr>client := c, net := n\<rparr>)" by auto
  have "conn_pending (client w) = 0x05 # (len_byte 1 # 0x00 # request_wire rsv req @ rest)"
    using assms(4) by (simp add: methods_wire_def)
  from handle_connection_socks [OF assms(1,3) this] c(3)
  have "connection_task E tls_accept None w = (snd (tunnel_copy (session_of E) t (w\<lparr>client := c, net := n\<rparr>)), None)"
    by (auto simp: connection_task_def handle_socks5_def assms(2) split: prod.splits sum.splits)
  with c show ?thesis by (auto simp: admission_reply_def)
qed

theorem server_open_proxy_witness:
  "\<exists>c. connection_task sample_env (\<lambda>a s. Inl ''unused'') (None :: nat option)
      (sample_session (methods_wire [0x00] @ request_wire 0 sample_request @ [1])) =
      (snd (tunnel_copy sample_ops (peer_sends [])
        (sample_session (methods_wire [0x00] @ request_wire 0 sample_request @ [1])
          \<lparr>client := c, net := sample_net\<lparr>dial_log := [''example.org:443'']\<rparr>\<rparr>)), None) \<and>
    conn_pending c = [1]"
proof -
  let ?w = "sample_session (methods_wire [0x00] @ request_wire 0 sample_request @ [1])"
  have e: "peek_of sample_env = conn_peek" "stream sample_env = conn_ops" by (simp_all add: sample_env_def)
  have h: "conn_healthy (client ?w)"
    and p: "conn_pending (client ?w) = methods_wire [0x00] @ request_wire 0 sample_request @ [1]" by simp_all
  have d: "dial (network_of sample_env) (request_addr sample_request) (net ?w) =
      (Inr (peer_sends []), sample_net\<lparr>dial_log := [''example.org:443'']\<rparr>)"
    by (simp add: sample_env_def sample_dial)
  have x: "session_of sample_env = sample_ops" by (simp add: sample_env_def)
  from server_open_proxy [OF e h p sample_request_simps(2,3,1) d, where tls_accept = "\<lambda>a s. Inl ''unused''"] show ?thesis
    unfolding x by blast
qed

text \<open>
  C32: The server is an open HTTP proxy.  Whatever listener a client comes through (a plain one
  where its first bytes are an HTTP method, or one with TLS), and whatever credentials its
  requests carry or lack, each request makes the server dial the host and port of its URI, or
  of its CONNECT authority, in the order of the requests and nothing else, until the requests
  end, one opens a tunnel, or one fails.  No part of the configuration takes part in it.
\<close>

theorem server_open_http:
  assumes "http_server (serve_of E) requests respond"
    and "(acceptor = None \<and> t = client w \<and> peek_of E 8 (client w) = (Inr bs, client w) \<and>
          m \<in> set http_methods_wire \<and> prefix m bs) \<or>
         (\<exists>a. acceptor = Some a \<and> tls_accept a (client w) = Inr t)"
  shows "\<exists>k. stops (network_of E) (http_client_of E) (to_lowercase E) (requests t) (net w) k \<and>
    net (connection_and_tunnel E tls_accept acceptor w) =
      fold (dial_for (network_of E)) (take k (requests t)) (net w)"
proof -
  have "connection_task E tls_accept acceptor w = snd (handle_http (serve_of E) (network_of E)
      (http_client_of E) (to_lowercase E) (w\<lparr>client := t\<rparr>))"
    using assms(2)
  proof
    assume plain: "acceptor = None \<and> t = client w \<and> peek_of E 8 (client w) = (Inr bs, client w) \<and>
        m \<in> set http_methods_wire \<and> prefix m bs"
    then have "detect_connection E (Plain w) = (Some Detected_Http, Plain w)"
      using detect_http_prefix [of m bs] by (auto simp: detect_connection_def client_peek_def)
    with plain show ?thesis by (simp add: connection_task_def handle_connection_def)
  next
    assume "\<exists>a. acceptor = Some a \<and> tls_accept a (client w) = Inr t"
    then show ?thesis
      by (auto simp: connection_task_def handle_connection_def detect_connection_def handle_http_generic_eq)
  qed
  with http_server.handle_http_net [OF assms(1), of "network_of E" "http_client_of E" "to_lowercase E"
      "w\<lparr>client := t\<rparr>" "session_of E"]
  show ?thesis by (simp add: connection_and_tunnel_def case_prod_beta)
qed

text \<open>Two requests without credentials through a listener with TLS.\<close>

definition web_request :: "string \<Rightarrow> http_request" where
  "web_request host = \<lparr>req_method = ''GET'', uri_authority = Some host, uri_host = Some host,
     uri_port = None, uri_path_and_query = Some ''/'', req_version = ''HTTP/1.1'',
     req_headers = [], req_body = []\<rparr>"

definition web_env :: "(http_peer, http_peer, http_peer table_net) connection_env" where
  "web_env = \<lparr>stream = \<lparr>read_exact = (\<lambda>n s. (Inl [], s)), timeout_read_exact = (\<lambda>t n s. (None, s)),
       read_some = (\<lambda>n s. (Inl [], s)), write_all = (\<lambda>bs s. (Inr (), s))\<rparr>,
     network_of = table_network,
     session_of = \<lparr>copy_bidirectional = (\<lambda>c t. (Inr (0, 0), c, t)), udp_associate = (\<lambda>r. ret ())\<rparr>,
     peek_of = (\<lambda>n p. (Inr (as_bytes ''GET http''), p)), serve_of = scripted_serve,
     http_client_of = \<lparr>client_handshake = Inr, send_request = (\<lambda>req s. Inr (plain_response 200 ''hi''))\<rparr>,
     to_lowercase = ascii_lower\<rparr>"

definition web_session :: "(http_peer, http_peer, http_peer table_net) session" where
  "web_session = \<lparr>client = \<lparr>to_send = [web_request ''a'', web_request ''b''], got = []\<rparr>,
     net = \<lparr>answers = [(''a:80'', Inr \<lparr>to_send = [], got = []\<rparr>), (''b:80'', Inr \<lparr>to_send = [], got = []\<rparr>)],
            dial_log = []\<rparr>,
     tunnel = None\<rparr>"

lemma web_served:
  "http_service table_network (http_client_of web_env) ascii_lower (web_request ''a'') (net web_session) =
     (Inr (plain_response 200 ''hi'', None), (net web_session)\<lparr>dial_log := [''a:80'']\<rparr>)"
proof -
  have "show_u16 80 = ''80''" by code_simp
  then show ?thesis
    by (simp add: http_service_def proxy_request_def web_request_def web_env_def web_session_def
        direct_connect_def dial_err_def table_network_def table_dial_def host_port_def map_err_def
        match_io_def bind_io_def ret_def lift_sum_def Let_def)
qed

theorem server_open_http_witness:
  "dial_log (net (connection_and_tunnel web_env (\<lambda>a s. Inr s) (Some ()) web_session)) = [''a:80'', ''b:80'']"
proof -
  have e: "network_of web_env = table_network" "to_lowercase web_env = ascii_lower"
    "serve_of web_env = scripted_serve" "to_send (client web_session) = [web_request ''a'', web_request ''b'']"
    by (simp_all add: web_env_def web_session_def)
  have h: "http_server (serve_of web_env) to_send peer_respond"
    unfolding e by (rule scripted.http_server_axioms)
  have "(Some () = None \<and> client web_session = client web_session \<and>
      peek_of web_env 8 (client web_session) = (Inr [], client web_session) \<and>
      [] \<in> set http_methods_wire \<and> prefix [] []) \<or>
     (\<exists>a. Some () = Some a \<and> (\<lambda>a s. Inr s) a (client web_session) = Inr (client web_session))"
    by simp
  from server_open_http [where tls_accept = "\<lambda>a s. Inr s", OF h this] obtain k where
    k: "stops table_network (http_client_of web_env) ascii_lower
        [web_request ''a'', web_request ''b''] (net web_session) k"
      "net (connection_and_tunnel web_env (\<lambda>a s. Inr s) (Some ()) web_session) =
        fold (dial_for table_network) (take k [web_request ''a'', web_request ''b'']) (net web_session)"
    unfolding e by auto
  have "k = 2"
    using k(1) web_served by (auto simp: stops_def web_request_def less_Suc_eq)
  moreover have "show_u16 80 = ''80''" by code_simp
  ultimately show ?thesis
    using k(2) by (simp add: numeral_2_eq_2 dial_for_def request_entry_def web_request_def table_network_def
        table_dial_def host_port_def web_session_def)
qed

text \<open>
  C10: The permits bound the connections that hold one, and nothing else.  In every run of the
  server, permits and connections that hold one add up to the configured maximum, so
  \<open>max_conn - available_permits()\<close> (computed in \<open>usize\<close>) does not wrap and is their number.  But
  an HTTP CONNECT gives its permit back when the connection is upgraded, and its tunnel goes on
  in a task of its own: from every state with an accept loop in its \<open>select!\<close>, any number of
  tunnels more can be running, with no more connections in flight than before.
\<close>

theorem server_capacity:
  assumes "server_run m (server_init m k) evs s"
  shows "in_flight s \<le> m \<and> permits s \<le> m \<and> m - permits s = in_flight s \<and>
    (0 < m \<and> i < length (loops s) \<and> loops s ! i = Selecting b \<longrightarrow>
      (\<forall>n. \<exists>later s'. server_run m s later s' \<and> tunnels s' = tunnels s + n \<and> in_flight s' \<le> in_flight s))"
proof -
  have "capacity_inv m (server_init m k)" by (simp add: capacity_inv_def server_init_def)
  with assms have "capacity_inv m s" by (rule capacity_run)
  with more_tunnels [of m s i b] show ?thesis by (auto simp: capacity_inv_def)
qed

text \<open>One listener, one connection, and Ctrl-C while a second waits for a permit.\<close>

definition busy_run :: "server_event list" where
  "busy_run = [Loop_Start 0, Accept_Ok 0, Permit 0, Accept_Ok 0, Ctrl_C]"

definition busy_state :: server_state where
  "busy_state = \<lparr>loops = [Acquiring], permits = 0, in_flight = 1, tunnels = 0, main = Joining\<rparr>"

lemma busy_prefix:
  "server_run 1 (server_init 1 1) (butlast busy_run) (busy_state\<lparr>main := Serving\<rparr>)"
proof -
  let ?s0 = "server_init 1 1"
  let ?s1 = "set_loop 0 (Selecting False) ?s0"
  let ?s2 = "set_loop 0 Acquiring ?s1"
  let ?s3 = "set_loop 0 (Selecting False) (?s2\<lparr>permits := permits ?s2 - 1, in_flight := in_flight ?s2 + 1\<rparr>)"
  have 1: "server_step 1 ?s0 (Loop_Start 0) ?s1"
    by (rule loop_start) (simp_all add: server_init_def)
  have 2: "server_step 1 ?s1 (Accept_Ok 0) ?s2"
    by (rule accept_ok [where w = False]) (simp_all add: server_init_def)
  have 3: "server_step 1 ?s2 (Permit 0) ?s3"
    by (rule permit) (simp_all add: server_init_def)
  have 4: "server_step 1 ?s3 (Accept_Ok 0) (set_loop 0 Acquiring ?s3)"
    by (rule accept_ok [where w = False]) (simp_all add: server_init_def set_loop_def)
  have "server_run 1 ?s0 [Loop_Start 0, Accept_Ok 0, Permit 0, Accept_Ok 0] (set_loop 0 Acquiring ?s3)"
    by (intro run_step [OF 1] run_step [OF 2] run_step [OF 3] run_step [OF 4] run_done)
  moreover have "set_loop 0 Acquiring ?s3 = busy_state\<lparr>main := Serving\<rparr>"
    by (simp add: busy_state_def server_init_def set_loop_def)
  ultimately show ?thesis by (simp add: busy_run_def)
qed

lemma busy_ctrl_c: "server_step 1 (busy_state\<lparr>main := Serving\<rparr>) Ctrl_C busy_state"
  using ctrl_c [of "busy_state\<lparr>main := Serving\<rparr>" 1] by (simp add: busy_state_def)

lemma busy_run: "server_run 1 (server_init 1 1) busy_run busy_state"
  using busy_prefix busy_ctrl_c life.run_append [of 1 "server_init 1 1" "butlast busy_run" "[Ctrl_C]"]
  by (auto simp: busy_run_def life.run_single)

text \<open>With one permit, five tunnels at once.\<close>

theorem server_capacity_witness:
  "\<exists>s later s'. server_run 1 (server_init 1 1) [Loop_Start 0] s \<and> in_flight s = 1 - permits s \<and>
     server_run 1 s later s' \<and> tunnels s' = 5 \<and> in_flight s' = 0"
proof -
  let ?s = "set_loop 0 (Selecting False) (server_init 1 1)"
  have run: "server_run 1 (server_init 1 1) [Loop_Start 0] ?s"
    unfolding life.run_single by (rule loop_start) (simp_all add: server_init_def)
  note c = server_capacity [OF run, of 0 False]
  from c have "\<exists>later s'. server_run 1 ?s later s' \<and> tunnels s' = tunnels ?s + 5 \<and> in_flight s' \<le> in_flight ?s"
    by (simp add: server_init_def)
  moreover from c have "in_flight ?s = 1 - permits ?s" by simp
  ultimately show ?thesis using run by (fastforce simp: server_init_def)
qed

text \<open>
  C5: The server's life refines a bounded pool: whatever clients, scheduler and signals do, what
  the server does with the connections that hold a permit is a run of a pool that admits a
  member only while it has fewer than \<open>max_conn\<close> and is open, and that is closed, once, when the
  accept loops have been joined.  After that it admits nobody.  A CONNECT leaves the pool when
  its tunnel begins.
\<close>

theorem server_refines_pool:
  assumes "server_run m (server_init m k) evs s"
  shows "pool_run m \<lparr>members = 0, admitting = True\<rparr> (concat (map pool_events evs)) (pool_of s)"
proof -
  have "pool_of (server_init m k) = \<lparr>members = 0, admitting = True\<rparr>"
    by (simp add: pool_of_def server_init_def less_Draining)
  with as_pool.run_refines [OF assms life_inv_init] show ?thesis by simp
qed

theorem server_refines_pool_witness:
  "pool_run 1 \<lparr>members = 0, admitting = True\<rparr> [Admit] \<lparr>members = 1, admitting = True\<rparr>"
  using server_refines_pool [OF busy_run]
  by (simp add: busy_run_def pool_of_def busy_state_def less_Draining)

text \<open>
  C15: The drain ends.  Once \<open>run\<close> waits for its connections, at most one event per connection
  that holds a permit and one more can happen besides the ends of tunnels, in any order and
  whatever the scheduler does, and those of tunnels are as many as there are or connections may
  still become; and until it has ended the next event is possible: a connection that ends, or
  the drain itself when none is left.
\<close>

theorem server_drain_ends:
  assumes "server_run m (server_init m k) evs s" and "main s = Draining"
    and "server_run m s later s'"
  shows "length (filter (\<lambda>ev. ev \<noteq> Tunnel_Done) later) \<le> in_flight s + 1 \<and>
    length later \<le> in_flight s + 1 + tunnels s + in_flight s \<and>
    (main s' = Draining \<longrightarrow>
       (if in_flight s' = 0 then \<exists>s2. server_step m s' Drained s2 else \<exists>s2. server_step m s' Conn_Done s2))"
proof -
  have inv: "life_inv m s" "life_inv m s'"
    using as_pool.run_refines [OF assms(1) life_inv_init] as_pool.run_refines [OF assms(3)] by auto
  then have "drains s" using assms(2) by (simp add: drains_def life_inv_def stopped_from_def)
  from drains_run [OF assms(3) this] drains_run_connections [OF assms(3) this] assms(2)
  have "length (filter (\<lambda>ev. ev \<noteq> Tunnel_Done) later) \<le> in_flight s + 1"
    "length later \<le> in_flight s + 1 + tunnels s + in_flight s"
    by (simp_all add: drain_measure_def tunnel_measure_def)
  moreover have "if in_flight s' = 0 then \<exists>s2. server_step m s' Drained s2
      else \<exists>s2. server_step m s' Conn_Done s2" if "main s' = Draining"
    using drain_progress [OF that inv(2)] by (auto split: if_splits)
  ultimately show ?thesis by blast
qed

text \<open>
  \<open>run\<close>: it panics before it binds anything, or it has started every listener, or it ends with
  the error of the first one that cannot be started.
\<close>

lemma run_outcome:
  assumes "run bind F config w = (r, w')"
  shows "case r of
      Inr (tasks, s) \<Rightarrow> max_conn config \<le> 2 ^ 61 - 1 \<and> listening bind F w (listen (server config)) tasks w' \<and>
        s = server_init (max_conn config) (length (listen (server config)))
    | Inl Run_Panic \<Rightarrow> 2 ^ 61 - 1 < max_conn config \<and> w' = w
    | Inl (Run_Error e) \<Rightarrow> max_conn config \<le> 2 ^ 61 - 1 \<and>
        (\<exists>us cfg vs ts w1. listen (server config) = us @ cfg # vs \<and>
          listening bind F w us ts w1 \<and> not_started bind F w1 cfg e w')"
proof (cases "max_permits < max_conn config")
  case True
  with assms show ?thesis by (auto simp: run_def max_permits_eq)
next
  case False
  obtain q w1 where q: "start_listeners bind F (listen (server config)) w = (q, w1)" by force
  show ?thesis
  proof (cases q)
    case (Inl e)
    with False q assms have "r = Inl (Run_Error e)" "w1 = w'" by (auto simp: run_def)
    with start_listeners_Inl [of bind F "listen (server config)" w e w'] q Inl False show ?thesis
      by (simp add: max_permits_eq)
  next
    case (Inr ts)
    with False q assms have r: "r = Inr (ts, server_init (max_conn config) (length ts))" "w1 = w'"
      by (auto simp: run_def)
    from start_listeners_Inr [of bind F "listen (server config)" w ts w1] q Inr
    have "listening bind F w (listen (server config)) ts w1" by simp
    with False r listening_length [OF this] show ?thesis by (simp add: max_permits_eq)
  qed
qed

text \<open>A configuration with one plain listener, and one whose second address is taken.\<close>

definition start_config :: "listen_config list \<Rightarrow> app_config" where
  "start_config ls =
     \<lparr>server = \<lparr>listen = ls, max_connections = Some 100, tcp_keepalive = None,
        connect_timeout = None, read_timeout = None, write_timeout = None\<rparr>,
      access_control = \<lparr>cfg_default_action = Cfg_Deny, cfg_rules = []\<rparr>, upstream = Direct,
      logging = \<lparr>level = ''info'', access_log = None, log_format = None\<rparr>, metrics = None\<rparr>"

definition bind_once :: "string \<Rightarrow> (string set, string, string) io" where
  "bind_once addr taken =
     (if addr \<in> taken then (Inl ''Address already in use'', taken) else (Inr addr, insert addr taken))"

definition plain_listener :: listen_config where
  "plain_listener = \<lparr>listen_addr = ''0.0.0.0:80'', listen_protocol = Protocol_Http, listen_tls = None\<rparr>"

text \<open>The sections of a configuration that only the library part of the program reads.\<close>

definition other_sections ::
  "access_control_config \<Rightarrow> upstream_config \<Rightarrow> metrics_config option \<Rightarrow> string + app_config \<Rightarrow> string + app_config"
where
  "other_sections a u m r =
     (case r of Inl e \<Rightarrow> Inl e | Inr c \<Rightarrow> Inr (c\<lparr>access_control := a, upstream := u, metrics := m\<rparr>))"

lemma max_conn_other_sections:
  "max_conn (c\<lparr>access_control := a, upstream := u, metrics := m\<rparr>) = max_conn c"
  by (simp add: max_conn_def)

lemma run_other_sections: "run bind F (c\<lparr>access_control := a, upstream := u, metrics := m\<rparr>) = run bind F c"
  unfolding run_def max_conn_other_sections by simp

lemma main_program_other_sections:
  "main_program read_file (\<lambda>text. other_sections a u m (parse_yaml text)) env bind F args =
   main_program read_file parse_yaml env bind F args"
  by (cases "cli_log_level args")
    (auto simp: main_program_def main_start_def load_from_file_def other_sections_def run_other_sections Let_def
      split: sum.split)

text \<open>
  C12: The program, from its command line to its accept loops.  It starts only with a
  configuration file that is read and parsed, with a maximum that tokio's semaphore takes, and then
  with every listener of the configuration, in order: each is what binding its address has
  returned, in the state the one before it has left, with a TLS acceptor made from its
  certificate and key files exactly if it has a TLS section, announced with its address and
  protocol; and the server is in its first state, with an accept loop each and all permits.
  Otherwise it ends: before it binds anything, with the error of the file or the parser, or with
  a panic of the semaphore; or, with the listeners before it bound, at the first one whose address
  cannot be bound or whose identity is not usable, with that error.  And whatever the sections
  for access control, upstream and metrics say, the program starts as it would without them, and
  the \<open>listen\<close> option of the command line is not read either.
\<close>

theorem program_start:
  assumes "main_program read_file parse_yaml env bind F args w = (r, w')"
  shows "(case r of
      Inr (setup, tasks, s) \<Rightarrow> (\<exists>text config. read_file (cli_config args) = Inr text \<and> parse_yaml text = Inr config \<and>
        setup = init_logging env (case cli_log_level args of
          Some l \<Rightarrow> (logging config)\<lparr>level := l\<rparr> | None \<Rightarrow> logging config) \<and>
        max_conn config \<le> 2 ^ 61 - 1 \<and> listening bind F w (listen (server config)) tasks w' \<and>
        s = server_init (max_conn config) (length (listen (server config))))
    | Inl Run_Panic \<Rightarrow> w' = w \<and> (\<exists>text config. read_file (cli_config args) = Inr text \<and>
        parse_yaml text = Inr config \<and> 2 ^ 61 - 1 < max_conn config)
    | Inl (Run_Error e) \<Rightarrow>
        w' = w \<and> (read_file (cli_config args) = Inl e \<or>
          (\<exists>text. read_file (cli_config args) = Inr text \<and> parse_yaml text = Inl e)) \<or>
        (\<exists>text config us cfg vs ts w1. read_file (cli_config args) = Inr text \<and> parse_yaml text = Inr config \<and>
          max_conn config \<le> 2 ^ 61 - 1 \<and> listen (server config) = us @ cfg # vs \<and>
          listening bind F w us ts w1 \<and> not_started bind F w1 cfg e w')) \<and>
    (\<forall>a u m l. main_program read_file (\<lambda>text. other_sections a u m (parse_yaml text)) env bind F
       (args\<lparr>cli_listen := l\<rparr>) w = (r, w'))"
    (is "?outcome \<and> _")
proof (intro conjI allI)
  show "main_program read_file (\<lambda>text. other_sections a u m (parse_yaml text)) env bind F
      (args\<lparr>cli_listen := l\<rparr>) w = (r, w')" for a u m l
    using assms unfolding main_program_other_sections
    by (simp add: main_program_def main_start_ignores_listen)
next
  show ?outcome
  proof (cases "load_from_file read_file parse_yaml (cli_config args)")
    case (Inl e)
    with assms show ?thesis
      by (auto simp: main_program_def main_start_def load_from_file_def split: sum.splits)
  next
    case (Inr config)
    then obtain content where content: "read_file (cli_config args) = Inr content" "parse_yaml content = Inr config"
      by (auto simp: load_from_file_def split: sum.splits)
    obtain q w1 where q: "run bind F config w = (q, w1)" by force
    have "w1 = w'" using assms q Inr
      by (auto simp: main_program_def main_start_def bind_io_def ret_def Let_def split: sum.splits)
    moreover have "r = (case q of Inl e \<Rightarrow> Inl e | Inr (tasks, s) \<Rightarrow> Inr (init_logging env (case cli_log_level args of
          Some l \<Rightarrow> (logging config)\<lparr>level := l\<rparr> | None \<Rightarrow> logging config), tasks, s))"
      using assms q Inr by (auto simp: main_program_def main_start_def bind_io_def ret_def Let_def split: sum.splits)
    ultimately show ?thesis
      using run_outcome [OF q] content by (auto split: sum.splits run_failure.splits)
  qed
qed

text \<open>
  A plain listener and one with TLS, in a configuration that is parsed from any text: both are
  bound, and the second has the acceptor of its files.
\<close>

definition tls_listener :: listen_config where
  "tls_listener = \<lparr>listen_addr = ''0.0.0.0:443'', listen_protocol = Protocol_Http,
     listen_tls = Some \<lparr>cert = ''cert.pem'', key = ''key.pem''\<rparr>\<rparr>"

definition some_files :: "(string, string, string, string list \<times> string) tls_files" where
  "some_files = \<lparr>open_file = Inr, pem_certs = (\<lambda>f. Inr [f]), pem_private_key = (\<lambda>f. Inr (Some f)),
     build_acceptor = (\<lambda>cs k. Inr (cs, k))\<rparr>"

theorem program_start_witness:
  "\<exists>setup t1 t2 s. main_program (\<lambda>path. Inr []) (\<lambda>text. Inr (start_config [plain_listener, tls_listener])) None
       bind_once some_files \<lparr>cli_config = ''config.yaml'', cli_listen = None, cli_log_level = None\<rparr> {} =
       (Inr (setup, [t1, t2], s), {''0.0.0.0:80'', ''0.0.0.0:443''}) \<and>
     listener_of t1 = ''0.0.0.0:80'' \<and> acceptor_of t1 = None \<and>
     listener_of t2 = ''0.0.0.0:443'' \<and> acceptor_of t2 = Some ([''cert.pem''], ''key.pem'') \<and> s = server_init 100 2"
proof -
  let ?ls = "[plain_listener, tls_listener]"
  let ?run = "main_program (\<lambda>path. Inr []) (\<lambda>text. Inr (start_config ?ls)) None bind_once some_files
     \<lparr>cli_config = ''config.yaml'', cli_listen = None, cli_log_level = None\<rparr> {}"
  have m: "max_conn (start_config ?ls) = 100" by (simp add: max_conn_def start_config_def)
  have ls: "listen (server (start_config ?ls)) = ?ls" by (simp add: start_config_def)
  have "\<exists>setup t1 t2 s. ?run = (Inr (setup, [t1, t2], s), {''0.0.0.0:80'', ''0.0.0.0:443''})"
    using m
    by (auto simp: main_program_def main_start_def load_from_file_def Let_def bind_io_def ret_def lift_sum_def run_def
        max_permits_eq start_config_def start_listener_def bind_once_def plain_listener_def tls_listener_def
        load_tls_acceptor_def some_files_def map_err_def ok_or_def)
  then obtain l t1 t2 s where run: "?run = (Inr (l, [t1, t2], s), {''0.0.0.0:80'', ''0.0.0.0:443''})" by blast
  from program_start [OF run] have "listening bind_once some_files {} ?ls [t1, t2] {''0.0.0.0:80'', ''0.0.0.0:443''}"
    "s = server_init 100 2"
    using m ls by (simp_all add: numeral_2_eq_2)
  then have "listener_of t1 = ''0.0.0.0:80'' \<and> acceptor_of t1 = None \<and>
      listener_of t2 = ''0.0.0.0:443'' \<and> acceptor_of t2 = Some ([''cert.pem''], ''key.pem'')"
    by (auto simp: listening_Nil listening_Cons started_for_def bind_once_def plain_listener_def tls_listener_def
        tls_identity_def some_files_def split: option.splits)
  with run \<open>s = server_init 100 2\<close> show ?thesis by blast
qed

text \<open>
  C33: A shutdown can be lost.  If, when Ctrl-C arrives, an accept loop is not in its \<open>select!\<close>
  (because it waits for a permit at full capacity, or has not started), then in every
  continuation, however many connections end, the loop goes on accepting and the server never
  gets past waiting for its accept loops: it neither drains nor exits.
\<close>

theorem server_shutdown_lost:
  assumes "server_run m (server_init m k) evs s" and "server_step m s Ctrl_C s1"
    and "i < length (loops s)" "loops s ! i = Acquiring \<or> loops s ! i = Starting"
    and "server_run m s1 later s'"
  shows "main s' = Joining \<and> loops s' ! i \<noteq> Stopped"
proof -
  have "missed i s1"
    using assms(2-4) by (auto elim!: server_stepE simp: missed_def)
  from missed_run [OF assms(5) this] show ?thesis by (auto simp: missed_def)
qed

theorem server_shutdown_lost_witness:
  "\<exists>s s1 s'. server_run 1 (server_init 1 1) (butlast busy_run) s \<and> server_step 1 s Ctrl_C s1 \<and>
     server_run 1 s1 [Conn_Done, Permit 0] s' \<and> main s' = Joining \<and> loops s' ! 0 \<noteq> Stopped"
proof -
  let ?s = "busy_state\<lparr>main := Serving\<rparr>"
  let ?t = "busy_state\<lparr>permits := 1, in_flight := 0\<rparr>"
  have d: "server_step 1 busy_state Conn_Done ?t"
    using conn_done [of busy_state 1] by (simp add: busy_state_def)
  have p: "server_step 1 ?t (Permit 0) (set_loop 0 (Selecting False) (?t\<lparr>permits := 0, in_flight := 1\<rparr>))"
    using permit [of 0 ?t 1] by (simp add: busy_state_def)
  have later: "server_run 1 busy_state [Conn_Done, Permit 0]
      (set_loop 0 (Selecting False) (?t\<lparr>permits := 0, in_flight := 1\<rparr>))"
    by (rule run_step [OF d run_step [OF p run_done]])
  have "0 < length (loops ?s)" "loops ?s ! 0 = Acquiring \<or> loops ?s ! 0 = Starting"
    by (simp_all add: busy_state_def)
  from server_shutdown_lost [OF busy_prefix busy_ctrl_c this later] busy_prefix busy_ctrl_c later
  show ?thesis by blast
qed

text \<open>
  An orderly end.  If Ctrl-C arrives while every accept loop is in its \<open>select!\<close>, the
  notification can reach them all, and the server gets past joining them with every loop
  stopped.
\<close>

lemma server_shutdown_idle:
  assumes "\<forall>l \<in> set (loops s). \<exists>w. l = Selecting w" and "server_step m s Ctrl_C s1"
  shows "\<exists>evs s2. server_run m s1 evs s2 \<and> (main s2 = Draining \<or> main s2 = Exited) \<and>
      (\<forall>l \<in> set (loops s2). l = Stopped)"
proof -
  from assms(2) have s1: "s1 = s\<lparr>main := Joining, loops := map notify (loops s)\<rparr>"
    by (auto elim: server_stepE)
  let ?n = "length (loops s)"
  have "\<forall>l \<in> set (map notify (loops s)). l = Selecting True" using assms(1) by auto
  from notice_all [OF this, where m = m and s = s1 and us = "[]"] have
    r: "server_run m s1 (map Notice [0 ..< ?n]) (s1\<lparr>loops := replicate ?n Stopped\<rparr>)"
    by (simp add: s1)
  let ?s2 = "s1\<lparr>loops := replicate ?n Stopped\<rparr>"
  let ?s3 = "?s2\<lparr>main := (if 0 < m - permits ?s2 then Draining else Exited)\<rparr>"
  have "server_step m ?s2 Joined ?s3" by (rule joined) (auto simp: s1)
  with r have "server_run m s1 (map Notice [0 ..< ?n] @ [Joined]) ?s3"
    unfolding life.run_append life.run_single by blast
  moreover have "(main ?s3 = Draining \<or> main ?s3 = Exited) \<and> (\<forall>l \<in> set (loops ?s3). l = Stopped)"
    by simp
  ultimately show ?thesis by blast
qed

lemma server_shutdown_idle_witness:
  "\<exists>evs s2. server_run 5 (\<lparr>loops = [Selecting True], permits = 5, in_flight = 0, tunnels = 0, main = Joining\<rparr>) evs s2 \<and>
     (main s2 = Draining \<or> main s2 = Exited)"
proof -
  let ?s = "\<lparr>loops = [Selecting False], permits = 5, in_flight = 0, tunnels = 0, main = Serving\<rparr>"
  have c: "server_step 5 ?s Ctrl_C (\<lparr>loops = [Selecting True], permits = 5, in_flight = 0, tunnels = 0, main = Joining\<rparr>)"
    using ctrl_c [of ?s 5] by simp
  have "\<forall>l \<in> set (loops ?s). \<exists>w. l = Selecting w" by auto
  from server_shutdown_idle [OF this c] show ?thesis by blast
qed

text \<open>
  C34: When the drain ends by itself, not by its timeout, no connection that holds a permit is left
  and no loop accepts any more, and it stays so until the process exits.  But tunnels are not
  drained: they are as many as before, the same drain ends with any number of them, and no new
  ones begin; those that are left are cut off with the process.  \<open>max_conn\<close> is below 2^32, since the
  drain asks for \<open>max_conn as u32\<close> permits.
\<close>

theorem server_drained:
  assumes "server_run m (server_init m k) evs s" and "server_step m s Drained s1" and "m < 2 ^ 32"
    and "server_run m s1 later s'"
  shows "main s' = Exited \<and> in_flight s' = 0 \<and> (\<forall>l \<in> set (loops s'). l = Stopped) \<and>
    tunnels s1 = tunnels s \<and> tunnels s' \<le> tunnels s \<and>
    (\<forall>n. server_step m (s\<lparr>tunnels := n\<rparr>) Drained (s1\<lparr>tunnels := n\<rparr>))"
proof -
  have "capacity_inv m (server_init m k)" "stopped_from (server_init m k)"
    by (simp_all add: capacity_inv_def stopped_from_def server_init_def)
  with assms(1) have "capacity_inv m s" "stopped_from s"
    by (blast intro: life.run_keeps capacity_step stopped_from_step)+
  with assms(2,3) have "quiet s1" "main s1 = Exited"
    by (auto simp: drained_iff capacity_inv_def stopped_from_def all_stopped_def quiet_def)
  moreover from quiet_tunnels [OF assms(4) \<open>quiet s1\<close>] have "quiet s'" "tunnels s' \<le> tunnels s1" by simp_all
  moreover have "tunnels s1 = tunnels s" "server_step m (s\<lparr>tunnels := n\<rparr>) Drained (s1\<lparr>tunnels := n\<rparr>)" for n
    using assms(2) by (auto simp: drained_iff)
  ultimately show ?thesis using exited_run [OF assms(4)] by (simp add: quiet_def all_stopped_set)
qed

text \<open>A run in which one connection is drained.\<close>

lemma drain_run:
  "server_run 1 (server_init 1 1)
     [Loop_Start 0, Accept_Ok 0, Permit 0, Ctrl_C, Notice 0, Joined, Conn_Done]
     \<lparr>loops = [Stopped], permits = 1, in_flight = 0, tunnels = 0, main = Draining\<rparr>"
proof -
  let ?s0 = "server_init 1 1"
  let ?s1 = "\<lparr>loops = [Selecting False], permits = 1, in_flight = 0, tunnels = 0, main = Serving\<rparr>"
  let ?s2 = "?s1\<lparr>loops := [Acquiring]\<rparr>"
  let ?s3 = "?s1\<lparr>permits := 0, in_flight := 1\<rparr>"
  let ?s4 = "?s3\<lparr>loops := [Selecting True], main := Joining\<rparr>"
  let ?s5 = "?s4\<lparr>loops := [Stopped]\<rparr>"
  let ?s6 = "?s5\<lparr>main := Draining\<rparr>"
  have 1: "server_step 1 ?s0 (Loop_Start 0) ?s1"
    using loop_start [of 0 ?s0 1] by (simp add: server_init_def set_loop_def)
  have 2: "server_step 1 ?s1 (Accept_Ok 0) ?s2"
    using accept_ok [of 0 ?s1 False 1] by (simp add: set_loop_def)
  have 3: "server_step 1 ?s2 (Permit 0) ?s3"
    using permit [of 0 ?s2 1] by (simp add: set_loop_def)
  have 4: "server_step 1 ?s3 Ctrl_C ?s4" using ctrl_c [of ?s3 1] by simp
  have 5: "server_step 1 ?s4 (Notice 0) ?s5" using notice [of 0 ?s4 1] by (simp add: set_loop_def)
  have 6: "server_step 1 ?s5 Joined ?s6" using joined [of ?s5 1] by simp
  have 7: "server_step 1 ?s6 Conn_Done \<lparr>loops = [Stopped], permits = 1, in_flight = 0, tunnels = 0, main = Draining\<rparr>"
    using conn_done [of ?s6 1] by simp
  show ?thesis
    by (rule run_step [OF 1 run_step [OF 2 run_step [OF 3 run_step [OF 4 run_step [OF 5 run_step [OF 6
          run_step [OF 7 run_done]]]]]]])
qed

theorem server_drain_ends_witness:
  "server_run 1 \<lparr>loops = [Stopped], permits = 1, in_flight = 0, tunnels = 0, main = Draining\<rparr> [Drained]
     \<lparr>loops = [Stopped], permits = 1, in_flight = 0, tunnels = 0, main = Exited\<rparr> \<and>
   (\<forall>ev s'. \<not> server_run 1 \<lparr>loops = [Stopped], permits = 1, in_flight = 0, tunnels = 0, main = Draining\<rparr> [Drained, ev] s')"
proof -
  let ?s = "\<lparr>loops = [Stopped], permits = 1, in_flight = 0, tunnels = 0, main = Draining\<rparr>"
  have "server_run 1 ?s [Drained] (?s\<lparr>main := Exited\<rparr>)"
    unfolding life.run_single by (rule drained) simp_all
  moreover have "length later \<le> 1" if "server_run 1 ?s later s'" for later s'
    using server_drain_ends [OF drain_run _ that] by simp
  from this [of "[Drained, _]"] have "\<not> server_run 1 ?s [Drained, ev] s'" for ev s'
    by fastforce
  ultimately show ?thesis by simp
qed

text \<open>A drain that ends while seven tunnels are running.\<close>

theorem server_drained_witness:
  "\<exists>s1 s2. server_step 1 \<lparr>loops = [Stopped], permits = 1, in_flight = 0, tunnels = 0, main = Draining\<rparr> Drained s1 \<and>
     main s1 = Exited \<and> in_flight s1 = 0 \<and> (\<forall>l \<in> set (loops s1). l = Stopped) \<and>
     server_step 1 \<lparr>loops = [Stopped], permits = 1, in_flight = 0, tunnels = 7, main = Draining\<rparr> Drained s2 \<and>
     tunnels s2 = 7"
proof -
  let ?s = "\<lparr>loops = [Stopped], permits = 1, in_flight = 0, tunnels = 0, main = Draining\<rparr>"
  have d: "server_step 1 ?s Drained (?s\<lparr>main := Exited\<rparr>)" by (rule drained) simp_all
  note c = server_drained [OF drain_run d _ run_done]
  have "server_step 1 (?s\<lparr>tunnels := 7\<rparr>) Drained (?s\<lparr>main := Exited, tunnels := 7\<rparr>)" using c by simp
  with c d show ?thesis
    by (intro exI [of _ "?s\<lparr>main := Exited\<rparr>"] exI [of _ "?s\<lparr>main := Exited, tunnels := 7\<rparr>"]) simp
qed

end
