(* ===== verification/Http_Properties.thy ===== *)
theory Http_Properties
  imports Http_Connection Base64_Ref Scripted_Stream
begin

text \<open>
  The properties of the HTTP side: what is forwarded, what a client of CONNECT is told, and
  whom the (unused) check of proxy credentials accepts.
\<close>

section \<open>Samples\<close>

definition sample_get :: http_request where
  "sample_get = \<lparr>req_method = ''GET'', uri_authority = Some ''example.org:80'',
     uri_host = Some ''example.org'', uri_port = Some 80, uri_path_and_query = Some ''/a?b'',
     req_version = ''HTTP/1.1'',
     req_headers = [(''accept'', as_bytes ''*/*''), (''proxy-authorization'', as_bytes ''Basic eDp5''),
       (''connection'', as_bytes ''close'')],
     req_body = []\<rparr>"

definition sample_http_net :: "conn table_net" where
  "sample_http_net = \<lparr>answers = [(''example.org:80'', Inr (peer_sends []))], dial_log = []\<rparr>"

definition sample_client :: "conn http_client" where
  "sample_client = \<lparr>client_handshake = Inr,
     send_request = (\<lambda>req s. Inr (plain_response 200 (req_method req)))\<rparr>"

lemma sample_http_dial:
  "dial table_network (host_port ''example.org'' 80) sample_http_net =
     (Inr (peer_sends []), sample_http_net\<lparr>dial_log := [''example.org:80'']\<rparr>)"
proof -
  have "host_port ''example.org'' 80 = ''example.org:80''" by code_simp
  then show ?thesis by (simp add: table_network_def table_dial_def sample_http_net_def)
qed

lemma hop_by_hop_ascii:
  "agrees_on_ascii lower ascii_lower \<Longrightarrow> is_ascii k \<Longrightarrow>
     is_hop_by_hop lower k \<longleftrightarrow> ascii_lower k \<in> set hop_by_hop_headers"
  by (simp add: is_hop_by_hop_def agrees_on_asciiD)

lemma filter_hop_by_hop:
  assumes "agrees_on_ascii lower ascii_lower" "\<forall>(k, v) \<in> set hs. is_ascii k"
  shows "filter (\<lambda>(k, v). \<not> is_hop_by_hop lower k) hs =
    filter (\<lambda>(k, v). ascii_lower k \<notin> set hop_by_hop_headers) hs"
  using assms(2) by (intro filter_cong refl) (auto simp: hop_by_hop_ascii [OF assms(1)])

section \<open>Properties\<close>

text \<open>
  C16: A request for a reachable host is forwarded once, to the host and port of its URI (80
  without a port): same method, version and body, the path and query or \<open>/\<close>, and its headers
  in order without the hop-by-hop ones in any letter case, so that the proxy's credentials
  never leave it; a host header is added when there is none.  The client gets the answer.
\<close>

theorem http_forwards_request:
  assumes "agrees_on_ascii lower ascii_lower" and "\<forall>(k, v) \<in> set (req_headers req). is_ascii k"
    and "uri_host req = Some host" and "port = (case uri_port req of Some p \<Rightarrow> p | None \<Rightarrow> 80)"
    and "dial N (host_port host port) n = (Inr s, n')" and "client_handshake C s = Inr s1"
    and "fwd = \<lparr>req_method = req_method req, uri_authority = None, uri_host = None, uri_port = None,
          uri_path_and_query = Some (case uri_path_and_query req of Some pq \<Rightarrow> pq | None \<Rightarrow> ''/''),
          req_version = req_version req,
          req_headers = filter (\<lambda>(k, v). ascii_lower k \<notin> set hop_by_hop_headers) (req_headers req) @
            (if \<exists>v. (''host'', v) \<in> set (req_headers req) then [] else [(''host'', as_bytes (host_port host port))]),
          req_body = req_body req\<rparr>"
  shows "proxy_request N C lower req n = (send_request C fwd s1, n')"
proof -
  have host: "list_ex (\<lambda>(k, v). k = ''host'') (req_headers req) \<longleftrightarrow> (\<exists>v. (''host'', v) \<in> set (req_headers req))"
    by (auto simp: list_ex_iff)
  have "forward_request lower req host port = fwd"
    unfolding forward_request_def Let_def host copy_headers_eq assms(7)
    by (simp add: filter_hop_by_hop [OF assms(1,2)])
  moreover have "direct_connect N (Address host port) n = (Inr s, n')"
    using assms(5) by (simp add: direct_connect_def dial_err_def)
  ultimately show ?thesis
    using assms(3,4,6) by (simp add: proxy_request_def Let_def)
qed

theorem http_forwards_request_witness:
  "proxy_request table_network sample_client ascii_lower sample_get sample_http_net =
     (Inr (plain_response 200 ''GET''), sample_http_net\<lparr>dial_log := [''example.org:80'']\<rparr>) \<and>
   filter (\<lambda>(k, v). ascii_lower k \<notin> set hop_by_hop_headers) (req_headers sample_get) = [(''accept'', as_bytes ''*/*'')]"
proof -
  have a: "\<forall>(k, v) \<in> set (req_headers sample_get). is_ascii k"
    by (simp add: sample_get_def is_ascii_def)
  have h: "uri_host sample_get = Some ''example.org''" by (simp add: sample_get_def)
  have p: "80 = (case uri_port sample_get of Some p \<Rightarrow> p | None \<Rightarrow> 80)" by (simp add: sample_get_def)
  have c: "client_handshake sample_client (peer_sends []) = Inr (peer_sends [])" by (simp add: sample_client_def)
  have "filter (\<lambda>(k, v). ascii_lower k \<notin> set hop_by_hop_headers) (req_headers sample_get) = [(''accept'', as_bytes ''*/*'')]"
    by code_simp
  moreover have "proxy_request table_network sample_client ascii_lower sample_get sample_http_net =
     (Inr (plain_response 200 ''GET''), sample_http_net\<lparr>dial_log := [''example.org:80'']\<rparr>)"
    using http_forwards_request [OF agrees_on_ascii_refl a h p sample_http_dial c refl]
    by (simp add: sample_client_def) (simp add: sample_get_def)
  ultimately show ?thesis by blast
qed

text \<open>
  The proxy's own answers: a request without a host in its URI gets 400 and dials nothing; a
  host that cannot be reached gets 502 with the error's text, and nothing is sent.
\<close>

lemma http_error_responses:
  "(uri_host req = None \<longrightarrow>
      proxy_request N C lower req n = (Inr (plain_response 400 ''Missing host in request URI''), n)) \<and>
   (uri_host req = Some host \<and>
      dial N (host_port host (case uri_port req of Some p \<Rightarrow> p | None \<Rightarrow> 80)) n = (Inl e, n') \<longrightarrow>
      proxy_request N C lower req n =
        (Inr (plain_response 502 (''Failed to connect to upstream: IO error: '' @ e)), n'))"
  by (auto simp: proxy_request_def Let_def direct_connect_def dial_err_def)

lemma http_error_responses_witness:
  "proxy_request table_network sample_client ascii_lower (sample_get\<lparr>uri_host := None\<rparr>) sample_http_net =
     (Inr (plain_response 400 ''Missing host in request URI''), sample_http_net)"
  using http_error_responses [of "sample_get\<lparr>uri_host := None\<rparr>" table_network sample_client ascii_lower sample_http_net]
  by simp

lemma parse_host_port_last:
  "CHR '':'' \<notin> set ps \<Longrightarrow>
   parse_host_port (h @ '':'' @ ps) = map_option (Pair h) (parse_u16 ps)"
  using rfind_char_append [of "CHR '':''" ps h]
  by (simp add: parse_host_port_def Let_def split: option.split)

text \<open>
  C35: CONNECT is answered before it is tried, and the connection is over before the dial.  For a
  client whose first request is a CONNECT, whatever its destination, \<open>handle_http\<close> sends 200, has
  not touched the network, and returns (its permit with it), leaving the tunnel to a task.  The
  task dials the host and the port of the authority; port 443 and the whole authority as the
  host if it has no colon, and also if what follows its last colon is not a port (\<open>host:abc\<close> is
  dialled as the host \<open>host:abc\<close>); and the empty host and 443 without an authority.  If the dial
  fails, the client, which was told it is connected, gets nothing more; if it succeeds, the two
  streams are copied.
\<close>

theorem http_connect_answers_first:
  assumes "http_server serve requests respond"
    and "requests (client w) = req # reqs" "req_method req = ''CONNECT''"
  shows "\<exists>host port. handle_http serve N C lower w =
      (None, w\<lparr>client := respond (plain_response 200 []) (client w)\<rparr>, Some (True, host, port)) \<and>
    (uri_authority req = None \<longrightarrow> host = [] \<and> port = 443) \<and>
    (uri_authority req = Some h \<and> CHR '':'' \<notin> set h \<longrightarrow> host = h \<and> port = 443) \<and>
    (uri_authority req = Some (h @ '':'' @ ps) \<and> CHR '':'' \<notin> set ps \<longrightarrow>
      (host, port) = (case parse_u16 ps of Some p \<Rightarrow> (h, p) | None \<Rightarrow> (h @ '':'' @ ps, 443))) \<and>
    (dial N (host_port host port) (net v) = (Inl e, n') \<longrightarrow>
      run_tunnel N X (Some (True, host, port)) v = v\<lparr>net := n'\<rparr>) \<and>
    (dial N (host_port host port) (net v) = (Inr t, n') \<longrightarrow>
      run_tunnel N X (Some (True, host, port)) v = snd (tunnel_copy X t (v\<lparr>net := n'\<rparr>)))"
proof -
  obtain host port where d: "connect_destination req = (host, port)" by (cases "connect_destination req")
  have "handle_http serve N C lower w =
      (None, w\<lparr>client := respond (plain_response 200 []) (client w)\<rparr>, Some (True, host, port))"
    using http_server.handle_http_connect_first [OF assms] d by simp
  moreover have "uri_authority req = None \<longrightarrow> host = [] \<and> port = 443"
    "uri_authority req = Some h \<and> CHR '':'' \<notin> set h \<longrightarrow> host = h \<and> port = 443"
    using d by (auto simp: connect_destination_def Let_def parse_host_port_no_colon)
  moreover have "uri_authority req = Some (h @ '':'' @ ps) \<and> CHR '':'' \<notin> set ps \<longrightarrow>
      (host, port) = (case parse_u16 ps of Some p \<Rightarrow> (h, p) | None \<Rightarrow> (h @ '':'' @ ps, 443))"
    using d parse_host_port_last [of ps h] by (auto simp: connect_destination_def Let_def split: option.split)
  moreover have "dial N (host_port host port) (net v) = (Inl e, n') \<longrightarrow>
      run_tunnel N X (Some (True, host, port)) v = v\<lparr>net := n'\<rparr>"
    "dial N (host_port host port) (net v) = (Inr t, n') \<longrightarrow>
      run_tunnel N X (Some (True, host, port)) v = snd (tunnel_copy X t (v\<lparr>net := n'\<rparr>))"
    by (simp_all add: run_tunnel_def connect_tunnel_def match_io_def on_net_def direct_connect_def dial_err_def)
  ultimately show ?thesis by (intro exI [of _ host] exI [of _ port] conjI)
qed

text \<open>A client that asks for \<open>down:abc\<close>: the whole authority and port 443.\<close>

definition connect_peer :: "string \<Rightarrow> (http_peer, http_peer, http_peer table_net) session" where
  "connect_peer authority =
     \<lparr>client = \<lparr>to_send = [sample_get\<lparr>req_method := ''CONNECT'', uri_authority := Some authority\<rparr>], got = []\<rparr>,
      net = \<lparr>answers = [], dial_log = []\<rparr>, tunnel = None\<rparr>"

theorem http_connect_answers_first_witness:
  "\<exists>w'. handle_http scripted_serve table_network \<lparr>client_handshake = Inr, send_request = (\<lambda>req s. Inl [])\<rparr>
       ascii_lower (connect_peer ''down:abc'') = (None, w', Some (True, ''down:abc'', 443)) \<and>
     got (client w') = [plain_response 200 []] \<and> dial_log (net w') = []"
proof -
  let ?req = "sample_get\<lparr>req_method := ''CONNECT'', uri_authority := Some ''down:abc''\<rparr>"
  have req: "to_send (client (connect_peer ''down:abc'')) = ?req # []" "req_method ?req = ''CONNECT''"
    by (simp_all add: connect_peer_def)
  let ?C = "\<lparr>client_handshake = Inr, send_request = (\<lambda>req s. Inl [])\<rparr>" and ?w = "connect_peer ''down:abc''"
  from http_connect_answers_first [OF scripted.http_server_axioms req, where N = table_network and C = ?C
      and lower = ascii_lower and h = "''down''" and ps = "''abc''" and v = ?w and e = "[]" and n' = "net ?w"
      and t = "client ?w" and X = "\<lparr>copy_bidirectional = (\<lambda>c t. (Inl [], c, t)), udp_associate = (\<lambda>r. ret ())\<rparr>"]
  obtain host port where
    run: "handle_http scripted_serve table_network ?C ascii_lower ?w =
      (None, ?w\<lparr>client := peer_respond (plain_response 200 []) (client ?w)\<rparr>, Some (True, host, port))"
    and dest: "uri_authority ?req = Some (''down'' @ '':'' @ ''abc'') \<and> CHR '':'' \<notin> set ''abc'' \<longrightarrow>
      (host, port) = (case parse_u16 ''abc'' of Some p \<Rightarrow> (''down'', p) | None \<Rightarrow> (''down'' @ '':'' @ ''abc'', 443))"
    by (elim exE conjE) (rule that, assumption+)
  have "parse_u16 ''abc'' = None" by (simp add: parse_u16_def parse_unsigned_def digit_val_def)
  with dest have "host = ''down:abc''" "port = 443" by simp_all
  with run show ?thesis by (simp add: peer_respond_def) (simp add: connect_peer_def)
qed

text \<open>
  C36: \<open>check_proxy_auth\<close> decides by the credentials: for a request whose first
  \<open>Proxy-Authorization\<close> header is the Basic value of a user name (without a colon) and a
  password, it accepts exactly if a configured user has that name and that password; and it
  rejects every request without the header.
\<close>

theorem http_proxy_auth_decides:
  assumes "base64_codec enc dec64" and "rust_string user" "rust_string pass" "CHR '':'' \<notin> set user"
    and "get_header ''proxy-authorization'' req = Some (as_bytes (basic_auth_value enc user pass))"
  shows "(check_proxy_auth dec64 req users \<longleftrightarrow> (\<exists>u \<in> set users. username u = user \<and> password u = pass)) \<and>
    ((\<forall>(k, v) \<in> set hs. k \<noteq> ''proxy-authorization'') \<longrightarrow>
      \<not> check_proxy_auth dec64 (req\<lparr>req_headers := hs\<rparr>) users)"
proof -
  have "map_of hs ''proxy-authorization'' = None" if "\<forall>(k, v) \<in> set hs. k \<noteq> ''proxy-authorization''"
    using that by (auto simp: map_of_eq_None_iff)
  then show ?thesis
    using base64_codec.basic_auth_roundtrip [OF assms(1,2,4,3)] header_to_str_basic [OF assms(1)] assms(5)
    by (simp add: check_proxy_auth_def verify_credentials_iff get_header_def)
qed

theorem http_proxy_auth_decides_witness:
  "check_proxy_auth ref_decode
     (sample_get\<lparr>req_headers := [(''proxy-authorization'', as_bytes (basic_auth_value ref_encode ''x'' ''y''))]\<rparr>)
     [\<lparr>username = ''x'', password = ''y''\<rparr>] \<and>
   \<not> check_proxy_auth ref_decode
     (sample_get\<lparr>req_headers := [(''proxy-authorization'', as_bytes (basic_auth_value ref_encode ''x'' ''y''))]\<rparr>)
     [\<lparr>username = ''x'', password = ''z''\<rparr>]"
proof -
  let ?r = "sample_get\<lparr>req_headers := [(''proxy-authorization'', as_bytes (basic_auth_value ref_encode ''x'' ''y''))]\<rparr>"
  have s: "rust_string ''x''" "rust_string ''y''" by (simp_all add: rust_string_ascii is_ascii_def)
  have c: "CHR '':'' \<notin> set ''x''" by simp
  have g: "get_header ''proxy-authorization'' ?r = Some (as_bytes (basic_auth_value ref_encode ''x'' ''y''))"
    by (simp add: get_header_def)
  from http_proxy_auth_decides [OF ref64.base64_codec_axioms s c g] show ?thesis by simp
qed

end
