(* ===== verification/Ip_Texts.thy ===== *)
theory Ip_Texts
  imports Rust_Net
begin

text \<open>
  The texts of addresses once more: a text that is read as an IPv4 address is the text that
  address is printed as, and a text without a colon is no IPv6 address.  So a host name that
  goes over the wire as an address comes out as it went in.
\<close>

section \<open>Decimal texts\<close>

lemma digit_char_val: "digit_val c = Some d \<Longrightarrow> digit_char d = c \<and> d < 10"
  by (auto simp: digit_val_def digit_char_def Let_def split: if_splits)

lemma digit_val_zero: "digit_val c = Some 0 \<Longrightarrow> c = CHR ''0''"
  using digit_char_val [of c 0] by (simp add: digit_char_def char_of_def bit_0)

lemma dec_snoc: "0 < acc \<Longrightarrow> d < 10 \<Longrightarrow> dec (acc * 10 + d) = dec acc @ [digit_char d]"
  by (subst dec.simps) simp

text \<open>Reading digits after a number that is not 0 is appending them to its text.\<close>

lemma parse_digits_after: "parse_digits bound acc s = Some n \<Longrightarrow> 0 < acc \<Longrightarrow> dec n = dec acc @ s"
proof (induction s arbitrary: acc)
  case Nil
  then show ?case by simp
next
  case (Cons c s)
  then obtain d where d: "digit_val c = Some d" "parse_digits bound (acc * 10 + d) s = Some n"
    by (auto split: option.splits if_splits)
  with Cons.IH [of "acc * 10 + d"] Cons.prems(2) have "dec n = dec (acc * 10 + d) @ s" by simp
  with digit_char_val [OF d(1)] Cons.prems(2) show ?case by (simp add: dec_snoc)
qed

lemma parse_digits_dec_iff:
  assumes "parse_digits bound 0 (c # s) = Some n" "s = [] \<or> c \<noteq> CHR ''0''"
  shows "dec n = c # s"
proof -
  from assms(1) obtain d where d: "digit_val c = Some d" "parse_digits bound d s = Some n"
    by (auto split: option.splits if_splits)
  note c = digit_char_val [OF d(1)]
  show ?thesis
  proof (cases "s = []")
    case True
    with d(2) c have "d = n" "n < 10" "digit_char n = c" by simp_all
    with True show ?thesis by (simp add: dec.simps [of n])
  next
    case False
    with assms(2) d(1) digit_val_zero [of c] have "d \<noteq> 0" by (cases "d = 0") simp_all
    with parse_digits_after [OF d(2)] c show ?thesis by (simp add: dec.simps [of d])
  qed
qed

lemma parse_octet_text: "parse_octet s = Some b \<Longrightarrow> s = dec (unat b)"
proof -
  assume p: "parse_octet s = Some b"
  then obtain c cs n where s: "s = c # cs" "parse_digits 255 0 (c # cs) = Some n" "b = of_nat n"
      "cs = [] \<or> c \<noteq> CHR ''0''"
    by (cases s) (auto simp: parse_octet_def simp del: parse_digits.simps split: if_splits)
  with parse_digits_bound [OF s(2)] have "unat b = n" by (simp add: unat_of_nat)
  with parse_digits_dec_iff [OF s(2,4)] s(1) show ?thesis by simp
qed

section \<open>Addresses\<close>

text \<open>The pieces and the separators between them are the text.\<close>

lemma split_on_join: "split_on c s = p # ps \<Longrightarrow> s = p @ concat (map ((#) c) ps)"
proof (induction s arbitrary: p ps)
  case (Cons x s)
  show ?case
  proof (cases "split_on c s")
    case (Cons q qs)
    with Cons.prems show ?thesis
      by (cases "x = c") (use Cons.IH [OF Cons] in simp_all)
  qed simp
qed simp

lemma parse_ipv4_text:
  assumes "parse_ipv4 s = Some ip"
  shows "display_ipv4 ip = s"
proof -
  from assms obtain a b c d p1 p2 p3 p4 where ip: "ip = [a, b, c, d]"
    and s: "split_on (CHR ''.'') s = [p1, p2, p3, p4]"
      "parse_octet p1 = Some a" "parse_octet p2 = Some b" "parse_octet p3 = Some c" "parse_octet p4 = Some d"
    by (auto simp: parse_ipv4_def map_eq_Cons_conv split: list.splits option.splits)
  from s(2-5) have "p1 = dec (unat a)" "p2 = dec (unat b)" "p3 = dec (unat c)" "p4 = dec (unat d)"
    by (simp_all add: parse_octet_text)
  with split_on_join [OF s(1)] show ?thesis by (simp add: ip display_ipv4_def)
qed

lemma split_double_colon_none: "CHR '':'' \<notin> set s \<Longrightarrow> split_double_colon s = None"
  by (induction s rule: split_double_colon.induct) auto

lemma parse_ipv6_colon:
  assumes "CHR '':'' \<notin> set s"
  shows "parse_ipv6 s = None"
proof -
  have "length (segments ip) \<noteq> 8" if "parse_ipv4 s = Some ip" for ip
    using parse_ipv4_length [OF that] by (auto simp: length_eq_4)
  then show ?thesis
    using assms split_double_colon_none [OF assms]
    by (auto simp: parse_ipv6_def parse_side_def split_on_none split: option.splits)
qed

end
