(* ===== verification/Peregrine_World.thy ===== *)
theory Peregrine_World
  imports Chain_World Server_Properties Http_Properties Ip_Texts
begin

text \<open>
  A world of this program: behind every address is some server, or a listener of this program
  as it is modelled, from the accepted connection through detection, hyper or the SOCKS5
  session, to the dial, the answer and the tunnel.  The tunnel copies: the client's bytes go to
  the target, and the target's to the client.  On this world the upstream chain meets the
  program's own two protocols, in any mixture and at any length.
\<close>

section \<open>Hosts\<close>

text \<open>Letters, digits, dots, hyphens: names and IPv4 addresses, of at most 255 bytes.\<close>

definition dns_char :: "char \<Rightarrow> bool" where
  "dns_char c \<longleftrightarrow> (let n = of_char c :: nat in
     48 \<le> n \<and> n \<le> 57 \<or> 65 \<le> n \<and> n \<le> 90 \<or> 97 \<le> n \<and> n \<le> 122 \<or> n = 45 \<or> n = 46)"

definition dns_host :: "string \<Rightarrow> bool" where
  "dns_host h \<longleftrightarrow> h \<noteq> [] \<and> length h < 256 \<and> list_all dns_char h"

lemma dns_plain: "dns_host h \<Longrightarrow> plain_host h"
  by (auto simp: dns_host_def plain_host_def dns_char_def plain_char_def list_all_iff Let_def)

lemma dns_rust_string: "dns_host h \<Longrightarrow> rust_string h"
  using dns_plain [of h] by (simp add: plain_host_def plain_ascii rust_string_ascii)

text \<open>What a SOCKS5 session dials for such a host is the host's own text.\<close>

lemma dns_request_addr:
  assumes "dns_host h"
  shows "request_addr (connect_request_of h p) = host_port h p"
proof -
  have "parse_ipv6 h = None"
    using dns_plain [OF assms] by (intro parse_ipv6_colon) (simp add: plain_host_def)
  then show ?thesis
    by (auto simp: request_addr_def connect_request_of_def host_target_def dest: parse_ipv4_text split: option.split)
qed

section \<open>Processes\<close>

text \<open>
  A server as what it sends on a connection: all the bytes it has sent, as a function of all the
  bytes it has been told.  After some bytes it is the rest of that function.
\<close>

type_synonym process = "bytes \<Rightarrow> bytes"

definition process_react :: "process reaction" where
  "process_react p bs = (\<lambda>xs. drop (length (p bs)) (p (bs @ xs)), drop (length (p [])) (p bs))"

definition echo :: process where
  "echo bs = bs"

lemma process_reacts:
  assumes "\<And>xs. p (bs @ xs) = before @ answer @ q xs" "p [] = before" "q [] = []"
  shows "process_react p bs = (q, answer)"
  using assms(1) [of "[]"] assms by (simp add: process_react_def fun_eq_iff)

lemma echo_reacts: "process_react echo bs = (echo, bs)"
  by (rule process_reacts) (simp_all add: echo_def)

section \<open>The servers\<close>

text \<open>\<open>Peregrine\<close> is a listener of this program, without TLS.\<close>

datatype node = Server process | Peregrine

text \<open>Dialling an address gives a fresh connection to the process behind it.\<close>

definition process_network :: "process world \<Rightarrow> (unit, process) network" where
  "process_network D =
     \<lparr>dial = (\<lambda>addr n. (case D addr of Some p \<Rightarrow> Inr p | None \<Rightarrow> Inl ''Connection refused'', n)),
      server_name_ok = (\<lambda>h. h \<noteq> []), tls_server_roots = [], tls_connect = (\<lambda>c h s. Inr s)\<rparr>"

text \<open>
  tokio's \<open>copy_bidirectional\<close> between a client and a process: the process is told what the
  client has sent, and the client gets what the process sends.
\<close>

definition relay_ops :: "(conn, process, unit) session_ops" where
  "relay_ops =
     \<lparr>copy_bidirectional = (\<lambda>c p. (Inr (length (conn_pending c), length (p (conn_pending c))),
        c\<lparr>rx_script := [], tx_bytes := tx_bytes c @ p (conn_pending c)\<rparr>, fst (process_react p (conn_pending c)))),
      udp_associate = (\<lambda>req. ret ())\<rparr>"

definition node_env ::
  "(conn, process, unit) serve_connection \<Rightarrow> process http_client \<Rightarrow> (string \<Rightarrow> string) \<Rightarrow> process world
   \<Rightarrow> (conn, process, unit) connection_env"
where
  "node_env serve C lower D =
     \<lparr>stream = conn_ops, network_of = process_network D, session_of = relay_ops, peek_of = conn_peek,
      serve_of = serve, http_client_of = C, to_lowercase = lower\<rparr>"

definition node_session :: "bytes \<Rightarrow> (conn, process, unit) session" where
  "node_session bs = \<lparr>client = peer_sends bs, net = (), tunnel = None\<rparr>"

text \<open>The task the accept loop spawns, and the tunnel, on a client that has sent these bytes.\<close>

definition node_run ::
  "(conn, process, unit) connection_env \<Rightarrow> bytes \<Rightarrow> (conn, process, unit) session"
where
  "node_run E bs = connection_and_tunnel E (\<lambda>a s. Inr s) (None :: unit option) (node_session bs)"

text \<open>
  What a listener sends on a connection.  The servers it dials may be listeners again; they are
  told less than it was, since a request comes before what is passed on.
\<close>

function server_out ::
  "(conn, process, unit) serve_connection \<Rightarrow> process http_client \<Rightarrow> (string \<Rightarrow> string) \<Rightarrow> node world \<Rightarrow> process"
where
  "server_out serve C lower W bs =
     tx_bytes (client (node_run (node_env serve C lower (\<lambda>addr.
       case W addr of
         None \<Rightarrow> None
       | Some (Server f) \<Rightarrow> Some f
       | Some Peregrine \<Rightarrow> Some (\<lambda>xs. if length xs < length bs then server_out serve C lower W xs else []))) bs))"
  by pat_completeness auto
termination by (relation "measure (\<lambda>(_, _, _, _, bs). length bs)") auto

declare server_out.simps [simp del]

fun node_process ::
  "(conn, process, unit) serve_connection \<Rightarrow> process http_client \<Rightarrow> (string \<Rightarrow> string) \<Rightarrow> node world \<Rightarrow> node \<Rightarrow> process"
where
  "node_process serve C lower W (Server f) = f"
| "node_process serve C lower W Peregrine = server_out serve C lower W"

definition processes ::
  "(conn, process, unit) serve_connection \<Rightarrow> process http_client \<Rightarrow> (string \<Rightarrow> string) \<Rightarrow> node world \<Rightarrow> process world"
where
  "processes serve C lower W addr = map_option (node_process serve C lower W) (W addr)"

text \<open>The servers of a world wait for their client.\<close>

definition quiet :: "node world \<Rightarrow> bool" where
  "quiet W \<longleftrightarrow> (\<forall>addr f. W addr = Some (Server f) \<longrightarrow> f [] = [])"

text \<open>
  A listener serves a hop of either protocol, with and without credentials, for such a host.
  8192 bytes are hyper's first buffer.
\<close>

fun node_serves :: "(bytes \<Rightarrow> string) \<Rightarrow> upstream_config \<Rightarrow> node \<Rightarrow> string \<Rightarrow> u16 \<Rightarrow> bool" where
  "node_serves b64 (Http addr auth tls) Peregrine host port \<longleftrightarrow>
     dns_host host \<and> length (connect_request b64 auth host port) \<le> 8192"
| "node_serves b64 (Socks5_Proxy addr auth tls) Peregrine host port \<longleftrightarrow> dns_host host"
| "node_serves b64 _ _ host port \<longleftrightarrow> False"

section \<open>What hyper does with a CONNECT request\<close>

text \<open>
  The head of a CONNECT request as the connectors write it is read as that request, with its
  authority, whatever comes after it.  The response with status 200 is \<open>ok_head\<close>, which begins
  with its status line; and the bytes after the request are left for who gets the stream.
\<close>

locale hyper_connect = http_server serve requests respond + base64_codec b64 dec64
  for serve :: "(conn, process, unit) serve_connection" and requests respond b64 dec64 +
  fixes ok_head :: bytes
  assumes reads_connect:
    "dns_host host \<Longrightarrow> length (connect_request b64 auth host port) \<le> 8192 \<Longrightarrow>
     conn_healthy c \<Longrightarrow> conn_pending c = as_bytes (connect_request b64 auth host port) @ rest \<Longrightarrow>
     \<exists>req reqs. requests c = req # reqs \<and> req_method req = ''CONNECT'' \<and>
       uri_authority req = Some (host_port host port)"
  and answers_connect:
    "dns_host host \<Longrightarrow> length (connect_request b64 auth host port) \<le> 8192 \<Longrightarrow>
     conn_healthy c \<Longrightarrow> conn_pending c = as_bytes (connect_request b64 auth host port) @ rest \<Longrightarrow>
     tx_bytes (respond (plain_response 200 []) c) = tx_bytes c @ ok_head \<and>
     conn_pending (respond (plain_response 200 []) c) = rest"
  and ok_status: "prefix (as_bytes ''HTTP/1.1 200'') ok_head" "length ok_head \<le> 4096"

section \<open>One connection\<close>

lemma node_env_simps [simp]:
  "stream (node_env serve C lower D) = conn_ops" "network_of (node_env serve C lower D) = process_network D"
  "session_of (node_env serve C lower D) = relay_ops" "peek_of (node_env serve C lower D) = conn_peek"
  "serve_of (node_env serve C lower D) = serve" "http_client_of (node_env serve C lower D) = C"
  "to_lowercase (node_env serve C lower D) = lower"
  by (simp_all add: node_env_def)

lemma node_session_simps [simp]: "client (node_session bs) = peer_sends bs"
  by (simp add: node_session_def)

lemma session_net_unit [simp]: "(w :: (conn, process, unit) session)\<lparr>net := ()\<rparr> = w"
  by (cases w) simp

lemma dial_process: "D addr = Some p \<Longrightarrow> dial (process_network D) addr n = (Inr p, n)"
  by (simp add: process_network_def)

lemma tunnel_process:
  "tx_bytes (client (snd (tunnel_copy relay_ops p w))) = tx_bytes (client w) @ p (conn_pending (client w))"
  by (simp add: tunnel_copy_def relay_ops_def)

text \<open>Before the first byte nothing has happened.\<close>

lemma node_run_Nil: "tx_bytes (client (node_run (node_env serve C lower D) [])) = []"
  using conn_peek_healthy [of "peer_sends []" 8]
  by (simp add: node_run_def connection_and_tunnel_def connection_task_def handle_connection_def
      detect_connection_def client_peek_def run_tunnel_def)

lemma server_out_Nil: "server_out serve C lower W [] = []"
  by (simp add: server_out.simps node_run_Nil)

lemma node_process_Nil:
  "quiet W \<Longrightarrow> W addr = Some q \<Longrightarrow> node_process serve C lower W q [] = []"
  by (cases q) (auto simp: quiet_def server_out_Nil)

text \<open>
  Once a connection leads to a target, what the listener sends ends with what the target sends
  to the rest of the bytes.
\<close>

lemma server_out_target:
  assumes "\<And>D p. D addr = Some p \<Longrightarrow> tx_bytes (client (node_run (node_env serve C lower D) bs)) = answer @ p rest"
    and "W addr = Some q" "length rest < length bs"
  shows "server_out serve C lower W bs = answer @ node_process serve C lower W q rest"
  using assms(2,3) by (subst server_out.simps, cases q) (simp_all add: assms(1))

subsection \<open>Over HTTP\<close>

context hyper_connect begin

lemma node_run_connect:
  assumes "dns_host host" "length (connect_request b64 auth host port) \<le> 8192" "D (host_port host port) = Some p"
  shows "tx_bytes (client (node_run (node_env serve C lower D) (as_bytes (connect_request b64 auth host port) @ rest))) =
    ok_head @ p rest"
proof -
  let ?bs = "as_bytes (connect_request b64 auth host port) @ rest" and ?E = "node_env serve C lower D"
  let ?w = "node_session ?bs" and ?c = "respond (plain_response 200 []) (peer_sends (as_bytes (connect_request b64 auth host port) @ rest))"
  obtain req reqs where req: "requests (client ?w) = req # reqs" "req_method req = ''CONNECT''"
    "uri_authority req = Some (host_port host port)"
    using reads_connect [of host auth port "peer_sends ?bs"] assms(1,2) by auto
  have c: "tx_bytes ?c = ok_head" "conn_pending ?c = rest"
    using answers_connect [of host auth port "peer_sends ?bs" rest] assms(1,2) by simp_all
  have m: "as_bytes ''CONNECT '' \<in> set http_methods_wire" by (simp add: http_methods_wire_def)
  have p8: "conn_peek 8 (peer_sends ?bs) = (Inr (as_bytes ''CONNECT ''), peer_sends ?bs)"
    using conn_peek_healthy [of "peer_sends ?bs" 8] by (simp add: connect_request_def as_bytes_def)
  have "detect_connection ?E (Plain ?w) = (Some Detected_Http, Plain ?w)"
    using detect_http_prefix [OF m, of "as_bytes ''CONNECT ''"]
    by (simp add: detect_connection_def client_peek_def p8 node_session_def)
  then have "connection_task ?E (\<lambda>a s. Inr s) (None :: unit option) ?w =
      (?w\<lparr>client := ?c\<rparr>, Some (True, host, port))"
    using handle_http_connect_first [OF req(1,2)] req(3)
    by (simp add: connection_task_def handle_connection_def connect_destination_def)
  then have "node_run ?E ?bs = snd (tunnel_copy relay_ops p (?w\<lparr>client := ?c\<rparr>))"
    using assms(3)
    by (simp add: node_run_def connection_and_tunnel_def run_tunnel_def connect_tunnel_def
        direct_connect_def dial_err_def dial_process on_net_def match_io_def)
  then show ?thesis by (simp add: tunnel_process c)
qed

lemma http_exchange_node:
  assumes "dns_host host" "length (connect_request b64 auth host port) \<le> 8192"
    and "quiet W" "W (host_port host port) = Some q"
  shows "http_exchange (duplex_ops process_react) b64 auth (Address host port)
    (fresh (server_out serve C lower W)) = (Inr (), fresh (node_process serve C lower W q))"
proof -
  let ?req = "as_bytes (connect_request b64 auth host port)"
  have "connect_request b64 auth host port \<noteq> []" by (simp add: connect_request_def)
  then have "server_out serve C lower W (?req @ xs) = ok_head @ node_process serve C lower W q xs" for xs
    by (intro server_out_target [where addr = "host_port host port"] node_run_connect assms) simp_all
  then have "process_react (server_out serve C lower W) ?req = (node_process serve C lower W q, ok_head)"
    using node_process_Nil [OF assms(3,4)] by (intro process_reacts [where before = "[]"]) (simp_all add: server_out_Nil)
  moreover have "status_ok (utf8_lossy ok_head)" using ok_status(1) by (simp add: status_ok_bytes)
  ultimately show ?thesis
    using ok_status(2)
    by (simp add: http_exchange_def fresh_def io_write_duplex io_read_duplex bind_io_def Let_def ret_def)
qed

end

subsection \<open>Over SOCKS5\<close>

lemma node_run_socks:
  "node_run (node_env serve C lower D) (0x05 # bs) =
     snd (handle_socks5 conn_ops (process_network D) relay_ops None (node_session (0x05 # bs)))"
  using handle_connection_socks [of "node_env serve C lower D" "node_session (0x05 # bs)" bs]
  by (simp add: node_run_def connection_and_tunnel_def connection_task_def run_tunnel_def)

text \<open>After the methods the server has chosen, and waits for the request.\<close>

lemma read_request_starved:
  assumes "conn_healthy c" "conn_pending c = []"
  shows "\<exists>e c'. read_request conn_ops c = (Inl e, c') \<and> tx_bytes c' = tx_bytes c"
proof -
  obtain ps where "rx_script c = map Byte ps" using assms(1) by (auto simp: conn_healthy_def only_bytes_iff)
  with assms(2) have "rx_script c = []" by (simp add: conn_pending_def)
  then show ?thesis
    by (simp add: read_request_def timed_read_def io_timed_read_def conn_ops_def conn_timeout_read_exact_def
        bind_io_def map_err_def numeral_eq_Suc)
qed

lemma server_out_offer: "server_out serve C lower W (offer_methods auth) = [0x05, 0x00]"
proof -
  let ?ms = "if auth = None then [0x00] else [0x00, 0x02]" and ?w = "node_session (offer_methods auth)"
  have "conn_pending (client ?w) = methods_wire ?ms @ []" by (simp add: offer_methods_wire)
  moreover have "length ?ms < 256" "select_method None ?ms = 0x00" by (simp_all add: select_method_def)
  ultimately obtain c where
    c: "negotiate_method conn_ops None (client ?w) = (Inr 0x00, c)" "conn_healthy c" "conn_pending c = []"
      "tx_bytes c = [0x05, 0x00]"
    using cl.negotiate_live [of "client ?w" ?ms "[]" None] by auto
  from read_request_starved [OF c(2,3)] obtain e c' where
    r: "read_request conn_ops c = (Inl e, c')" "tx_bytes c' = tx_bytes c" by auto
  have "phases conn_ops None (client ?w) = (Inl e, c')"
    using c(1) r(1) by (simp add: phases_def bind_io_def ret_def)
  then have i: "handle_socks5_inner conn_ops N X None ?w = (Inl e, ?w\<lparr>client := c'\<rparr>)"
    for N :: "(unit, process) network" and X
    by (simp add: handle_socks5_inner_phases bind_io_def on_client_apply)
  have "offer_methods auth = 0x05 # tl (offer_methods auth)" by (simp add: offer_methods_def)
  with i have "node_run (node_env serve C lower D) (offer_methods auth) = ?w\<lparr>client := c'\<rparr>" for D
    by (metis (no_types, lifting) node_run_socks handle_socks5_def case_prod_conv old.sum.simps(5) snd_conv)
  with c(4) r(2) show ?thesis by (simp add: server_out.simps)
qed

lemma node_run_request:
  assumes "dns_host host" "D (host_port host port) = Some p"
  shows "tx_bytes (client (node_run (node_env serve C lower D) (client_bytes auth 0x00 host port @ rest))) =
     ([0x05, 0x00] @ reply_bytes 0x00) @ p rest"
proof -
  let ?bs = "client_bytes auth 0x00 host port" and ?req = "connect_request_of host port"
  let ?w = "node_session (?bs @ rest)"
  have wf: "wf_target (target ?req)" "short_target (target ?req)" "command ?req = Connect"
    using host_target_wf [OF dns_rust_string [OF assms(1)], of port] assms(1)
    by (simp_all add: connect_request_of_def dns_host_def)
  have adm: "admitted None ?bs ?req"
    using client_bytes_admitted [where users = None and auth = auth and host = host and port = port] by simp
  have p: "conn_pending (client ?w) = ?bs @ rest" by simp
  have d: "dial (process_network D) (request_addr ?req) (net ?w) = (Inr p, net ?w)"
    using assms by (simp add: dns_request_addr dial_process)
  from session_connect_dialled [OF _ p adm wf d, of relay_ops] obtain c where
    c: "conn_pending c = rest" "tx_bytes c = [0x05, 0x00] @ reply_bytes 0x00"
    "handle_socks5_inner conn_ops (process_network D) relay_ops None ?w =
       tunnel_copy relay_ops p (?w\<lparr>client := c\<rparr>)"
    by (auto simp: admission_reply_def)
  have "?bs = 0x05 # tl ?bs" by (simp add: client_bytes_def offer_methods_def)
  then have "node_run (node_env serve C lower D) (?bs @ rest) =
      snd (handle_socks5 conn_ops (process_network D) relay_ops None ?w)"
    using node_run_socks [of serve C lower D "tl ?bs @ rest"] by (metis append_Cons)
  then show ?thesis
    using tunnel_process [of p "?w\<lparr>client := c\<rparr>"]
    by (simp add: handle_socks5_def c split: prod.splits sum.splits)
qed

lemma socks5_exchange_node:
  assumes "dns_host host" "quiet W" "W (host_port host port) = Some q"
  shows "socks5_exchange (duplex_ops process_react) auth (Address host port)
    (fresh (server_out serve C lower W)) = (Inr (), fresh (node_process serve C lower W q))"
proof -
  let ?o = "offer_methods auth" and ?r = "connect_bytes host port"
  define chosen where "chosen = (\<lambda>xs. drop 2 (server_out serve C lower W (?o @ xs)))"
  have 1: "process_react (server_out serve C lower W) ?o = (chosen, [0x05, 0x00])"
    by (simp add: process_react_def server_out_offer server_out_Nil chosen_def numeral_2_eq_2)
  have "client_bytes auth 0x00 host port @ xs = ?o @ ?r @ xs" for xs by (simp add: client_bytes_def)
  moreover have "length xs < length (client_bytes auth 0x00 host port @ xs)" for xs
    by (simp add: client_bytes_def offer_methods_def)
  ultimately have "server_out serve C lower W (?o @ ?r @ xs) =
      ([0x05, 0x00] @ reply_bytes 0x00) @ node_process serve C lower W q xs" for xs
    using server_out_target [where addr = "host_port host port" and bs = "client_bytes auth 0x00 host port @ xs"
        and rest = xs and answer = "[0x05, 0x00] @ reply_bytes 0x00"] node_run_request [OF assms(1)] assms(3) by metis
  then have "chosen (?r @ xs) = [] @ reply_bytes 0x00 @ node_process serve C lower W q xs" for xs
    by (simp add: chosen_def)
  moreover have "chosen [] = []" by (simp add: chosen_def server_out_offer)
  ultimately have 2: "process_react chosen ?r = (node_process serve C lower W q, reply_bytes 0x00)"
    using node_process_Nil [OF assms(2,3)] by (intro process_reacts) simp_all
  note w = io_write_duplex [where react = process_react, OF 1] io_write_duplex [where react = process_react, OF 2]
  note r = io_read_exact_duplex [where react = process_react]
  show ?thesis
    using r [of "[0x05, 0x00]" 2] r [of "[0x05, 0x00, 0x00, 0x01]" 4] r [of "[0, 0, 0, 0, 0, 0]" 6 _ "[]"]
    by (simp add: socks5_exchange_def client_authenticate_def client_connect_def discard_bind_address_def
        fresh_def w reply_bytes_def bind_io_def ret_def)
qed

section \<open>The chain\<close>

text \<open>A world of such servers is a world the chain can be run in.\<close>

locale peregrine_world = hyper_connect serve requests respond b64 dec64 ok_head
  for serve requests respond b64 dec64 ok_head +
  fixes C :: "process http_client" and lower :: "string \<Rightarrow> string" and W :: "node world"
  assumes world_quiet: "quiet W"

text \<open>The hops as the chain meets them: processes.\<close>

definition process_serves ::
  "(conn, process, unit) serve_connection \<Rightarrow> process http_client \<Rightarrow> (string \<Rightarrow> string) \<Rightarrow> node world
   \<Rightarrow> (bytes \<Rightarrow> string) \<Rightarrow> upstream_config \<Rightarrow> process \<Rightarrow> string \<Rightarrow> u16 \<Rightarrow> bool"
where
  "process_serves serve C lower W b64 config p host port \<longleftrightarrow>
     p = server_out serve C lower W \<and> node_serves b64 config Peregrine host port"

lemma hop_at_process:
  "hop_at W (node_serves b64) hop host port \<Longrightarrow>
   hop_at (processes serve C lower W) (process_serves serve C lower W b64) hop host port"
  by (cases hop, cases "case hop of (h, p, config) \<Rightarrow> W (host_port h p)")
    (auto simp: processes_def process_serves_def elim: node_serves.elims)

lemma route_works_process:
  "route_works W (node_serves b64) hops host port \<Longrightarrow>
   route_works (processes serve C lower W) (process_serves serve C lower W b64) hops host port"
  by (induction W "node_serves b64" hops host port rule: route_works.induct)
    (simp_all add: hop_at_process del: hop_at.simps)

sublocale peregrine_world \<subseteq> node: relay_world process_react "processes serve C lower W" b64
  "process_serves serve C lower W b64"
proof
  fix config p host port r
  assume s: "process_serves serve C lower W b64 config p host port"
    and "processes serve C lower W (host_port host port) = Some r"
  then obtain q where q: "W (host_port host port) = Some q" "r = node_process serve C lower W q"
    by (auto simp: processes_def)
  from s show "perform_proxy_handshake (duplex_ops process_react) b64 config
      (Address host port) (fresh p) = (Inr (), fresh r)"
    by (cases config)
      (auto simp: process_serves_def handshake_copies http_exchange_node socks5_exchange_node world_quiet q)
qed

context peregrine_world begin

lemma chain_is_direct:
  assumes "route_works W (node_serves b64) hops host port" "W (host_port host port) = Some q"
    and "hops \<noteq> [] \<and> tail = [] \<or> tail = [Direct]"
  shows "chain_connect (duplex_network (processes serve C lower W)) (duplex_ops process_react) b64
    (hop_configs hops @ tail) (Address host port) () = (Inr (fresh (node_process serve C lower W q)), ())"
  using assms by (intro node.chain_connects route_works_process) (simp_all add: processes_def)

lemma chain_to_echo:
  assumes "route_works W (node_serves b64) hops host port" "W (host_port host port) = Some (Server echo)"
    and "hops \<noteq> [] \<and> tail = [] \<or> tail = [Direct]" "length message \<le> 4096"
  shows "sends_and_reads_back process_react (processes serve C lower W) b64 (hop_configs hops @ tail)
    (Address host port) message"
  using assms
  by (intro node.chain_echoes [where q = echo] route_works_process) (simp_all add: processes_def echoes_def echo_reacts)

end

text \<open>
  C3: The parts of the program fit together.  In a world where behind every address is a listener
  of this program without TLS or some other server that waits for its client, a chain of any
  number of such listeners, asked over HTTP or over SOCKS5 in any mixture, with or without
  credentials, and followed by a direct hop or not, gives the very connection that dialling the
  target directly gives: from then on, whatever the client writes, the target's bytes come back,
  as they would without the chain.  So a target that echoes gives back a message of up to 4096
  bytes in one read.  Hosts are names and IPv4 addresses (letters, digits, dots, hyphens, 1 to 255
  bytes), and a CONNECT request fits into hyper's first 8192 bytes.  Each listener runs its whole
  connection: detection of the protocol, hyper or the SOCKS5 session, the dial, the answer, and
  the tunnel that copies both ways.
\<close>

theorem peregrine_chain:
  assumes "hyper_connect serve requests respond b64 dec64 ok_head"
    and "quiet W" and "route_works W (node_serves b64) hops host port" and "W (host_port host port) = Some q"
    and "hops \<noteq> [] \<and> tail = [] \<or> tail = [Direct]"
  shows "chain_connect (duplex_network (processes serve C lower W)) (duplex_ops process_react) b64
      (hop_configs hops @ tail) (Address host port) () =
    chain_connect (duplex_network (processes serve C lower W)) (duplex_ops process_react) b64
      [Direct] (Address host port) () \<and>
    fst (chain_connect (duplex_network (processes serve C lower W)) (duplex_ops process_react) b64
      (hop_configs hops @ tail) (Address host port) ()) = Inr (fresh (node_process serve C lower W q)) \<and>
    (q = Server echo \<and> length message \<le> 4096 \<longrightarrow>
      sends_and_reads_back process_react (processes serve C lower W) b64 (hop_configs hops @ tail)
        (Address host port) message)"
proof -
  have w: "peregrine_world serve requests respond b64 dec64 ok_head W"
    using assms(1,2) by (simp add: peregrine_world_def peregrine_world_axioms_def)
  show ?thesis
    using peregrine_world.chain_is_direct [OF w assms(3-5)] peregrine_world.chain_is_direct [OF w _ assms(4), of "[]" "[Direct]"]
      peregrine_world.chain_to_echo [OF w assms(3) _ assms(5)] assms(4)
    by (simp add: hop_configs_def)
qed

section \<open>A reference hyper\<close>

text \<open>
  A server that reads one CONNECT request, its first line being the method, the authority and
  the version, up to the empty line; that sends a status line and a body; and that leaves what
  comes after the request in the stream.
\<close>

fun read_line :: "string \<Rightarrow> (string \<times> string) option" where
  "read_line [] = None"
| "read_line (c # cs) =
     (if prefix crlf (c # cs) then Some ([], drop 1 cs) else map_option (apfst (Cons c)) (read_line cs))"

lemma read_line_length: "read_line s = Some (l, rest) \<Longrightarrow> length rest < length s"
  by (induction s arbitrary: l) (auto split: if_splits)

function after_head :: "string \<Rightarrow> string option" where
  "after_head s =
     (case read_line s of
        None \<Rightarrow> None
      | Some (l, rest) \<Rightarrow> (if l = [] then Some rest else after_head rest))"
  by pat_completeness auto
termination by (relation "measure length") (auto dest: read_line_length)

declare after_head.simps [simp del]

definition ref_requests :: "conn \<Rightarrow> http_request list" where
  "ref_requests c =
     (let text = of_bytes (conn_pending c) in
      case (after_head text, split_whitespace text) of
        (Some _, meth # authority # _) \<Rightarrow>
          (if meth = ''CONNECT''
           then [\<lparr>req_method = meth, uri_authority = Some authority, uri_host = None, uri_port = None,
                  uri_path_and_query = None, req_version = ''HTTP/1.1'', req_headers = [], req_body = []\<rparr>]
           else [])
      | _ \<Rightarrow> [])"

definition ref_head :: "nat \<Rightarrow> bytes" where
  "ref_head status =
     as_bytes (''HTTP/1.1 '' @ dec status @ '' '' @ (if status = 200 then ''OK'' else []) @ crlf @ crlf)"

definition ref_respond :: "http_response \<Rightarrow> conn \<Rightarrow> conn" where
  "ref_respond resp c =
     c\<lparr>rx_script := map Byte (case after_head (of_bytes (conn_pending c)) of Some rest \<Rightarrow> as_bytes rest | None \<Rightarrow> []),
       tx_bytes := tx_bytes c @ ref_head (resp_status resp) @ resp_body resp\<rparr>"

definition ref_serve :: "(conn, process, unit) serve_connection" where
  "ref_serve opts service w = serve_requests ref_respond service (ref_requests (client w)) w"

lemma read_line_crlf: "CHR 0x0D \<notin> set l \<Longrightarrow> read_line (l @ crlf @ rest) = Some (l, rest)"
  by (induction l) (auto simp: crlf_def)

lemma after_head_line:
  "CHR 0x0D \<notin> set l \<Longrightarrow> after_head (l @ crlf @ rest) = (if l = [] then Some rest else after_head rest)"
  by (subst after_head.simps) (simp add: read_line_crlf)

lemma plain_no_cr: "list_all plain_char s \<Longrightarrow> CHR 0x0D \<notin> set s"
  by (auto simp: list_all_iff plain_char_def)

lemma connect_request_head:
  assumes "plain_host h"
  shows "after_head (connect_request ref_encode auth h p @ rest) = Some rest"
proof -
  have cr: "CHR 0x0D \<notin> set h" "CHR 0x0D \<notin> set (show_u16 p)"
    using assms plain_no_cr plain_char_digits [of p] by (auto simp: plain_host_def)
  have b: "CHR 0x0D \<notin> set (ref_encode bs)" for bs
    using ref64.encode_chars [of bs] by (force simp: base64_chars_def)
  have e: "after_head (crlf @ rest) = Some rest" using after_head_line [of "[]" rest] by simp
  have "after_head (auth_header ref_encode auth @ crlf @ rest) = Some rest"
  proof (cases auth)
    case (Some a)
    then show ?thesis
      using after_head_line [of "''Proxy-Authorization: Basic '' @ ref_encode (as_bytes (username a @ '':'' @ password a))"
          "crlf @ rest"] b e by (simp add: auth_header_def del: as_bytes_append)
  qed (simp add: auth_header_def e)
  then show ?thesis
    using after_head_line [of "''CONNECT '' @ h @ '':'' @ show_u16 p @ '' HTTP/1.1''"
        "''Host: '' @ h @ '':'' @ show_u16 p @ crlf @ auth_header ref_encode auth @ crlf @ rest"]
      after_head_line [of "''Host: '' @ h @ '':'' @ show_u16 p" "auth_header ref_encode auth @ crlf @ rest"] cr
    by (simp add: connect_request_def)
qed

lemma connect_request_words:
  assumes "plain_host h"
  shows "\<exists>ws. split_whitespace (connect_request b64 auth h p @ rest) = ''CONNECT'' # host_port h p # ws"
proof -
  have "connect_request b64 auth h p @ rest = ''CONNECT'' @ CHR '' '' # host_port h p @ CHR '' '' #
      (''HTTP/1.1'' @ crlf @ ''Host: '' @ h @ '':'' @ show_u16 p @ crlf @ auth_header b64 auth @ crlf @ rest)"
    by (simp add: connect_request_def host_port_def)
  moreover have "list_all plain_char ''CONNECT''" by (simp add: plain_char_def)
  ultimately show ?thesis
    using split_two_words [of "''CONNECT''" "host_port h p"] plain_host_port [OF assms, of p] by auto
qed

lemma dec_200: "dec 200 = ''200''"
  by code_simp

interpretation refhyper: hyper_connect ref_serve ref_requests ref_respond ref_encode ref_decode "ref_head 200"
proof
  show "ref_serve opts service w = serve_requests ref_respond service (ref_requests (client w)) w"
    for opts service w by (simp add: ref_serve_def)
  fix host auth port c rest
  assume h: "dns_host host" and p: "conn_pending c = as_bytes (connect_request ref_encode auth host port) @ rest"
  note head = connect_request_head [OF dns_plain [OF h], of auth port "of_bytes rest"]
  show "\<exists>req reqs. ref_requests c = req # reqs \<and> req_method req = ''CONNECT'' \<and>
      uri_authority req = Some (host_port host port)"
    using connect_request_words [OF dns_plain [OF h], of ref_encode auth port "of_bytes rest"]
    by (auto simp: ref_requests_def p head)
  show "tx_bytes (ref_respond (plain_response 200 []) c) = tx_bytes c @ ref_head 200 \<and>
      conn_pending (ref_respond (plain_response 200 []) c) = rest"
    by (simp add: ref_respond_def p head plain_response_def) (simp add: conn_pending_def)
qed (simp_all add: ref_head_def as_bytes_def crlf_def dec_200)

text \<open>A hyper client that is not used: no plain request is forwarded.\<close>

definition no_client :: "process http_client" where
  "no_client = \<lparr>client_handshake = Inr, send_request = (\<lambda>req p. Inl ''no answer'')\<rparr>"

theorem peregrine_chain_witness:
  "\<exists>W. W = map_of [(host_port localhost 1, Peregrine), (host_port localhost 2, Peregrine),
       (host_port ''example.org'' 80, Server echo)] \<and>
     sends_and_reads_back process_react (processes ref_serve no_client ascii_lower W) ref_encode
       [Http (host_port localhost 1) (Some alice) None, Socks5_Proxy (host_port localhost 2) (Some alice) None]
       (Address ''example.org'' 80) (as_bytes ''hello'')"
proof -
  let ?W = "map_of [(host_port localhost 1, Peregrine), (host_port localhost 2, Peregrine),
       (host_port ''example.org'' 80, Server echo)]"
  have "dns_host localhost" "dns_host ''example.org''"
    by (simp_all add: dns_host_def dns_char_def localhost_def)
  then have "route_works ?W (node_serves ref_encode)
      [(localhost, 1, Http (host_port localhost 1) (Some alice) None),
       (localhost, 2, Socks5_Proxy (host_port localhost 2) (Some alice) None)] ''example.org'' 80"
    using localhost_request [of ref_encode "Some alice" 2] auth_header_lengths
    by (simp add: host_port_inject)
  moreover have "quiet ?W" by (auto simp: quiet_def echo_def split: if_splits)
  moreover have "?W (host_port ''example.org'' 80) = Some (Server echo)" by (simp add: host_port_inject localhost_def)
  ultimately show ?thesis
    using peregrine_chain [OF refhyper.hyper_connect_axioms, where W = ?W and tail = "[]"
      and C = no_client and lower = ascii_lower and message = "as_bytes ''hello''"]
    by (fastforce simp: as_bytes_def)
qed

end
