(* ===== verification/Metrics.thy ===== *)
theory Metrics
  imports Rust_Fmt Scripted_Stream
begin

text \<open>
  \<open>src/metrics.rs\<close>: the metrics of the proxy and the endpoint that serves them.  The
  \<open>prometheus_client\<close> registry is its list of names, help texts and registered metrics; its text
  encoder is an argument.
\<close>

type_synonym i64 = "64 word"
type_synonym counter = "64 word"

datatype protocol_metric = Label_http | Label_socks5

datatype action_metric = Label_forward | Label_connect | Label_tcp_connect | Label_udp_associate

record request_labels =
  protocol_label_of :: protocol_metric
  action_label_of :: action_metric

fun display_protocol :: "protocol_metric \<Rightarrow> string" where
  "display_protocol Label_http = ''http''"
| "display_protocol Label_socks5 = ''socks5''"

fun display_action :: "action_metric \<Rightarrow> string" where
  "display_action Label_forward = ''forward''"
| "display_action Label_connect = ''connect''"
| "display_action Label_tcp_connect = ''tcp_connect''"
| "display_action Label_udp_associate = ''udp_associate''"

text \<open>
  The histogram is its buckets and what it has observed, in thousandths of a second.  What is
  registered is a clone that shares the metric's state, so the registry names the metric.
\<close>

datatype metric = Connections_Active | Requests_Total | Request_Duration_Seconds | Upstream_Errors_Total

record proxy_metrics =
  connections_active :: i64
  requests_total :: "request_labels \<Rightarrow> counter option"
  duration_buckets :: "nat list"
  observed :: "nat list"
  upstream_errors_total :: counter
  registry :: "(string \<times> string \<times> metric) list"

definition metrics_new :: proxy_metrics where
  "metrics_new =
     \<lparr>connections_active = 0, requests_total = (\<lambda>_. None),
      duration_buckets = [1, 5, 10, 50, 100, 250, 500, 1000, 5000, 10000], observed = [],
      upstream_errors_total = 0,
      registry =
        [(''peregrine_connections_active'', ''Currently active connections'', Connections_Active),
         (''peregrine_requests_total'', ''Total requests handled'', Requests_Total),
         (''peregrine_request_duration_seconds'', ''Request duration in seconds'', Request_Duration_Seconds),
         (''peregrine_upstream_errors_total'', ''Total upstream connection errors'', Upstream_Errors_Total)]\<rparr>"

definition metrics_default :: proxy_metrics where
  "metrics_default = metrics_new"

section \<open>The endpoint\<close>

definition http_text_response :: "string \<Rightarrow> string \<Rightarrow> string \<Rightarrow> string" where
  "http_text_response status content_type body =
     ''HTTP/1.1 '' @ status @ crlf @ ''Content-Type: '' @ content_type @ crlf @
     ''Content-Length: '' @ dec (length body) @ crlf @ crlf @ body"

definition metrics_response :: "(proxy_metrics \<Rightarrow> string) \<Rightarrow> proxy_metrics \<Rightarrow> string \<Rightarrow> string" where
  "metrics_response encode_text metrics request =
     (if prefix ''GET /metrics'' request then
        (let metrics_text = encode_text metrics in
         ''HTTP/1.1 200 OK'' @ crlf @ ''Content-Type: text/plain; version=0.0.4; charset=utf-8'' @ crlf @
         ''Content-Length: '' @ dec (length metrics_text) @ crlf @ crlf @ metrics_text)
      else if prefix ''GET /health'' request then
        ''HTTP/1.1 200 OK'' @ crlf @ ''Content-Type: text/plain'' @ crlf @
        ''Content-Length: 2'' @ crlf @ crlf @ ''OK''
      else
        ''HTTP/1.1 404 Not Found'' @ crlf @ ''Content-Type: text/plain'' @ crlf @
        ''Content-Length: 9'' @ crlf @ crlf @ ''Not Found'')"

text \<open>The task of one connection: one read of at most 1024 bytes, one answer; its write may fail.\<close>

definition metrics_connection ::
  "'s stream_ops \<Rightarrow> (proxy_metrics \<Rightarrow> string) \<Rightarrow> proxy_metrics \<Rightarrow> 's \<Rightarrow> 's"
where
  "metrics_connection S encode_text metrics s =
     (case read_some S 1024 s of
        (Inr buf, s1) \<Rightarrow>
          snd (write_all S (as_bytes (metrics_response encode_text metrics (utf8_lossy buf))) s1)
      | (Inl e, s1) \<Rightarrow> s1)"

text \<open>
  \<open>start_server\<close>: bind, then accept for ever.  An event is the outcome of one \<open>accept\<close>, with the
  values the metrics have when its connection is answered; the result is what becomes of the
  accepted connections, in order.
\<close>

datatype 's accept_event = Accepted proxy_metrics 's | Accept_Failed string

fun metrics_loop ::
  "'s stream_ops \<Rightarrow> (proxy_metrics \<Rightarrow> string) \<Rightarrow> 's accept_event list \<Rightarrow> 's list"
where
  "metrics_loop S encode_text [] = []"
| "metrics_loop S encode_text (Accepted metrics socket # later) =
     metrics_connection S encode_text metrics socket # metrics_loop S encode_text later"
| "metrics_loop S encode_text (Accept_Failed e # later) = metrics_loop S encode_text later"

definition start_server ::
  "(string \<Rightarrow> string + 'l) \<Rightarrow> 's stream_ops \<Rightarrow> (proxy_metrics \<Rightarrow> string) \<Rightarrow> string
   \<Rightarrow> 's accept_event list \<Rightarrow> 's list"
where
  "start_server bind S encode_text listen_addr events =
     (case bind listen_addr of
        Inl e \<Rightarrow> []
      | Inr listener \<Rightarrow> metrics_loop S encode_text events)"

text \<open>\<open>encode\<close>: the text encoder appends to an empty buffer.\<close>

definition encode :: "(proxy_metrics \<Rightarrow> string \<Rightarrow> string) \<Rightarrow> proxy_metrics \<Rightarrow> string" where
  "encode write_text metrics = (let buf = [] in write_text metrics buf)"

section \<open>Facts\<close>

lemma display_protocol_inj: "display_protocol p = display_protocol q \<longleftrightarrow> p = q"
  by (cases p; cases q) simp_all

lemma display_action_inj: "display_action a = display_action b \<longleftrightarrow> a = b"
  by (cases a; cases b) simp_all

lemma dec_small: "dec (length ''OK'') = ''2''" "dec (length ''Not Found'') = ''9''"
  by code_simp+

lemma metrics_response_eq:
  "metrics_response enc m request =
     (if prefix ''GET /metrics'' request
      then http_text_response ''200 OK'' ''text/plain; version=0.0.4; charset=utf-8'' (enc m)
      else if prefix ''GET /health'' request then http_text_response ''200 OK'' ''text/plain'' ''OK''
      else http_text_response ''404 Not Found'' ''text/plain'' ''Not Found'')"
  by (simp only: metrics_response_def http_text_response_def Let_def dec_small append.simps)

lemma metrics_response_cases:
  "\<exists>status ctype body. metrics_response enc m request = http_text_response status ctype body \<and>
     (status, body) =
       (if prefix ''GET /metrics'' request then (''200 OK'', enc m)
        else if prefix ''GET /health'' request then (''200 OK'', ''OK'')
        else (''404 Not Found'', ''Not Found''))"
  unfolding metrics_response_eq
  by (cases "prefix ''GET /metrics'' request"; cases "prefix ''GET /health'' request")
    (simp_all only: if_True if_False, blast+)

text \<open>Neither a failing \<open>accept\<close> nor another connection changes what a connection gets.\<close>

fun accepted :: "'s accept_event list \<Rightarrow> (proxy_metrics \<times> 's) list" where
  "accepted [] = []"
| "accepted (Accepted metrics socket # later) = (metrics, socket) # accepted later"
| "accepted (Accept_Failed e # later) = accepted later"

lemma metrics_loop_map:
  "metrics_loop S enc evs = map (\<lambda>(m, s). metrics_connection S enc m s) (accepted evs)"
  by (induction evs rule: accepted.induct) simp_all

lemma start_server_nth:
  "bind addr = Inr l \<Longrightarrow> i < length (accepted evs) \<Longrightarrow> accepted evs ! i = (m, s) \<Longrightarrow>
     start_server bind S enc addr evs ! i = metrics_connection S enc m s"
  by (simp add: start_server_def metrics_loop_map)

text \<open>What can be written of some bytes: all, or as much as the connection takes before it breaks.\<close>

definition as_far_as :: "nat option \<Rightarrow> bytes \<Rightarrow> bytes" where
  "as_far_as limit bs = (case limit of None \<Rightarrow> bs | Some k \<Rightarrow> take k bs)"

lemma conn_write_sent: "tx_bytes (snd (conn_write_all bs c)) = tx_bytes c @ as_far_as (tx_limit c) bs"
  by (simp add: conn_write_all_def as_far_as_def split: option.split)

lemma conn_read_some_keeps:
  "conn_read_some n c = (r, c1) \<Longrightarrow> tx_bytes c1 = tx_bytes c \<and> tx_limit c1 = tx_limit c"
  by (auto simp: conn_read_some_def split: prod.splits)

lemma metrics_connection_answer:
  assumes "read_some conn_ops 1024 c = (Inr buf, c1)"
  shows "\<exists>status ctype body.
    tx_bytes (metrics_connection conn_ops enc m c) = tx_bytes c @ as_far_as (tx_limit c) (as_bytes
      (''HTTP/1.1 '' @ status @ crlf @ ''Content-Type: '' @ ctype @ crlf @
       ''Content-Length: '' @ dec (length body) @ crlf @ crlf @ body)) \<and>
    (status, body) =
      (if prefix (as_bytes ''GET /metrics'') buf then (''200 OK'', enc m)
       else if prefix (as_bytes ''GET /health'') buf then (''200 OK'', ''OK'')
       else (''404 Not Found'', ''Not Found''))"
proof -
  have "conn_read_some 1024 c = (Inr buf, c1)" using assms by (simp add: conn_ops_def)
  then have "tx_bytes (metrics_connection conn_ops enc m c) =
      tx_bytes c @ as_far_as (tx_limit c) (as_bytes (metrics_response enc m (utf8_lossy buf)))"
    using conn_read_some_keeps [of 1024 c "Inr buf" c1]
    by (simp add: metrics_connection_def conn_ops_def conn_write_sent)
  moreover have "prefix ''GET /metrics'' (utf8_lossy buf) = prefix (as_bytes ''GET /metrics'') buf"
    "prefix ''GET /health'' (utf8_lossy buf) = prefix (as_bytes ''GET /health'') buf"
    by (rule prefix_utf8_lossy, simp add: is_ascii_def)+
  moreover obtain status ctype body where
    "metrics_response enc m (utf8_lossy buf) = http_text_response status ctype body"
    "(status, body) =
      (if prefix ''GET /metrics'' (utf8_lossy buf) then (''200 OK'', enc m)
       else if prefix ''GET /health'' (utf8_lossy buf) then (''200 OK'', ''OK'')
       else (''404 Not Found'', ''Not Found''))"
    using metrics_response_cases [of enc m "utf8_lossy buf"] by blast
  ultimately show ?thesis
    unfolding http_text_response_def by (intro exI [of _ status] exI [of _ ctype] exI [of _ body]) (simp only: simp_thms)
qed

lemma metrics_connection_error:
  "read_some conn_ops 1024 c = (Inl e, c1) \<Longrightarrow> tx_bytes (metrics_connection conn_ops enc m c) = tx_bytes c"
  by (auto simp: metrics_connection_def conn_ops_def dest: conn_read_some_keeps)

text \<open>The read waits as long as the client is silent.\<close>

lemma metrics_connection_waits:
  "tx_bytes (metrics_connection conn_ops enc m (c\<lparr>rx_script := Wait d # rx_script c\<rparr>)) =
     tx_bytes (metrics_connection conn_ops enc m c)"
proof -
  have some: "recv_some n evs w = (r, rest, w1) \<Longrightarrow> \<exists>w2. recv_some n evs w' = (r, rest, w2)" for n evs w w' r rest w1
    by (induction n evs w arbitrary: w' rule: recv_some.induct) (auto split: prod.splits)
  obtain r rest w1 where 1: "recv_some 1024 (rx_script c) (wait_time c) = (r, rest, w1)" by (metis prod.collapse)
  from some [OF this, of "wait_time c + d"] obtain w2 where
    "recv_some 1024 (rx_script c) (wait_time c + d) = (r, rest, w2)" by blast
  then have 2: "recv_some 1024 (Wait d # rx_script c) (wait_time c) = (r, rest, w2)" by (simp add: numeral_eq_Suc)
  show ?thesis
    using 1 2
    by (cases r) (simp_all add: metrics_connection_def conn_ops_def conn_read_some_def conn_write_sent)
qed

section \<open>Properties\<close>

text \<open>
  C39: The metrics endpoint.  If it cannot be bound nothing is served; if it is, every connection
  it accepts is handled by itself, whatever happens to the others and however many accepts fail.
  If its one read fails nothing is sent.  Otherwise, decided on the first bytes of the request as
  they were sent (none, when the client closes), it sends one response: the encoded metrics
  for \<open>GET /metrics\<close>, OK for \<open>GET /health\<close> and 404 for anything else, in each case with a
  Content-Length that is the length of the body that follows; all of it, or as much as can be
  written before the connection breaks.  The read has no timeout: a client may keep its task
  waiting as long as it likes, and is answered the same.
\<close>

theorem metrics_endpoint:
  "(bind addr = Inl e \<longrightarrow> start_server bind conn_ops (encode write_text) addr evs = []) \<and>
   (bind addr = Inr l \<and> i < length (accepted evs) \<and> accepted evs ! i = (m, c) \<longrightarrow>
    start_server bind conn_ops (encode write_text) addr evs ! i = metrics_connection conn_ops (encode write_text) m c \<and>
    (case read_some conn_ops 1024 c of
      (Inl d, c1) \<Rightarrow> tx_bytes (start_server bind conn_ops (encode write_text) addr evs ! i) = tx_bytes c
    | (Inr buf, c1) \<Rightarrow> (\<exists>status ctype body.
        tx_bytes (start_server bind conn_ops (encode write_text) addr evs ! i) =
          tx_bytes c @ as_far_as (tx_limit c) (as_bytes
            (''HTTP/1.1 '' @ status @ crlf @ ''Content-Type: '' @ ctype @ crlf @
             ''Content-Length: '' @ dec (length body) @ crlf @ crlf @ body)) \<and>
        (status, body) =
          (if prefix (as_bytes ''GET /metrics'') buf then (''200 OK'', write_text m [])
           else if prefix (as_bytes ''GET /health'') buf then (''200 OK'', ''OK'')
           else (''404 Not Found'', ''Not Found''))))) \<and>
   (\<forall>d. tx_bytes (metrics_connection conn_ops (encode write_text) m (c\<lparr>rx_script := Wait d # rx_script c\<rparr>)) =
      tx_bytes (metrics_connection conn_ops (encode write_text) m c))"
proof (intro conjI impI allI)
  assume b: "bind addr = Inr l \<and> i < length (accepted evs) \<and> accepted evs ! i = (m, c)"
  then show nth: "start_server bind conn_ops (encode write_text) addr evs ! i =
      metrics_connection conn_ops (encode write_text) m c" by (simp add: start_server_nth)
  obtain r c1 where r: "read_some conn_ops 1024 c = (r, c1)" by force
  have enc: "encode write_text m = write_text m []" by (simp add: encode_def Let_def)
  show "case read_some conn_ops 1024 c of
      (Inl d, c1) \<Rightarrow> tx_bytes (start_server bind conn_ops (encode write_text) addr evs ! i) = tx_bytes c
    | (Inr buf, c1) \<Rightarrow> (\<exists>status ctype body.
        tx_bytes (start_server bind conn_ops (encode write_text) addr evs ! i) =
          tx_bytes c @ as_far_as (tx_limit c) (as_bytes
            (''HTTP/1.1 '' @ status @ crlf @ ''Content-Type: '' @ ctype @ crlf @
             ''Content-Length: '' @ dec (length body) @ crlf @ crlf @ body)) \<and>
        (status, body) =
          (if prefix (as_bytes ''GET /metrics'') buf then (''200 OK'', write_text m [])
           else if prefix (as_bytes ''GET /health'') buf then (''200 OK'', ''OK'')
           else (''404 Not Found'', ''Not Found'')))"
  proof (cases r)
    case (Inl d)
    with r show ?thesis unfolding nth by (simp add: metrics_connection_error)
  next
    case (Inr buf)
    from metrics_connection_answer [OF r [unfolded Inr], of "encode write_text" m] r Inr show ?thesis
      unfolding nth enc by (simp only: prod.case sum.case)
  qed
qed (simp_all add: start_server_def metrics_connection_waits)

theorem metrics_endpoint_witness:
  "\<exists>ctype. tx_bytes (start_server Inr conn_ops (encode (\<lambda>m buf. buf @ ''x 1'')) ''0.0.0.0:9090''
       [Accept_Failed ''too many open files'', Accepted metrics_new (peer_sends (as_bytes ''GET /metrics''))] ! 0) =
     as_bytes (''HTTP/1.1 '' @ ''200 OK'' @ crlf @ ''Content-Type: '' @ ctype @ crlf @
       ''Content-Length: '' @ dec 3 @ crlf @ crlf @ ''x 1'')"
proof -
  let ?c = "peer_sends (as_bytes ''GET /metrics'')"
  let ?evs = "[Accept_Failed ''too many open files'', Accepted metrics_new ?c]"
  let ?sent = "\<lambda>m buf. buf @ ''x 1''"
  have r: "read_some conn_ops 1024 ?c = (Inr (as_bytes ''GET /metrics''), ?c\<lparr>rx_script := []\<rparr>)"
    by (simp add: conn_ops_def conn_read_some_def peer_sends_def as_bytes_def eval_nat_numeral)
  have l: "tx_limit ?c = None" by (simp add: peer_sends_def)
  have e: "0 < length (accepted ?evs)" "accepted ?evs ! 0 = (metrics_new, ?c)" by simp_all
  from metrics_endpoint [where bind = Inr and addr = "''0.0.0.0:9090''" and write_text = ?sent and evs = ?evs
      and i = 0 and l = "''0.0.0.0:9090''" and m = metrics_new and c = ?c, THEN conjunct2, THEN conjunct1] e
  obtain status ctype body where
    tx: "tx_bytes (start_server Inr conn_ops (encode ?sent) ''0.0.0.0:9090'' ?evs ! 0) = tx_bytes ?c @ as_bytes
      (''HTTP/1.1 '' @ status @ crlf @ ''Content-Type: '' @ ctype @ crlf @
       ''Content-Length: '' @ dec (length body) @ crlf @ crlf @ body)"
    and b: "status = ''200 OK''" "body = ''x 1''"
    by (auto simp: r l as_far_as_def simp del: as_bytes_append)
  have "tx_bytes ?c = []" "length ''x 1'' = 3" by (simp_all add: peer_sends_def)
  then show ?thesis using tx unfolding b by (intro exI [of _ ctype]) (simp only: append.simps)
qed

end
