(* ===== verification/Metrics_Tests.thy ===== *)
theory Metrics_Tests
  imports Metrics
begin

text \<open>
  What the program relies on of prometheus_client's text encoder, as the interface
  \<open>text_encoder\<close>, the names under which the metrics are exposed, and the unit tests of
  \<open>src/metrics.rs\<close>.
\<close>

section \<open>Counting\<close>

text \<open>
  The counters and the gauge are 64-bit atomics that wrap; \<open>get_or_create\<close> makes a counter of
  zero.
\<close>

definition inc_by :: "('a::len) word \<Rightarrow> 'a word \<Rightarrow> 'a word" where
  "inc_by n v = v + n"

definition dec_by :: "('a::len) word \<Rightarrow> 'a word \<Rightarrow> 'a word" where
  "dec_by n v = v - n"

definition get_or_create :: "request_labels \<Rightarrow> proxy_metrics \<Rightarrow> counter" where
  "get_or_create labels m = (case requests_total m labels of Some v \<Rightarrow> v | None \<Rightarrow> 0)"

definition count_requests :: "request_labels \<Rightarrow> counter \<Rightarrow> proxy_metrics \<Rightarrow> proxy_metrics" where
  "count_requests labels n m =
     m\<lparr>requests_total := (requests_total m)(labels \<mapsto> inc_by n (get_or_create labels m))\<rparr>"

text \<open>\<open>observe\<close> of the histogram.\<close>

definition observe :: "nat \<Rightarrow> proxy_metrics \<Rightarrow> proxy_metrics" where
  "observe d m = m\<lparr>observed := observed m @ [d]\<rparr>"

section \<open>The tests of values\<close>

definition http_forward :: request_labels where
  "http_forward = \<lparr>protocol_label_of = Label_http, action_label_of = Label_forward\<rparr>"

definition socks5_connect :: request_labels where
  "socks5_connect = \<lparr>protocol_label_of = Label_socks5, action_label_of = Label_tcp_connect\<rparr>"

definition test_metrics_creation_and_registration :: bool where
  "test_metrics_creation_and_registration =
     (let m = metrics_new\<lparr>connections_active := inc_by 1 (connections_active metrics_new)\<rparr>;
          m = m\<lparr>upstream_errors_total := inc_by 1 (upstream_errors_total m)\<rparr>;
          m = count_requests http_forward 1 m
      in connections_active m = 1 \<and> upstream_errors_total m = 1 \<and> get_or_create http_forward m = 1)"

definition test_counter_operations :: bool where
  "test_counter_operations \<longleftrightarrow> inc_by 5 (inc_by 1 (upstream_errors_total metrics_new)) = 6"

definition test_gauge_operations :: bool where
  "test_gauge_operations =
     (let v = inc_by 10 (inc_by 1 (connections_active metrics_new)); w = dec_by 5 (dec_by 1 v)
      in v = 11 \<and> w = 5)"

definition test_family_metrics_with_different_labels :: bool where
  "test_family_metrics_with_different_labels =
     (let m = count_requests socks5_connect 3 (count_requests http_forward 5 metrics_new)
      in get_or_create http_forward m = 5 \<and> get_or_create socks5_connect m = 3)"

definition test_protocol_label_encoding :: bool where
  "test_protocol_label_encoding \<longleftrightarrow>
     display_protocol Label_http = ''http'' \<and> display_protocol Label_socks5 = ''socks5''"

definition test_action_label_encoding :: bool where
  "test_action_label_encoding \<longleftrightarrow>
     display_action Label_forward = ''forward'' \<and> display_action Label_connect = ''connect'' \<and>
     display_action Label_tcp_connect = ''tcp_connect'' \<and>
     display_action Label_udp_associate = ''udp_associate''"

lemma metrics_tests_pass:
  "test_metrics_creation_and_registration" "test_counter_operations" "test_gauge_operations"
  "test_family_metrics_with_different_labels" "test_protocol_label_encoding" "test_action_label_encoding"
  by (simp_all add: test_metrics_creation_and_registration_def test_counter_operations_def
      test_gauge_operations_def test_family_metrics_with_different_labels_def
      test_protocol_label_encoding_def test_action_label_encoding_def inc_by_def dec_by_def
      count_requests_def get_or_create_def http_forward_def socks5_connect_def metrics_new_def Let_def)

section \<open>The exposed text\<close>

text \<open>A 64-bit gauge is signed.\<close>

definition show_i64 :: "i64 \<Rightarrow> string" where
  "show_i64 v = (if sint v < 0 then CHR ''-'' # dec (nat (- sint v)) else dec (nat (sint v)))"

definition quoted :: "string \<Rightarrow> string" where
  "quoted s = CHR 0x22 # s @ [CHR 0x22]"

definition label_set :: "request_labels \<Rightarrow> string" where
  "label_set labels =
     ''{protocol='' @ quoted (display_protocol (protocol_label_of labels)) @
     '',action='' @ quoted (display_action (action_label_of labels)) @ ''}''"

definition all_labels :: "request_labels list" where
  "all_labels = concat (map (\<lambda>p. map (\<lambda>a. \<lparr>protocol_label_of = p, action_label_of = a\<rparr>)
     [Label_forward, Label_connect, Label_tcp_connect, Label_udp_associate]) [Label_http, Label_socks5])"

text \<open>
  The samples of a registered metric, as prometheus_client documents its text format: a gauge
  under its name; a counter under its name with \<open>_total\<close> appended, whether the name ends so
  already or not; a family with the labels of each of its counters; the count of a histogram.
\<close>

fun metric_samples :: "proxy_metrics \<Rightarrow> string \<Rightarrow> metric \<Rightarrow> string list" where
  "metric_samples m name Connections_Active = [name @ '' '' @ show_i64 (connections_active m)]"
| "metric_samples m name Requests_Total =
     concat (map (\<lambda>labels. case requests_total m labels of
         Some v \<Rightarrow> [name @ ''_total'' @ label_set labels @ '' '' @ dec (unat v)] | None \<Rightarrow> []) all_labels)"
| "metric_samples m name Request_Duration_Seconds = [name @ ''_count '' @ dec (length (observed m))]"
| "metric_samples m name Upstream_Errors_Total = [name @ ''_total '' @ dec (unat (upstream_errors_total m))]"

lemma in_all_labels: "labels \<in> set all_labels"
  by (cases labels; cases "protocol_label_of labels"; cases "action_label_of labels") (auto simp: all_labels_def)

locale text_encoder =
  fixes enc :: "proxy_metrics \<Rightarrow> string \<Rightarrow> string"
  assumes samples: "(name, info, r) \<in> set (registry m) \<Longrightarrow> line \<in> set (metric_samples m name r) \<Longrightarrow>
    sublist line (enc m [])"
begin

lemma text_has:
  "(name, info, r) \<in> set (registry m) \<Longrightarrow> line \<in> set (metric_samples m name r) \<Longrightarrow> sublist line (encode enc m)"
  using samples by (simp add: encode_def)

text \<open>Both counters are registered with a name that ends in \<open>_total\<close>, so it is there twice.\<close>

lemma counters_exposed:
  assumes "registry m = registry metrics_new"
  shows "sublist (''peregrine_upstream_errors_total_total '' @ dec (unat (upstream_errors_total m))) (encode enc m)"
    and "requests_total m labels = Some v \<Longrightarrow>
      sublist (''peregrine_requests_total_total'' @ label_set labels @ '' '' @ dec (unat v)) (encode enc m)"
proof -
  show "sublist (''peregrine_upstream_errors_total_total '' @ dec (unat (upstream_errors_total m))) (encode enc m)"
    by (rule text_has [of "''peregrine_upstream_errors_total''" _ Upstream_Errors_Total])
      (simp_all add: assms metrics_new_def)
  show "sublist (''peregrine_requests_total_total'' @ label_set labels @ '' '' @ dec (unat v)) (encode enc m)"
    if "requests_total m labels = Some v"
    by (rule text_has [of "''peregrine_requests_total''" _ Requests_Total])
      (use that in_all_labels [of labels] in \<open>force simp: assms metrics_new_def\<close>)+
qed

lemma gauge_exposed:
  assumes "registry m = registry metrics_new"
  shows "sublist (''peregrine_connections_active '' @ show_i64 (connections_active m)) (encode enc m)"
    and "sublist (''peregrine_request_duration_seconds_count '' @ dec (length (observed m))) (encode enc m)"
proof -
  show "sublist (''peregrine_connections_active '' @ show_i64 (connections_active m)) (encode enc m)"
    by (rule text_has [of "''peregrine_connections_active''" _ Connections_Active])
      (simp_all add: assms metrics_new_def)
  show "sublist (''peregrine_request_duration_seconds_count '' @ dec (length (observed m))) (encode enc m)"
    by (rule text_has [of "''peregrine_request_duration_seconds''" _ Request_Duration_Seconds])
      (simp_all add: assms metrics_new_def)
qed

end

section \<open>The tests of the text\<close>

definition test_histogram_operations :: "(proxy_metrics \<Rightarrow> string \<Rightarrow> string) \<Rightarrow> bool" where
  "test_histogram_operations enc =
     (let metrics = observe 1000 (observe 100 (observe 1 metrics_new));
          encoded = encode enc metrics
      in sublist ''peregrine_request_duration_seconds'' encoded)"

definition test_metrics_encoding :: "(proxy_metrics \<Rightarrow> string \<Rightarrow> string) \<Rightarrow> bool" where
  "test_metrics_encoding enc =
     (let metrics = metrics_new\<lparr>connections_active := inc_by 42 (connections_active metrics_new),
                                upstream_errors_total := inc_by 7 (upstream_errors_total metrics_new)\<rparr>;
          metrics = observe 500 (count_requests http_forward 123 metrics);
          encoded = encode enc metrics
      in sublist ''peregrine_connections_active'' encoded \<and>
         sublist ''peregrine_requests_total'' encoded \<and>
         sublist ''peregrine_request_duration_seconds'' encoded \<and>
         sublist ''peregrine_upstream_errors_total'' encoded \<and>
         sublist ''42'' encoded \<and> sublist ''7'' encoded \<and> sublist ''123'' encoded \<and>
         sublist (''protocol='' @ quoted ''http'') encoded \<and>
         sublist (''action='' @ quoted ''forward'') encoded)"

lemma sample_texts: "dec 3 = ''3''" "dec 1 = ''1''" "show_i64 42 = ''42''" "dec (unat (7 :: counter)) = ''7''" "dec (unat (123 :: counter)) = ''123''"
  by code_simp+

lemma parts_of_samples:
  "sublist ''peregrine_connections_active'' ''peregrine_connections_active 42''"
  "sublist ''42'' ''peregrine_connections_active 42''"
  "sublist ''peregrine_upstream_errors_total'' ''peregrine_upstream_errors_total_total 7''"
  "sublist ''7'' ''peregrine_upstream_errors_total_total 7''"
  "sublist ''peregrine_request_duration_seconds'' ''peregrine_request_duration_seconds_count 1''"
  "sublist ''peregrine_request_duration_seconds'' ''peregrine_request_duration_seconds_count 3''"
  "sublist ''peregrine_requests_total'' (''peregrine_requests_total_total'' @ label_set http_forward @ '' '' @ ''123'')"
  "sublist ''123'' (''peregrine_requests_total_total'' @ label_set http_forward @ '' '' @ ''123'')"
  "sublist (''protocol='' @ quoted ''http'') (''peregrine_requests_total_total'' @ label_set http_forward @ '' '' @ ''123'')"
  "sublist (''action='' @ quoted ''forward'') (''peregrine_requests_total_total'' @ label_set http_forward @ '' '' @ ''123'')"
  by code_simp+

context text_encoder begin

lemma sublist_within: "sublist line (encode enc m) \<Longrightarrow> sublist part line \<Longrightarrow> sublist part (encode enc m)"
  by (rule sublist_order.order.trans)

lemma test_histogram_passes: "test_histogram_operations enc"
proof -
  let ?m = "observe 1000 (observe 100 (observe 1 metrics_new))"
  have m: "registry ?m = registry metrics_new" "length (observed ?m) = 3"
    by (simp_all add: observe_def metrics_new_def)
  from sublist_within [OF gauge_exposed(2) [OF m(1), unfolded m(2) sample_texts append.simps] parts_of_samples(6)]
  show ?thesis by (simp only: test_histogram_operations_def Let_def)
qed

lemma test_encoding_passes: "test_metrics_encoding enc"
proof -
  define n where "n = observe 500 (count_requests http_forward 123
     (metrics_new\<lparr>connections_active := inc_by 42 (connections_active metrics_new),
        upstream_errors_total := inc_by 7 (upstream_errors_total metrics_new)\<rparr>))"
  have r: "registry n = registry metrics_new" by (simp add: n_def observe_def count_requests_def)
  have v: "connections_active n = 42" "upstream_errors_total n = 7" "requests_total n http_forward = Some 123"
    "length (observed n) = 1"
    by (simp_all add: n_def observe_def count_requests_def inc_by_def get_or_create_def metrics_new_def)
  note gauge = sublist_within [OF gauge_exposed(1) [OF r, unfolded v sample_texts append.simps]]
  note durations = sublist_within [OF gauge_exposed(2) [OF r, unfolded v sample_texts append.simps]]
  note errors = sublist_within [OF counters_exposed(1) [OF r, unfolded v sample_texts append.simps]]
  note requests = sublist_within [OF counters_exposed(2) [OF r v(3), unfolded sample_texts]]
  show ?thesis
    unfolding test_metrics_encoding_def Let_def n_def [symmetric]
    by (intro conjI gauge [OF parts_of_samples(1)] gauge [OF parts_of_samples(2)] errors [OF parts_of_samples(3)]
        errors [OF parts_of_samples(4)] durations [OF parts_of_samples(5)] requests parts_of_samples)
qed

end

section \<open>A reference encoder\<close>

definition line_end :: string where
  "line_end = [CHR 0x0A]"

definition metric_text :: "proxy_metrics \<Rightarrow> string \<times> string \<times> metric \<Rightarrow> string" where
  "metric_text m = (\<lambda>(name, info, r).
     ''# HELP '' @ name @ '' '' @ info @ ''.'' @ line_end @
     concat (map (\<lambda>line. line @ line_end) (metric_samples m name r)))"

definition ref_text :: "proxy_metrics \<Rightarrow> string \<Rightarrow> string" where
  "ref_text m buf = buf @ concat (map (metric_text m) (registry m)) @ ''# EOF'' @ line_end"

lemma sublist_concat: "xs \<in> set xss \<Longrightarrow> sublist xs (concat xss)"
  by (auto simp: in_set_conv_decomp intro: sublist_appendI)

lemma sublist_inside: "sublist ys zs \<Longrightarrow> sublist ys (xs @ zs)" "sublist ys xs \<Longrightarrow> sublist ys (xs @ zs)"
  by (auto simp: sublist_def) (metis append.assoc)+

interpretation reftext: text_encoder ref_text
proof
  fix name info line :: string and r :: metric and m :: proxy_metrics
  assume reg: "(name, info, r) \<in> set (registry m)" and line: "line \<in> set (metric_samples m name r)"
  have "sublist (line @ line_end) (concat (map (\<lambda>line. line @ line_end) (metric_samples m name r)))"
    using line by (intro sublist_concat) simp
  then have "sublist line (concat (map (\<lambda>line. line @ line_end) (metric_samples m name r)))"
    by (rule sublist_order.order.trans [rotated]) simp
  then have "sublist line (metric_text m (name, info, r))"
    unfolding metric_text_def case_prod_conv by (intro sublist_inside(1))
  moreover have "sublist (metric_text m (name, info, r)) (concat (map (metric_text m) (registry m)))"
    using reg by (intro sublist_concat) simp
  ultimately show "sublist line (ref_text m [])"
    unfolding ref_text_def append.simps by (intro sublist_inside(2)) (rule sublist_order.order.trans)
qed

lemma reference_tests_pass: "test_histogram_operations ref_text" "test_metrics_encoding ref_text"
  by (rule reftext.test_histogram_passes reftext.test_encoding_passes)+

end
