(* ===== verification/Str_Slices.thy ===== *)
theory Str_Slices
  imports Acl_Domain Acl_Auth Upstream_Chain Http_Handler
begin

text \<open>
  Slicing a \<open>str\<close> by byte positions panics unless the position is between two characters.  Every
  slice the program takes is at an ASCII character it has found or tested for, and UTF-8 splits
  there: the types of the program's texts are kept, and no slice panics.
\<close>

section \<open>UTF-8 around an ASCII byte\<close>

lemma utf8_conts_until:
  "utf8_conts n (bs @ c # cs) k = (m, True) \<Longrightarrow> c < 0x80 \<Longrightarrow> utf8_conts n bs k = (m, True)"
  by (induction n bs k rule: utf8_conts.induct) (auto dest: leD split: if_splits)

lemma utf8_second_low: "utf8_second b = Some (n, lo, hi) \<Longrightarrow> 0x80 \<le> lo"
  by (auto simp: utf8_second_def split: if_splits)

lemma utf8_next_until:
  assumes "utf8_next (b # bs @ c # cs) = (m, True)" "c < 0x80"
  shows "utf8_next (b # bs) = (m, True)"
proof (cases "b < 0x80")
  case True
  with assms show ?thesis by (simp add: utf8_next.simps)
next
  case False
  with assms(1) obtain n lo hi where s: "utf8_second b = Some (n, lo, hi)"
    by (auto simp: utf8_next.simps split: option.splits)
  show ?thesis
  proof (cases bs)
    case Nil
    have "\<not> lo \<le> c" using utf8_second_low [OF s] assms(2) by (meson leD order_less_le_trans)
    with assms(1) False s Nil show ?thesis by (simp add: utf8_next.simps)
  next
    case (Cons d ds)
    with assms False s show ?thesis
      by (auto simp: utf8_next.simps dest: utf8_conts_until split: if_splits)
  qed
qed

lemma utf8_valid_split:
  "utf8_valid (a @ c # b) \<Longrightarrow> c < 0x80 \<Longrightarrow> utf8_valid a \<and> utf8_valid b"
proof (induction a rule: utf8_valid.induct)
  case 1
  then show ?case by (simp add: utf8_valid_ascii_Cons)
next
  case (2 x xs)
  obtain n where n: "utf8_next (x # xs @ c # b) = (n, True)"
    using "2.prems"(1) by (cases "utf8_next (x # xs @ c # b)") (auto simp: utf8_valid.simps)
  have m: "utf8_next (x # xs) = (n, True)" by (rule utf8_next_until [OF n "2.prems"(2)])
  then have le: "n \<le> length (x # xs)" using utf8_next_le by fastforce
  have "drop n ((x # xs) @ c # b) = drop n (x # xs) @ c # b"
    using le by (simp only: drop_append) simp
  with "2.prems"(1) n have "utf8_valid (drop n (x # xs) @ c # b)" by (simp add: utf8_valid.simps)
  with "2.IH" "2.prems"(2) m show ?case by (simp add: utf8_valid.simps)
qed

lemma rust_string_split:
  "rust_string (s @ c # t) \<Longrightarrow> is_ascii [c] \<Longrightarrow> rust_string s \<and> rust_string t"
  using utf8_valid_split [of "as_bytes s" "of_char c" "as_bytes t"]
  by (simp add: rust_string_def as_bytes_def of_char_ascii)

lemma rust_string_find:
  "rust_string s \<Longrightarrow> find_char c s = Some i \<Longrightarrow> is_ascii [c] \<Longrightarrow>
     rust_string (take i s) \<and> rust_string (drop (Suc i) s)"
  using find_char_Some [of c s i] rust_string_split [of "take i s" c "drop (Suc i) s"] by simp

lemma rust_string_rfind:
  "rust_string s \<Longrightarrow> rfind_char c s = Some i \<Longrightarrow> is_ascii [c] \<Longrightarrow>
     rust_string (take i s) \<and> rust_string (drop (Suc i) s)"
  using rfind_char_Some [of c s i] rust_string_split [of "take i s" c "drop (Suc i) s"] by simp

lemma rust_string_drop_prefix:
  "rust_string s \<Longrightarrow> prefix p s \<Longrightarrow> is_ascii p \<Longrightarrow> rust_string (drop (length p) s)"
  by (auto simp: prefix_def rust_string_append rust_string_ascii)

lemma is_ascii_colon: "is_ascii '':''"
  by simp

section \<open>Property\<close>

text \<open>
  C40: Types of texts are kept by slicing.  Of a valid UTF-8 text, the host that \<open>extract_host\<close>,
  \<open>parse_addr_to_target\<close> and \<open>parse_host_port\<close> cut off before the last colon is valid, and so
  is the port text behind it; the regular expression behind a \<open>~\<close> and the base64 text behind
  \<open>Basic\<close> are; and whatever a base64 decoder returns, so are the user name and the password.
  Each cut is next to an ASCII character, so no slice is inside a character.
\<close>

theorem str_slices_valid:
  assumes "rust_string s"
  shows "rust_string (extract_host s) \<and>
    (\<forall>h p. parse_addr_to_target s = Inr (Address h p) \<longrightarrow> rust_string h) \<and>
    (\<forall>h p. parse_host_port s = Some (h, p) \<longrightarrow> rust_string h) \<and>
    (\<forall>i. rfind_char (CHR '':'') s = Some i \<longrightarrow> rust_string (drop (i + 1) s)) \<and>
    (\<forall>M globs regexes exact. prefix ''~'' s \<longrightarrow>
       scan_patterns M [s] ([], [], {}) = Inr (globs, regexes, exact) \<longrightarrow> list_all rust_string regexes) \<and>
    (prefix ''Basic '' s \<longrightarrow> rust_string (drop 6 s)) \<and>
    (\<forall>dec u p. parse_basic_auth dec s = Some (u, p) \<longrightarrow> rust_string u \<and> rust_string p)"
proof (intro conjI allI impI)
  note colon = rust_string_rfind [OF assms _ is_ascii_colon]
  show "rust_string (extract_host s)"
    using assms colon by (auto simp: extract_host_def split: option.split)
  show "rust_string h" if "parse_addr_to_target s = Inr (Address h p)" for h p
    using that colon by (auto simp: parse_addr_to_target_def Let_def split: option.splits sum.splits)
  show "rust_string h" if "parse_host_port s = Some (h, p)" for h p
    using that colon by (auto simp: parse_host_port_def Let_def split: option.splits)
  show "rust_string (drop (i + 1) s)" if "rfind_char (CHR '':'') s = Some i" for i
    using that colon by simp
  show "list_all rust_string regexes"
    if "prefix ''~'' s" "scan_patterns M [s] ([], [], {}) = Inr (globs, regexes, exact)"
    for M :: "('a, 'b, 'c) matchers" and globs regexes exact
    using that rust_string_drop_prefix [OF assms, of "''~''"] by auto
  show "rust_string (drop 6 s)" if "prefix ''Basic '' s"
    using rust_string_drop_prefix [OF assms that] by (simp add: eval_nat_numeral)
  fix dec u p assume "parse_basic_auth dec s = Some (u, p)"
  then obtain d i where d: "rust_string d" "find_char (CHR '':'') d = Some i"
      "u = take i d" "p = drop (Suc i) d"
    by (auto simp: parse_basic_auth_def Let_def dest: from_utf8_rust_string split: if_splits option.splits)
  with rust_string_find [OF d(1,2) is_ascii_colon] show "rust_string u" "rust_string p" by simp_all
qed

text \<open>A host of two bytes that are one character, with a port.\<close>

theorem str_slices_valid_witness:
  "rust_string (of_bytes [0xC3, 0xA9] @ '':80'') \<and>
   rust_string (extract_host (of_bytes [0xC3, 0xA9] @ '':80'')) \<and>
   extract_host (of_bytes [0xC3, 0xA9] @ '':80'') = of_bytes [0xC3, 0xA9]"
proof -
  have r: "rust_string (of_bytes [0xC3, 0xA9] @ '':80'')" by code_simp
  moreover have "extract_host (of_bytes [0xC3, 0xA9] @ '':80'') = of_bytes [0xC3, 0xA9]" by code_simp
  ultimately show ?thesis using str_slices_valid [OF r] by simp
qed

end
