(* ===== verification/Regex_Ref.thy ===== *)
theory Regex_Ref
  imports Acl_Ref
begin

text \<open>
  A second instance of the pattern libraries, with a regular expression matcher large enough for
  the expressions of the repository's tests: characters, the dot, escapes, groups, alternatives,
  the three repetitions and the end anchor.  Matching is by derivatives.  An expression with
  another construct is refused.
\<close>

section \<open>Expressions\<close>

datatype regex =
    Nothing
  | Empty
  | Char char
  | Dot
  | End_Anchor
  | Then regex regex
  | Either regex regex
  | Many regex

text \<open>\<open>at_end\<close> tells whether the text ends here.\<close>

fun nullable :: "bool \<Rightarrow> regex \<Rightarrow> bool" where
  "nullable at_end Nothing = False"
| "nullable at_end Empty = True"
| "nullable at_end (Char c) = False"
| "nullable at_end Dot = False"
| "nullable at_end End_Anchor = at_end"
| "nullable at_end (Then r s) = (nullable at_end r \<and> nullable at_end s)"
| "nullable at_end (Either r s) = (nullable at_end r \<or> nullable at_end s)"
| "nullable at_end (Many r) = True"

definition mk_then :: "regex \<Rightarrow> regex \<Rightarrow> regex" where
  "mk_then r s = (if r = Nothing then Nothing else if r = Empty then s else Then r s)"

definition mk_either :: "regex \<Rightarrow> regex \<Rightarrow> regex" where
  "mk_either r s = (if r = Nothing then s else if s = Nothing \<or> r = s then r else Either r s)"

fun deriv_by :: "char \<Rightarrow> regex \<Rightarrow> regex" where
  "deriv_by c Nothing = Nothing"
| "deriv_by c Empty = Nothing"
| "deriv_by c (Char d) = (if c = d then Empty else Nothing)"
| "deriv_by c Dot = (if c = CHR 0x0A then Nothing else Empty)"
| "deriv_by c End_Anchor = Nothing"
| "deriv_by c (Then r s) =
     mk_either (mk_then (deriv_by c r) s) (if nullable False r then deriv_by c s else Nothing)"
| "deriv_by c (Either r s) = mk_either (deriv_by c r) (deriv_by c s)"
| "deriv_by c (Many r) = mk_then (deriv_by c r) (Many r)"

text \<open>An expression matches at the front of a text, and anywhere in it.\<close>

fun matches_front :: "regex \<Rightarrow> string \<Rightarrow> bool" where
  "matches_front r [] = nullable True r"
| "matches_front r (c # cs) = (nullable False r \<or> matches_front (deriv_by c r) cs)"

fun matches_in :: "regex \<Rightarrow> string \<Rightarrow> bool" where
  "matches_in r [] = matches_front r []"
| "matches_in r (c # cs) = (matches_front r (c # cs) \<or> matches_in r cs)"

section \<open>What an expression means\<close>

text \<open>\<open>in_regex r u e\<close>: the expression matches \<open>u\<close>, where \<open>e\<close> tells that the text ends after it.\<close>

inductive in_regex :: "regex \<Rightarrow> string \<Rightarrow> bool \<Rightarrow> bool" where
  empty: "in_regex Empty [] e"
| char: "in_regex (Char c) [c] e"
| dot: "c \<noteq> CHR 0x0A \<Longrightarrow> in_regex Dot [c] e"
| anchor: "in_regex End_Anchor [] True"
| seq: "in_regex r u (e \<and> v = []) \<Longrightarrow> in_regex s v e \<Longrightarrow> in_regex (Then r s) (u @ v) e"
| left: "in_regex r u e \<Longrightarrow> in_regex (Either r s) u e"
| right: "in_regex s u e \<Longrightarrow> in_regex (Either r s) u e"
| stop: "in_regex (Many r) [] e"
| more: "in_regex r (c # u) (e \<and> v = []) \<Longrightarrow> in_regex (Many r) v e \<Longrightarrow> in_regex (Many r) (c # u @ v) e"

inductive_simps in_regex_simps:
  "in_regex Nothing u e" "in_regex Empty u e" "in_regex (Char c) u e" "in_regex Dot u e"
  "in_regex End_Anchor u e" "in_regex (Then r s) u e" "in_regex (Either r s) u e"

inductive_simps in_regex_Many: "in_regex (Many r) u e"

lemma nullable_iff: "in_regex r [] e \<longleftrightarrow> nullable e r"
  by (induction r) (simp_all add: in_regex_simps in_regex.stop)

lemma mk_then_iff: "in_regex (mk_then r s) u e \<longleftrightarrow> in_regex (Then r s) u e"
proof -
  consider "r = Nothing" | "r = Empty" | "r \<noteq> Nothing" "r \<noteq> Empty" by blast
  then show ?thesis by cases (simp_all add: mk_then_def in_regex_simps)
qed

lemma mk_either_iff: "in_regex (mk_either r s) u e \<longleftrightarrow> in_regex r u e \<or> in_regex s u e"
  by (auto simp: mk_either_def in_regex_simps)

lemma then_cons:
  "in_regex (Then r s) (c # u) e \<longleftrightarrow>
   (\<exists>v w. u = v @ w \<and> in_regex r (c # v) (e \<and> w = []) \<and> in_regex s w e) \<or>
   nullable False r \<and> in_regex s (c # u) e"
proof -
  have "in_regex (Then r s) (c # u) e \<longleftrightarrow>
      (\<exists>v w. c # u = v @ w \<and> in_regex r v (e \<and> w = []) \<and> in_regex s w e)"
    by (simp add: in_regex_simps)
  then show ?thesis by (simp add: Cons_eq_append_conv nullable_iff [symmetric] ex_disj_distrib conj_disj_distribR) blast
qed

lemma many_cons:
  "in_regex (Many r) (c # u) e \<longleftrightarrow>
   (\<exists>v w. u = v @ w \<and> in_regex r (c # v) (e \<and> w = []) \<and> in_regex (Many r) w e)"
  by (subst in_regex_Many) auto

lemma deriv_by_iff: "in_regex (deriv_by c r) u e \<longleftrightarrow> in_regex r (c # u) e"
proof (induction r arbitrary: u e)
  case (Then r s)
  have "in_regex (Then (deriv_by c r) s) u e \<longleftrightarrow>
      (\<exists>v w. u = v @ w \<and> in_regex r (c # v) (e \<and> w = []) \<and> in_regex s w e)"
    by (simp add: in_regex_simps Then.IH(1))
  then show ?case by (auto simp: mk_either_iff mk_then_iff then_cons Then.IH(2) in_regex_simps(1))
next
  case (Many r)
  have "in_regex (Then (deriv_by c r) (Many r)) u e \<longleftrightarrow>
      (\<exists>v w. u = v @ w \<and> in_regex r (c # v) (e \<and> w = []) \<and> in_regex (Many r) w e)"
    by (simp add: in_regex_simps Many.IH)
  then show ?case by (simp add: mk_then_iff many_cons)
qed (auto simp: mk_either_iff in_regex_simps)

lemma matches_front_iff: "matches_front r t \<longleftrightarrow> (\<exists>u v. t = u @ v \<and> in_regex r u (v = []))"
proof (induction t arbitrary: r)
  case Nil
  then show ?case by (simp add: nullable_iff)
next
  case (Cons c t)
  have "(\<exists>u v. c # t = u @ v \<and> in_regex r u (v = [])) \<longleftrightarrow>
      in_regex r [] False \<or> (\<exists>u v. t = u @ v \<and> in_regex r (c # u) (v = []))"
    by (auto simp: Cons_eq_append_conv) (metis list.distinct(1))+
  with Cons show ?case by (simp add: nullable_iff deriv_by_iff)
qed

lemma matches_in_iff:
  "matches_in r t \<longleftrightarrow> (\<exists>x u v. t = x @ u @ v \<and> in_regex r u (v = []))"
proof (induction t)
  case Nil
  then show ?case by (simp add: nullable_iff)
next
  case (Cons c t)
  have "(\<exists>x u v. c # t = x @ u @ v \<and> in_regex r u (v = [])) \<longleftrightarrow>
      (\<exists>u v. c # t = u @ v \<and> in_regex r u (v = [])) \<or> (\<exists>x u v. t = x @ u @ v \<and> in_regex r u (v = []))"
    by (auto simp: Cons_eq_append_conv) blast+
  with Cons show ?case by (simp add: matches_front_iff)
qed

section \<open>Reading an expression\<close>

text \<open>
  One character or group at a time; \<open>None\<close> is a syntax error.  Every call consumes a character
  or descends once, so three times the length of the text and three more is enough fuel.
\<close>

fun repeated :: "regex \<Rightarrow> string \<Rightarrow> regex \<times> string" where
  "repeated r (c # cs) =
     (if c = CHR ''*'' then repeated (Many r) cs
      else if c = CHR ''+'' then repeated (Then r (Many r)) cs
      else if c = CHR ''?'' then repeated (Either r Empty) cs
      else (r, c # cs))"
| "repeated r [] = (r, [])"

fun read_either :: "nat \<Rightarrow> string \<Rightarrow> (regex \<times> string) option"
  and read_then :: "nat \<Rightarrow> string \<Rightarrow> (regex \<times> string) option"
  and read_atom :: "nat \<Rightarrow> string \<Rightarrow> (regex \<times> string) option"
where
  "read_either 0 s = None"
| "read_either (Suc n) s =
     (case read_then n s of
        Some (r, c # rest) \<Rightarrow>
          if c = CHR ''|'' then map_option (apfst (Either r)) (read_either n rest) else Some (r, c # rest)
      | other \<Rightarrow> other)"
| "read_then 0 s = None"
| "read_then (Suc n) s =
     (if s = [] \<or> hd s \<in> set ''|)'' then Some (Empty, s)
      else (case read_atom n s of
              None \<Rightarrow> None
            | Some (a, rest) \<Rightarrow>
                (case repeated a rest of
                   (r, rest') \<Rightarrow> map_option (apfst (mk_then r)) (read_then n rest'))))"
| "read_atom 0 s = None"
| "read_atom (Suc n) [] = None"
| "read_atom (Suc n) (c # cs) =
     (if c = CHR ''.'' then Some (Dot, cs)
      else if c = CHR ''$'' then Some (End_Anchor, cs)
      else if c = CHR 0x5C then (case cs of [] \<Rightarrow> None | d # ds \<Rightarrow> Some (Char d, ds))
      else if c = CHR ''('' then
        (case read_either n cs of Some (r, d # rest) \<Rightarrow> Some (r, rest) | _ \<Rightarrow> None)
      else if c \<in> set ''[]{}^*+?'' then None
      else Some (Char c, cs))"

definition parse_regex :: "string \<Rightarrow> regex option" where
  "parse_regex s =
     (case read_either (3 * length s + 3) s of Some (r, []) \<Rightarrow> Some r | _ \<Rightarrow> None)"

section \<open>The instance\<close>

definition regex_accepts :: "string \<Rightarrow> string \<Rightarrow> bool" where
  "regex_accepts p s = (case parse_regex p of Some r \<Rightarrow> matches_in r s | None \<Rightarrow> False)"

definition regex_matchers :: "(string, string list, string list) matchers" where
  "regex_matchers = ref_matchers
     \<lparr>regexset_new := (\<lambda>rs. if list_all (\<lambda>r. parse_regex r \<noteq> None) rs then Inr rs else Inl ''regex parse error''),
      regexset_is_match := (\<lambda>rs d. list_ex (\<lambda>r. regex_accepts r d) rs)\<rparr>"

interpretation regex_patterns: pattern_sets regex_matchers glob_match regex_accepts
proof
  show "\<exists>g. glob_new regex_matchers p = Inr g \<and> (\<forall>d. glob_match g d \<longleftrightarrow> d = p)" if "literal_pattern p" for p
    using ref_glob_new_literal [OF that] by (auto simp: regex_matchers_def)
qed (auto simp: regex_matchers_def ref_matchers_def list_ex_iff split: if_splits)

end
