(* ===== verification/Repo_Tests.thy ===== *)
theory Repo_Tests
  imports Regex_Ref Base64_Ref Rust_Words Server Config_Model
begin

text \<open>
  The unit tests beside the code (\<open>src/acl/auth.rs\<close>, \<open>src/acl/domain_filter.rs\<close>,
  \<open>src/server.rs\<close>), each as the conjunction of its assertions on the model, and the lemmas that
  they pass.  The base64 crate and the pattern crates are the reference
  instances; the tests of \<open>chain.rs\<close> are in \<open>Chain_World\<close>, those of
  \<open>metrics.rs\<close> in \<open>Metrics_Tests\<close>.
\<close>

section \<open>Credentials\<close>

definition user1 :: user_credential where
  "user1 = \<lparr>username = ''user1'', password = ''pass1''\<rparr>"

definition user2 :: user_credential where
  "user2 = \<lparr>username = ''user2'', password = ''pass2''\<rparr>"

definition test_verify_credentials_success :: bool where
  "test_verify_credentials_success \<longleftrightarrow>
     verify_credentials ''user1'' ''pass1'' [user1, user2] \<and>
     verify_credentials ''user2'' ''pass2'' [user1, user2]"

definition test_verify_credentials_failure :: bool where
  "test_verify_credentials_failure \<longleftrightarrow>
     \<not> verify_credentials ''user1'' ''wrong'' [user1] \<and>
     \<not> verify_credentials ''wrong'' ''pass1'' [user1] \<and>
     \<not> verify_credentials ''nonexistent'' ''anything'' [user1]"

definition test_verify_credentials_empty_list :: bool where
  "test_verify_credentials_empty_list \<longleftrightarrow> \<not> verify_credentials ''anyone'' ''anything'' []"

lemma credential_tests_pass:
  "test_verify_credentials_success" "test_verify_credentials_failure" "test_verify_credentials_empty_list"
  by code_simp+

section \<open>The Authorization header\<close>

text \<open>
  The header value with the credentials in base64.  The tests hold for every coder that obeys
  the laws of \<open>base64_codec\<close>; the two headers that are not made by the encoder need no law, or
  that the decoder refuses the text.
\<close>

definition basic_value :: "(bytes \<Rightarrow> string) \<Rightarrow> string \<Rightarrow> string" where
  "basic_value b64_encode credentials = ''Basic '' @ b64_encode (as_bytes credentials)"

type_synonym header_test = "(bytes \<Rightarrow> string) \<Rightarrow> (string \<Rightarrow> bytes option) \<Rightarrow> bool"

definition test_parse_basic_auth_valid :: header_test where
  "test_parse_basic_auth_valid enc dec_b64 \<longleftrightarrow>
     parse_basic_auth dec_b64 (basic_value enc ''user:pass'') = Some (''user'', ''pass'')"

definition test_parse_basic_auth_valid_with_colon_in_password :: header_test where
  "test_parse_basic_auth_valid_with_colon_in_password enc dec_b64 \<longleftrightarrow>
     parse_basic_auth dec_b64 (basic_value enc ''user:pass:word'') = Some (''user'', ''pass:word'')"

definition test_parse_basic_auth_invalid_prefix :: header_test where
  "test_parse_basic_auth_invalid_prefix enc dec_b64 \<longleftrightarrow>
     parse_basic_auth dec_b64 ''Bearer token123'' = None \<and>
     parse_basic_auth dec_b64 ''basic dXNlcjpwYXNz'' = None"

definition test_parse_basic_auth_invalid_base64 :: header_test where
  "test_parse_basic_auth_invalid_base64 enc dec_b64 \<longleftrightarrow>
     parse_basic_auth dec_b64 ''Basic invalid_base64!'' = None"

definition test_parse_basic_auth_no_colon :: header_test where
  "test_parse_basic_auth_no_colon enc dec_b64 \<longleftrightarrow>
     parse_basic_auth dec_b64 (basic_value enc ''userpassword'') = None"

definition test_parse_basic_auth_empty_username :: header_test where
  "test_parse_basic_auth_empty_username enc dec_b64 \<longleftrightarrow>
     parse_basic_auth dec_b64 (basic_value enc '':password'') = Some ('''', ''password'')"

definition test_parse_basic_auth_empty_password :: header_test where
  "test_parse_basic_auth_empty_password enc dec_b64 \<longleftrightarrow>
     parse_basic_auth dec_b64 (basic_value enc ''username:'') = Some (''username'', '''')"

definition test_parse_basic_auth_with_whitespace :: header_test where
  "test_parse_basic_auth_with_whitespace enc dec_b64 \<longleftrightarrow>
     parse_basic_auth dec_b64 (''  '' @ basic_value enc ''user:pass'' @ ''  '') = Some (''user'', ''pass'')"

lemmas header_test_defs =
  test_parse_basic_auth_valid_def test_parse_basic_auth_valid_with_colon_in_password_def
  test_parse_basic_auth_no_colon_def test_parse_basic_auth_empty_username_def
  test_parse_basic_auth_empty_password_def test_parse_basic_auth_with_whitespace_def

text \<open>What \<open>parse_basic_auth\<close> makes of a header whose white space is gone.\<close>

definition split_credentials :: "string \<Rightarrow> (string \<times> string) option" where
  "split_credentials s =
     (case find_char (CHR '':'') s of
        Some i \<Rightarrow> Some (take i s, drop (i + 1) s)
      | None \<Rightarrow> None)"

context base64_codec
begin

lemma basic_value_ends:
  assumes "credentials \<noteq> []"
  shows "basic_value b64_encode credentials \<noteq> []"
    and "hd (basic_value b64_encode credentials) = CHR ''B''"
    and "last (basic_value b64_encode credentials) \<in> base64_chars"
proof -
  have ne: "b64_encode (as_bytes credentials) \<noteq> []"
    using assms by (intro encode_nonempty) (simp add: as_bytes_def)
  then show "last (basic_value b64_encode credentials) \<in> base64_chars"
    using encode_chars [of "as_bytes credentials"] last_in_set [OF ne] by (auto simp: basic_value_def)
qed (simp_all add: basic_value_def)

lemma parse_trimmed:
  "trim value = basic_value b64_encode credentials \<Longrightarrow> is_ascii credentials \<Longrightarrow>
   parse_basic_auth b64_decode value = split_credentials credentials"
  using from_utf8_as_bytes [OF rust_string_ascii, of credentials]
  by (simp add: parse_basic_auth_def Let_def basic_value_def decode_encode split_credentials_def)

lemma parse_value:
  assumes "credentials \<noteq> []" "is_ascii credentials"
  shows "parse_basic_auth b64_decode (basic_value b64_encode credentials) = split_credentials credentials"
    and "parse_basic_auth b64_decode (''  '' @ basic_value b64_encode credentials @ ''  '') =
      split_credentials credentials"
  using basic_value_ends [OF assms(1)] base64_char_bounds [OF basic_value_ends(3) [OF assms(1)]] assms(2)
  by (intro parse_trimmed trim_id trim_spaces; simp)+

lemma header_tests:
  "test_parse_basic_auth_valid b64_encode b64_decode"
  "test_parse_basic_auth_valid_with_colon_in_password b64_encode b64_decode"
  "test_parse_basic_auth_no_colon b64_encode b64_decode"
  "test_parse_basic_auth_empty_username b64_encode b64_decode"
  "test_parse_basic_auth_empty_password b64_encode b64_decode"
  "test_parse_basic_auth_with_whitespace b64_encode b64_decode"
  unfolding header_test_defs
  by (subst parse_value; simp add: is_ascii_def split_credentials_def)+

end

lemma trim_visible_header:
  "trim ''Bearer token123'' = ''Bearer token123''" "trim ''basic dXNlcjpwYXNz'' = ''basic dXNlcjpwYXNz''"
  "trim ''Basic invalid_base64!'' = ''Basic invalid_base64!''"
  by (rule trim_id; simp)+

lemma header_tests_other:
  "test_parse_basic_auth_invalid_prefix enc dec_b64"
  "dec_b64 ''invalid_base64!'' = None \<Longrightarrow> test_parse_basic_auth_invalid_base64 enc dec_b64"
  by (simp_all add: test_parse_basic_auth_invalid_prefix_def test_parse_basic_auth_invalid_base64_def
      parse_basic_auth_def trim_visible_header Let_def)

lemma authorization_tests_pass:
  "test_parse_basic_auth_valid ref_encode ref_decode"
  "test_parse_basic_auth_valid_with_colon_in_password ref_encode ref_decode"
  "test_parse_basic_auth_invalid_prefix ref_encode ref_decode"
  "test_parse_basic_auth_invalid_base64 ref_encode ref_decode"
  "test_parse_basic_auth_no_colon ref_encode ref_decode"
  "test_parse_basic_auth_empty_username ref_encode ref_decode"
  "test_parse_basic_auth_empty_password ref_encode ref_decode"
  "test_parse_basic_auth_with_whitespace ref_encode ref_decode"
proof -
  have "ref_decode ''invalid_base64!'' = None" by code_simp
  then show "test_parse_basic_auth_invalid_base64 ref_encode ref_decode" by (rule header_tests_other)
qed (rule ref64.header_tests header_tests_other)+

section \<open>Domain filters\<close>

text \<open>The filter of the patterns is built, accepts the first domains and refuses the others.\<close>

definition filter_decides :: "string list \<Rightarrow> string list \<Rightarrow> string list \<Rightarrow> bool" where
  "filter_decides patterns accepts refuses =
     (case domain_filter_new regex_matchers patterns of
        Inl e \<Rightarrow> False
      | Inr f \<Rightarrow>
          list_all (filter_matches regex_matchers f) accepts \<and>
          \<not> list_ex (filter_matches regex_matchers f) refuses)"

definition test_exact_match :: bool where
  "test_exact_match = filter_decides [''example.com''] [''example.com''] [''test.com'', ''sub.example.com'']"

definition test_glob_wildcard :: bool where
  "test_glob_wildcard =
     filter_decides [''*.example.com''] [''sub.example.com'', ''deep.sub.example.com'']
       [''example.com'', ''notexample.com'']"

definition test_glob_prefix_wildcard :: bool where
  "test_glob_prefix_wildcard =
     filter_decides [''test.*''] [''test.com'', ''test.net'', ''test.org''] [''nottest.com'']"

text \<open>A backslash has no literal in a list of characters; it is \<open>CHR 0x5C\<close>.\<close>

definition escaped_dot :: string where
  "escaped_dot = [CHR 0x5C, CHR ''.'']"

definition test_regex_pattern :: bool where
  "test_regex_pattern =
     filter_decides [''~.*'' @ escaped_dot @ ''test'' @ escaped_dot @ ''(com|net)$'']
       [''sub.test.com'', ''another.test.net''] [''test.org'', ''nottest.com'']"

definition test_multi_pattern :: bool where
  "test_multi_pattern =
     filter_decides [''exact.com'', ''*.wildcard.com'', ''~.*'' @ escaped_dot @ ''regex'' @ escaped_dot @ ''net$'']
       [''exact.com'', ''sub.wildcard.com'', ''sub.regex.net''] [''nomatch.com'']"

definition test_empty_filter :: bool where
  "test_empty_filter =
     (case domain_filter_new regex_matchers [] of
        Inl e \<Rightarrow> False
      | Inr f \<Rightarrow> filter_is_empty f \<and> \<not> filter_matches regex_matchers f ''any.domain.com'')"

definition test_invalid_regex :: bool where
  "test_invalid_regex = (case domain_filter_new regex_matchers [''~[invalid''] of Inl e \<Rightarrow> True | Inr f \<Rightarrow> False)"

lemma domain_filter_tests_pass:
  "test_exact_match" "test_glob_wildcard" "test_glob_prefix_wildcard" "test_regex_pattern"
  "test_multi_pattern" "test_empty_filter" "test_invalid_regex"
  by code_simp+

section \<open>The TLS identity\<close>

text \<open>
  What the tests establish about the files: which paths exist, and how many certificates and
  keys are in a file.  The library refuses an invalid certificate with some error.
\<close>

definition fails_with :: "string \<Rightarrow> string + 'a \<Rightarrow> bool" where
  "fails_with part result = (case result of Inl e \<Rightarrow> sublist part e | Inr a \<Rightarrow> False)"

definition test_load_tls_config_missing_files ::
  "('file, 'cert, 'key, 'acceptor) tls_files \<Rightarrow> bool"
where
  "test_load_tls_config_missing_files F =
     fails_with ''Failed to open cert file''
       (load_tls_acceptor F \<lparr>cert = ''/nonexistent/cert.pem'', key = ''/nonexistent/key.pem''\<rparr>)"

definition test_load_tls_config_empty_files ::
  "('file, 'cert, 'key, 'acceptor) tls_files \<Rightarrow> tls_config \<Rightarrow> bool"
where
  "test_load_tls_config_empty_files F config =
     fails_with ''No certificates found'' (load_tls_acceptor F config)"

definition test_load_tls_config_invalid_cert ::
  "('file, 'cert, 'key, 'acceptor) tls_files \<Rightarrow> tls_config \<Rightarrow> bool"
where
  "test_load_tls_config_invalid_cert F config = fails_with '''' (load_tls_acceptor F config)"

lemma sublist_front: "sublist part (part @ rest)"
  by (auto simp: sublist_def intro: exI [of _ "[]"])

lemma test_load_tls_config_missing_files_pass:
  "open_file F ''/nonexistent/cert.pem'' = Inl e \<Longrightarrow> test_load_tls_config_missing_files F"
  using sublist_front [of "''Failed to open cert file''"]
  by (auto simp: test_load_tls_config_missing_files_def fails_with_def load_tls_acceptor_def)

lemma test_load_tls_config_empty_files_pass:
  assumes "open_file F (cert config) = Inr f" "open_file F (key config) = Inr g" "pem_certs F f = Inr []"
  shows "test_load_tls_config_empty_files F config"
  using assms sublist_front [of "''No certificates found''"]
  by (auto simp: test_load_tls_config_empty_files_def fails_with_def load_tls_acceptor_def)

text \<open>Whatever the library finds wrong with the certificate or the key, loading fails.\<close>

lemma test_load_tls_config_invalid_cert_pass:
  assumes "\<And>certs k. pem_certs F f = Inr certs \<Longrightarrow> pem_private_key F g = Inr (Some k) \<Longrightarrow>
      \<exists>e. build_acceptor F certs k = Inl e"
    and "open_file F (cert config) = Inr f" "open_file F (key config) = Inr g"
  shows "test_load_tls_config_invalid_cert F config"
proof (cases "load_tls_acceptor F config")
  case (Inl e)
  then show ?thesis by (simp add: test_load_tls_config_invalid_cert_def fails_with_def)
next
  case (Inr a)
  with assms show ?thesis by (fastforce simp: load_tls_acceptor_Inr tls_identity_def)
qed

section \<open>Reloading\<close>

text \<open>
  The configuration the test writes, and the test: the file is loaded, reloaded twice, and the
  last result is sent through the watch channel, which holds the last value sent.
\<close>

definition test_config :: app_config where
  "test_config =
     \<lparr>server = \<lparr>listen = [\<lparr>listen_addr = ''127.0.0.1:8080'', listen_protocol = Protocol_Http, listen_tls = None\<rparr>],
        max_connections = Some 100, tcp_keepalive = None, connect_timeout = None, read_timeout = None,
        write_timeout = None\<rparr>,
      access_control = \<lparr>cfg_default_action = Cfg_Allow, cfg_rules = []\<rparr>,
      upstream = Direct, logging = \<lparr>level = ''info'', access_log = None, log_format = None\<rparr>, metrics = None\<rparr>"

definition test_config_hot_reload ::
  "(string \<Rightarrow> string + string) \<Rightarrow> (string \<Rightarrow> string + app_config) \<Rightarrow> string \<Rightarrow> bool"
where
  "test_config_hot_reload read_file parse_yaml config_path =
     (case (load_from_file read_file parse_yaml config_path, reload read_file parse_yaml config_path,
            reload read_file parse_yaml config_path) of
        (Inr initial_config, Inr reloaded_config, Inr updated_config) \<Rightarrow>
          max_connections (server initial_config) = Some 100 \<and>
          max_connections (server reloaded_config) = Some 100 \<and>
          (let received_config = last [initial_config, updated_config] in
           max_connections (server received_config) = Some 100 \<and> level (logging received_config) = ''info'')
      | _ \<Rightarrow> False)"

lemma test_config_hot_reload_pass:
  "read_file path = Inr content \<Longrightarrow> parse_yaml content = Inr test_config \<Longrightarrow>
   test_config_hot_reload read_file parse_yaml path"
  by (simp add: test_config_hot_reload_def reload_eq load_from_file_def test_config_def)

end
