(* ===== verification/Spec2Isabelle.thy ===== *)
theory Spec2Isabelle
  imports Acl_Example Udp_Properties Peregrine_World Metrics_Tests Str_Slices Repo_Tests
begin

text \<open>
  Peregrine proxy: an HTTP and SOCKS5 proxy server in Rust (\<open>src/src\<close> of the repository).  One
  process listens on the configured addresses, detects the protocol of each accepted connection
  from its first bytes, and hands it to the HTTP or to the SOCKS5 handler, which dials the
  target and copies bytes both ways.  Beside that stand the access controller, the upstream
  connectors (direct, HTTP proxy, SOCKS5 proxy, chain) and the metrics endpoint, which the
  server does not call.

  \<^bold>\<open>How the program is modelled.\<close>
  A string is a list of UTF-8 bytes (\<open>char\<close>), a byte a \<open>u8\<close> word, a port a \<open>u16\<close> word.  An
  operation that reads, writes or dials is a function from a state to an error or a value, and
  the new state; \<open>bind_io\<close> is the \<open>?\<close> of the source and \<open>match_io\<close> a \<open>match\<close> on a result.  The
  state of a stream is abstract: its operations are the record \<open>stream_ops\<close>, and the laws the
  handlers need are locales.  Everything that is not code of the repository is an argument of
  the definitions: tokio's sockets and \<open>copy_bidirectional\<close>, TLS, name resolution, the YAML
  reader, hyper, and the crates ipnet, globset, regex, base64 and prometheus_client.

  \<^bold>\<open>The theories and the files they model.\<close>
  \<^item> \<open>Prelude\<close>: machine integers, \<open>io\<close>, the collections \<open>io_conv\<close> and \<open>frame_intros\<close>.
  \<^item> \<open>Rust_Text\<close>, \<open>Rust_Fmt\<close>, \<open>Rust_Net\<close>: what the program uses of the Rust standard library
    (UTF-8, searching and trimming, decimal integers, IP addresses and their texts);
    \<open>Rust_Words\<close>: white space and the words of a text.  \<open>Transitions\<close>: the interfaces
    \<open>transitions\<close> (runs of a step relation and what they keep) and \<open>refines\<close> (a simulation).
  \<^item> \<open>Errors\<close>: \<open>error.rs\<close>.  \<open>Config_Model\<close>: \<open>config.rs\<close>, \<open>main.rs\<close>, \<open>logging.rs\<close>.
  \<^item> \<open>Acl_Auth\<close>, \<open>Acl_Domain\<close>, \<open>Acl\<close>: \<open>acl/auth.rs\<close>, \<open>acl/domain_filter.rs\<close>, and
    \<open>acl/mod.rs\<close> with \<open>acl/rule.rs\<close> and \<open>acl/ip_filter.rs\<close>.  \<open>Base64_Ref\<close> and \<open>Acl_Ref\<close> are
    reference providers of the crates' interfaces (\<open>Regex_Ref\<close> one with regular expressions,
    correct for their meaning), \<open>Acl_Properties\<close> the properties; \<open>Acl_Example\<close> is the access
    control of \<open>config.example.yaml\<close>.
  \<^item> \<open>Stream_IO\<close> is the interface of a byte stream (locales \<open>byte_stream\<close>, \<open>live_stream\<close>,
    \<open>timed_stream\<close>), \<open>Scripted_Stream\<close> an arbitrary peer that provides it.
  \<^item> \<open>Socks_Wire\<close>, \<open>Socks_Handshake\<close>: \<open>protocol/socks5/handshake.rs\<close>.  \<open>Socks_Session\<close>:
    \<open>protocol/socks5/mod.rs\<close> and \<open>tcp_connect.rs\<close>.  \<open>Socks_Properties\<close>: the properties.
  \<^item> \<open>Udp_Packet\<close>, \<open>Udp_Relay\<close>, \<open>Udp_Properties\<close>: \<open>protocol/socks5/udp_associate.rs\<close>.
    \<open>Udp_Nat\<close> is its abstract specification, a table of address translation;
    \<open>Udp_Delivery\<close> follows every datagram from its receipt to its end.
  \<^item> \<open>Upstream_Base\<close>: \<open>upstream/mod.rs\<close>, \<open>upstream/direct.rs\<close> and the interface \<open>connector\<close>;
    \<open>Upstream_Http\<close>, \<open>Upstream_Socks\<close>, \<open>Upstream_Chain\<close>: \<open>upstream/http_proxy.rs\<close>,
    \<open>socks5_proxy.rs\<close>, \<open>chain.rs\<close>.  \<open>Upstream_Properties\<close>: the properties.
  \<^item> \<open>Duplex\<close>: both ends of a connection at once, and the interface \<open>relay_world\<close> in which a chain
    of proxies runs to its end.  \<open>Chain_World\<close> provides it with the echo server and the proxy of
    the tests of \<open>chain.rs\<close>, and has those tests; \<open>Peregrine_World\<close> provides it with the whole
    server of this program, tunnel included, for any hyper that meets the interface
    \<open>hyper_connect\<close>.
  \<^item> \<open>Detect\<close>: \<open>protocol/detect.rs\<close>.  \<open>Http_Handler\<close>, \<open>Http_Properties\<close>:
    \<open>protocol/http_handler.rs\<close>.  \<open>Http_Connection\<close>: hyper's loop over the requests of a
    connection as an interface (locale \<open>http_server\<close>), and what the handler does behind it.  A
    CONNECT leaves a \<open>tunnel_task\<close>, which \<open>run_tunnel\<close> runs when the connection is over, as the task
    that \<open>handle_connect\<close> spawns does; \<open>connection_and_tunnel\<close> of \<open>Server\<close> is both.
  \<^item> \<open>Proxy_Stream\<close>, \<open>Server\<close>, \<open>Server_Start\<close>, \<open>Server_Life\<close>: \<open>server.rs\<close> (\<open>ProxyStream\<close> and
    its polling; TLS identities and one connection; \<open>run\<close> up to the accept loops, and SIGHUP;
    accept loops, shutdown and drain as a step relation).  \<open>Server_Spec\<close>: the bounded pool it
    refines.  \<open>Server_Properties\<close>: the properties.  \<open>Metrics\<close>: \<open>metrics.rs\<close>;
    \<open>Metrics_Tests\<close>: the interface of the text encoder, and the tests of that file.
  \<^item> \<open>Str_Slices\<close>: every slice of a string that the code takes.  \<open>Repo_Tests\<close>: the inline unit
    tests of \<open>acl/auth.rs\<close>, \<open>acl/domain_filter.rs\<close> and \<open>server.rs\<close>.  \<open>Ip_Texts\<close>: a text that is
    read as an IPv4 address is how that address is printed.
\<close>

text \<open>
  \<^bold>\<open>What is proved.\<close>
  \<^item> Access control: a controller built from a configuration decides as the configuration read
    as an ordered policy, with domain patterns as the comment of \<open>domain_filter.rs\<close> explains them
    (but patterns like \<open>[ab].com\<close> are names to the code); when building fails; the letter case of methods; how
    \<open>get_auth_users_for_rule\<close> agrees with the decision and where it does not; a rule with ports
    only applies to everything, and what that makes of the example configuration.
  \<^item> SOCKS5: the handshake accepts exactly the grammar of RFC 1928 and 1929; nothing is dialled
    unless an admitted request came first, whatever the peer sends; the answer of each command;
    what a refused client gets; a bound on the time the handshake waits.
  \<^item> UDP relay: the datagram grammar and its round trip; over every interleaving of the loop,
    its tasks and its listeners, a client only gets what came to its own sockets, each datagram
    is sent once and to the address it asks for or lost with its task, and the tasks that have
    been started come to an end; from every state a datagram for an IPv4 address and its answer
    can go all the way, and none for an IPv6 address ever leaves (the sockets are bound to
    \<open>0.0.0.0\<close>);
    handled one by one, datagrams are relayed as the table of
    address translation says; the race of two first datagrams, responses with the wrong
    source, listeners that outlive the session.
  \<^item> Upstream: the client handshake against the server's own handshake; each connector dials
    once, and where; what a chain asks of each hop; a chain never uses TLS; a direct entry in
    the middle of a chain; an answer in one segment.
  \<^item> The parts together: through any number of servers of this program, each over HTTP or over
    SOCKS5 and each with the tunnel it opens, a chain is as good as a connection to the target.
  \<^item> Server: the start of the program and its errors, and the sections of the configuration that
    have no influence on it; in every run the number of connections that hold a
    permit is bounded and accounted for, and the server refines a bounded pool; the tunnels of
    HTTP CONNECT, which hold none, are neither bounded nor drained; when a shutdown is lost and
    when it ends; the drain ends; the server is an open proxy for SOCKS5 and for HTTP; detection.
  \<^item> HTTP: what is forwarded, CONNECT, proxy credentials.  Metrics: the endpoint's answers.
  \<^item> Strings: every slice is at a character boundary, so none of them panics.
  \<^item> Tests: the inline tests of the repository hold of the model.

  \<^bold>\<open>Bounds and fuel.\<close>  No definition of the program uses fuel: every loop of the source that is
  modelled as a function runs over a list (rules, patterns, hops, headers, requests, the script
  of a peer).  Only the reader of \<open>Regex_Ref\<close> has fuel, three times the length of its text.  The loops
  that run for ever, the accept loop and the relay loop, are step relations or run over the list
  of events that reach them, and the properties are about every such list.  Time is in
  milliseconds and is spent only by the peer's silences.

  \<^bold>\<open>What is not modelled.\<close>  Log messages other than those a definition names, the derived
  deserializers of the configuration, and \<open>lib.rs\<close>, which only declares modules.  hyper's
  parsing and serialization of HTTP are arguments: a request is what hyper hands to the service.
  The tests under \<open>tests/\<close> run the program over sockets.  Name resolution is a function: it gives
  one answer for a name while a run lasts.  In \<open>Peregrine_World\<close> a server process is what it has
  written after it has read some bytes; a client waits for the answer to what it has sent, as the
  connectors do, so no byte reaches a tunnel before its dial, and \<open>copy_bidirectional\<close>, which is
  tokio's, is written out there as its documentation has it: what comes in at one end goes out
  at the other, both ways.  How a tunnel ends when one side closes is not modelled.
\<close>

end
